theory Spec2Isabelle
  imports Main
begin

section \<open>JavaScript strings\<close>

text \<open>
  A JavaScript string is modelled as a \<^typ>\<open>string\<close>; a character stands for a code unit
  below 256. The white space of \<open>String.prototype.trim\<close> and of \<open>\s\<close> in that range is
  TAB, LF, VT, FF, CR, SPACE and the no-break space.
\<close>

definition is_ws :: "char \<Rightarrow> bool" where
  "is_ws c = (c \<in> set [CHR 0x09, CHR 0x0A, CHR 0x0B, CHR 0x0C, CHR 0x0D, CHR 0x20, CHR 0xA0])"

definition trim :: "string \<Rightarrow> string" where
  "trim s = rev (dropWhile is_ws (rev (dropWhile is_ws s)))"

definition startsWith :: "string \<Rightarrow> string \<Rightarrow> bool" where
  "startsWith s p = (take (length p) s = p)"

definition endsWith :: "string \<Rightarrow> string \<Rightarrow> bool" where
  "endsWith s p = (length p \<le> length s \<and> drop (length s - length p) s = p)"

text \<open>\<open>s.includes(p)\<close>: \<open>p\<close> occurs somewhere in \<open>s\<close>.\<close>

fun str_includes :: "string \<Rightarrow> string \<Rightarrow> bool" where
  "str_includes [] p = (p = [])"
| "str_includes (x # xs) p = (startsWith (x # xs) p \<or> str_includes xs p)"

text \<open>\<open>s.split(c)\<close> for a one-character separator: never the empty array.\<close>

fun split_on :: "char \<Rightarrow> string \<Rightarrow> string list" where
  "split_on c [] = [Nil]"
| "split_on c (x # xs) =
     (if x = c then [] # split_on c xs
      else (case split_on c xs of
              w # ws \<Rightarrow> (x # w) # ws
            | [] \<Rightarrow> [x # Nil]))"

text \<open>\<open>ts.join(c)\<close>, used to write down a separated input.\<close>

fun join_with :: "char \<Rightarrow> string list \<Rightarrow> string" where
  "join_with c [] = []"
| "join_with c [t] = t"
| "join_with c (t # u # ts) = t @ c # join_with c (u # ts)"

text \<open>\<open>s.split(ab)\<close> for a two-character separator (the importers use \<open>', '\<close>).\<close>

fun split2 :: "char \<Rightarrow> char \<Rightarrow> string \<Rightarrow> string list" where
  "split2 a b [] = [Nil]"
| "split2 a b [x] = [x # Nil]"
| "split2 a b (x # y # xs) =
     (if x = a \<and> y = b then [] # split2 a b xs
      else (case split2 a b (y # xs) of
              w # ws \<Rightarrow> (x # w) # ws
            | [] \<Rightarrow> [x # Nil]))"

text \<open>\<open>s.replace(p, '')\<close> with a string pattern: the first occurrence of \<open>p\<close> is removed.\<close>

fun remove_first :: "string \<Rightarrow> string \<Rightarrow> string" where
  "remove_first p [] = []"
| "remove_first p (x # xs) =
     (if startsWith (x # xs) p then drop (length p) (x # xs) else x # remove_first p xs)"

text \<open>\<open>s.toLowerCase()\<close> on code units below 256.\<close>

definition lower_char :: "char \<Rightarrow> char" where
  "lower_char c =
     (let n = of_char c :: nat
      in if (65 \<le> n \<and> n \<le> 90) \<or> (192 \<le> n \<and> n \<le> 222 \<and> n \<noteq> 215) then char_of (n + 32) else c)"

definition toLowerCase :: "string \<Rightarrow> string" where
  "toLowerCase s = map lower_char s"

subsection \<open>parseInt\<close>

text \<open>
  \<open>parseInt(s)\<close> without a radix: leading white space is skipped, then an optional sign,
  then an optional \<open>0x\<close>/\<open>0X\<close> prefix selecting radix 16, then the longest run of digits.
  No digit gives NaN, here \<open>None\<close>. The value is kept as an exact integer (JavaScript
  rounds it to a double, which is exact below \<open>2^53\<close> and never turns a nonzero value
  into zero or NaN).
\<close>

definition digit_val :: "char \<Rightarrow> nat option" where
  "digit_val c =
     (let n = of_char c :: nat
      in if 48 \<le> n \<and> n \<le> 57 then Some (n - 48)
         else if 97 \<le> n \<and> n \<le> 102 then Some (n - 87)
         else if 65 \<le> n \<and> n \<le> 70 then Some (n - 55)
         else None)"

definition is_digit :: "nat \<Rightarrow> char \<Rightarrow> bool" where
  "is_digit radix c = (case digit_val c of None \<Rightarrow> False | Some d \<Rightarrow> d < radix)"

definition digits_val :: "nat \<Rightarrow> string \<Rightarrow> nat" where
  "digits_val radix ds = foldl (\<lambda>acc c. acc * radix + (case digit_val c of None \<Rightarrow> 0 | Some d \<Rightarrow> d)) 0 ds"

definition parseInt :: "string \<Rightarrow> int option" where
  "parseInt s =
     (let s1 = dropWhile is_ws s;
          neg = startsWith s1 ''-'';
          s2 = (if startsWith s1 ''-'' \<or> startsWith s1 ''+'' then drop 1 s1 else s1);
          hex = (startsWith s2 ''0x'' \<or> startsWith s2 ''0X'');
          radix = (if hex then 16 else 10);
          s3 = (if hex then drop 2 s2 else s2);
          ds = takeWhile (is_digit radix) s3
      in if ds = [] then None
         else Some (if neg then - int (digits_val radix ds) else int (digits_val radix ds)))"

text \<open>\<open>parseInt(s) || 1\<close>: NaN and zero are falsy.\<close>

definition parseInt_or_1 :: "string \<Rightarrow> int" where
  "parseInt_or_1 s = (case parseInt s of None \<Rightarrow> 1 | Some n \<Rightarrow> if n = 0 then 1 else n)"

section \<open>The GFF importer: one data line\<close>

subsection \<open>Attribute strings\<close>

text \<open>
  \<open>attributesObj\<close> is a plain object with string values, modelled as a map; the row keeps
  the map itself where the source keeps its \<open>JSON.stringify\<close>. Assigning a string to the
  property \<open>__proto__\<close> of a plain object goes to the inherited setter, which ignores it.
\<close>

type_synonym attrs = "string \<rightharpoonup> string"

definition obj_set :: "attrs \<Rightarrow> string \<Rightarrow> string \<Rightarrow> attrs" where
  "obj_set obj k v = (if k = ''__proto__'' then obj else obj(k \<mapsto> v))"

text \<open>The body of the loop over \<open>attrPairs\<close>.\<close>

definition parsePair :: "attrs \<Rightarrow> string \<Rightarrow> attrs" where
  "parsePair obj pair =
     (if \<not> str_includes pair ''=''
      then (case split_on CHR '':'' pair of
              [k, v] \<Rightarrow> obj_set obj (trim k) (trim v)
            | _ \<Rightarrow> obj)
      else (case split_on CHR ''='' pair of
              key # value # _ \<Rightarrow>
                (if key \<noteq> [] \<and> value \<noteq> [] then obj_set obj (trim key) (trim value) else obj)
            | _ \<Rightarrow> obj))"

definition parseAttributes :: "string \<Rightarrow> attrs" where
  "parseAttributes attributesStr =
     (if attributesStr \<noteq> [] then foldl parsePair Map.empty (split_on CHR '';'' attributesStr)
      else Map.empty)"

subsection \<open>Feature rows\<close>

record gff_feature =
  f_file_id :: nat
  f_seqid :: string
  f_source :: string
  f_type :: string
  f_start :: int
  f_end :: int
  f_score :: "string option"
  f_strand :: "string option"
  f_phase :: "string option"
  f_attributes :: attrs

definition dot_null :: "string \<Rightarrow> string option" where
  "dot_null s = (if s = ''.'' then None else Some s)"

text \<open>The row pushed on \<open>batchValues\<close> for a line of at least nine columns.\<close>

definition featureRow :: "nat \<Rightarrow> string list \<Rightarrow> gff_feature" where
  "featureRow fileId columns =
     \<lparr> f_file_id = fileId,
       f_seqid = columns ! 0,
       f_source = columns ! 1,
       f_type = columns ! 2,
       f_start = parseInt_or_1 (columns ! 3),
       f_end = parseInt_or_1 (columns ! 4),
       f_score = dot_null (columns ! 5),
       f_strand = dot_null (columns ! 6),
       f_phase = dot_null (columns ! 7),
       f_attributes = parseAttributes (columns ! 8) \<rparr>"

text \<open>Which lines of a GFF file reach \<open>batchValues\<close>: not blank, no \<open>#\<close>, nine columns.\<close>

definition is_blank :: "string \<Rightarrow> bool" where
  "is_blank line = (trim line = [])"

definition gff_data_line :: "string \<Rightarrow> bool" where
  "gff_data_line line =
     (\<not> is_blank line \<and> \<not> startsWith line ''#'' \<and> 9 \<le> length (split_on CHR 0x09 line))"

section \<open>Effects: errors, the console, the database connection\<close>

datatype error = DbError | FsError | TypeError

text \<open>
  A console line: \<open>console.log\<close> of a fixed text, of a text with one number or one name
  in it, the tally line of the SQLite importer, \<open>console.warn\<close> and \<open>console.error\<close>.
\<close>

datatype log_entry =
    LogMsg string
  | LogCount string nat
  | LogName string string
  | LogTally nat nat
  | WarnMsg string string
  | ErrMsg string string

text \<open>
  The state the scripts act on. \<open>committed\<close> is what every session sees; \<open>working\<close> is the
  private copy of the open transaction, if one is open. \<open>calls\<close> counts the calls made to
  the database so far and \<open>seq\<close> is the next serial id (a sequence is not transactional;
  one counter stands for the sequences of all tables). \<open>stmts\<close> counts the prepared
  statements of the connection that have not been finalized.
  Which calls fail is not decided by the scripts: a run is given a fault plan
  \<open>flt\<close>, and call number \<open>n\<close> throws when \<open>flt n\<close> holds.
\<close>

record 'd sys =
  committed :: 'd
  working :: "'d option"
  calls :: nat
  seq :: nat
  stmts :: nat
  console :: "log_entry list"

type_synonym faults = "nat \<Rightarrow> bool"

type_synonym ('d, 'a) act = "'d sys \<Rightarrow> 'd sys \<times> (error + 'a)"

definition ret :: "'a \<Rightarrow> ('d, 'a) act" where
  "ret a s = (s, Inr a)"

definition throw :: "error \<Rightarrow> ('d, 'a) act" where
  "throw e s = (s, Inl e)"

text \<open>Sequencing: \<open>await m; f\<close>. A throw of \<open>m\<close> skips \<open>f\<close>.\<close>

definition bnd :: "('d, 'a) act \<Rightarrow> ('a \<Rightarrow> ('d, 'b) act) \<Rightarrow> ('d, 'b) act" where
  "bnd m f s = (case m s of (s', Inl e) \<Rightarrow> (s', Inl e) | (s', Inr a) \<Rightarrow> f a s')"

text \<open>\<open>try { m } catch (e) { h e }\<close>.\<close>

definition try_catch :: "('d, 'a) act \<Rightarrow> (error \<Rightarrow> ('d, 'a) act) \<Rightarrow> ('d, 'a) act" where
  "try_catch m h s = (case m s of (s', Inl e) \<Rightarrow> h e s' | (s', Inr a) \<Rightarrow> (s', Inr a))"

definition say :: "log_entry \<Rightarrow> ('d, unit) act" where
  "say e s = (s\<lparr>console := console s @ [e]\<rparr>, Inr ())"

definition tick :: "'d sys \<Rightarrow> 'd sys" where
  "tick s = s\<lparr>calls := Suc (calls s)\<rparr>"

text \<open>
  A call that touches no table: \<open>pool.connect()\<close>, \<open>open\<close>. Ending the PostgreSQL pool at
  the end of a run is taken to succeed.
\<close>

definition db_call :: "faults \<Rightarrow> ('d, unit) act" where
  "db_call flt s = (if flt (calls s) then (tick s, Inl DbError) else (tick s, Inr ()))"

definition connect :: "faults \<Rightarrow> ('d, unit) act" where
  "connect flt = db_call flt"

text \<open>
  \<open>db.prepare\<close> leaves one more statement to finalize; \<open>insertStmt.finalize()\<close> takes it
  away, unless the call throws.
\<close>

definition prepare :: "faults \<Rightarrow> ('d, unit) act" where
  "prepare flt s =
     (if flt (calls s) then (tick s, Inl DbError)
      else (tick (s\<lparr>stmts := Suc (stmts s)\<rparr>), Inr ()))"

definition finalize :: "faults \<Rightarrow> ('d, unit) act" where
  "finalize flt s =
     (if flt (calls s) then (tick s, Inl DbError)
      else (tick (s\<lparr>stmts := stmts s - 1\<rparr>), Inr ()))"

text \<open>
  \<open>db.close()\<close> on SQLite: the database cannot be closed while a prepared statement has
  not been finalized, and the call throws.
\<close>

definition close_db :: "faults \<Rightarrow> ('d, unit) act" where
  "close_db flt s =
     (if flt (calls s) \<or> stmts s \<noteq> 0 then (tick s, Inl DbError) else (tick s, Inr ()))"

text \<open>
  A statement \<open>q\<close> runs on the transaction's copy when a transaction is open and on the
  committed tables otherwise (autocommit).
\<close>

definition exec :: "faults \<Rightarrow> ('d \<Rightarrow> 'd \<times> 'r) \<Rightarrow> ('d, 'r) act" where
  "exec flt q s =
     (if flt (calls s) then (tick s, Inl DbError)
      else (case working s of
              Some w \<Rightarrow> (case q w of (w', r) \<Rightarrow> (tick (s\<lparr>working := Some w'\<rparr>), Inr r))
            | None \<Rightarrow> (case q (committed s) of (d', r) \<Rightarrow> (tick (s\<lparr>committed := d'\<rparr>), Inr r))))"

text \<open>An \<open>INSERT\<close> that draws a serial id.\<close>

definition exec_ins :: "faults \<Rightarrow> (nat \<Rightarrow> 'd \<Rightarrow> 'd) \<Rightarrow> ('d, nat) act" where
  "exec_ins flt q s =
     (case exec flt (\<lambda>d. (q (seq s) d, seq s)) s of
        (s', Inl e) \<Rightarrow> (s', Inl e)
      | (s', Inr i) \<Rightarrow> (s'\<lparr>seq := Suc (seq s')\<rparr>, Inr i))"

definition begin_tx :: "faults \<Rightarrow> ('d, unit) act" where
  "begin_tx flt s =
     (if flt (calls s) then (tick s, Inl DbError)
      else (tick (s\<lparr>working := (case working s of None \<Rightarrow> Some (committed s) | Some w \<Rightarrow> Some w)\<rparr>),
            Inr ()))"

definition commit_tx :: "faults \<Rightarrow> ('d, unit) act" where
  "commit_tx flt s =
     (if flt (calls s) then (tick s, Inl DbError)
      else (case working s of
              Some w \<Rightarrow> (tick (s\<lparr>committed := w, working := None\<rparr>), Inr ())
            | None \<Rightarrow> (tick s, Inr ())))"

text \<open>
  \<open>ROLLBACK\<close>: the transaction's copy is gone whether the statement is acknowledged or the
  connection is lost with it; the call itself may still throw.
\<close>

definition rollback_tx :: "faults \<Rightarrow> ('d, unit) act" where
  "rollback_tx flt s =
     (tick (s\<lparr>working := None\<rparr>), if flt (calls s) then Inl DbError else Inr ())"

text \<open>\<open>xs[i]\<close> where a missing element is \<open>undefined\<close>.\<close>

definition nth_opt :: "'a list \<Rightarrow> nat \<Rightarrow> 'a option" where
  "nth_opt xs i = (if i < length xs then Some (xs ! i) else None)"

section \<open>The GFF importer\<close>

subsection \<open>Tables and statements\<close>

record gff_file =
  file_id :: nat
  filename :: string
  original_path :: string
  file_size :: nat
  version :: "string option"
  genome_build :: "string option"
  genome_build_accession :: "string option"
  annotation_date :: "string option"
  annotation_source :: "string option"

record sequence_region =
  region_id :: nat
  r_file_id :: nat
  r_seqid :: string
  r_start :: "int option"
  r_end :: "int option"
  species_url :: "string option"

record gff_db =
  gff_files :: "gff_file list"
  gff_features :: "gff_feature list"
  sequence_regions :: "sequence_region list"

text \<open>\<open>SELECT file_id FROM gff_files WHERE filename = $1\<close>\<close>

definition select_file_id :: "string \<Rightarrow> gff_db \<Rightarrow> gff_db \<times> nat list" where
  "select_file_id name d = (d, map file_id (filter (\<lambda>f. filename f = name) (gff_files d)))"

text \<open>\<open>DELETE FROM gff_features WHERE file_id = $1\<close>\<close>

definition delete_features :: "nat \<Rightarrow> gff_db \<Rightarrow> gff_db \<times> unit" where
  "delete_features fid d =
     (d\<lparr>gff_features := filter (\<lambda>f. f_file_id f \<noteq> fid) (gff_features d)\<rparr>, ())"

text \<open>\<open>DELETE FROM sequence_regions WHERE file_id = $1\<close>\<close>

definition delete_regions :: "nat \<Rightarrow> gff_db \<Rightarrow> gff_db \<times> unit" where
  "delete_regions fid d =
     (d\<lparr>sequence_regions := filter (\<lambda>r. r_file_id r \<noteq> fid) (sequence_regions d)\<rparr>, ())"

text \<open>\<open>UPDATE gff_files SET ... WHERE file_id = $n\<close>, for any change \<open>g\<close> of the row.\<close>

definition update_file :: "nat \<Rightarrow> (gff_file \<Rightarrow> gff_file) \<Rightarrow> gff_db \<Rightarrow> gff_db \<times> unit" where
  "update_file fid g d =
     (d\<lparr>gff_files := map (\<lambda>f. if file_id f = fid then g f else f) (gff_files d)\<rparr>, ())"

text \<open>\<open>INSERT INTO gff_files (...) VALUES (...) RETURNING file_id\<close>\<close>

definition insert_file :: "string \<Rightarrow> string \<Rightarrow> nat \<Rightarrow> nat \<Rightarrow> gff_db \<Rightarrow> gff_db" where
  "insert_file name path sz i d =
     d\<lparr>gff_files := gff_files d @
        [\<lparr> file_id = i, filename = name, original_path = path, file_size = sz,
            version = None, genome_build = None, genome_build_accession = None,
            annotation_date = None, annotation_source = None \<rparr>]\<rparr>"

text \<open>\<open>INSERT INTO sequence_regions (file_id, seqid, start, "end") VALUES (...)\<close>\<close>

definition insert_region :: "nat \<Rightarrow> string \<Rightarrow> int option \<Rightarrow> int option \<Rightarrow> nat \<Rightarrow> gff_db \<Rightarrow> gff_db" where
  "insert_region fid sid st en i d =
     d\<lparr>sequence_regions := sequence_regions d @
        [\<lparr> region_id = i, r_file_id = fid, r_seqid = sid, r_start = st, r_end = en,
            species_url = None \<rparr>]\<rparr>"

text \<open>
  \<open>UPDATE sequence_regions SET species_url = $1 WHERE region_id =
  (SELECT MAX(region_id) FROM sequence_regions WHERE file_id = $2)\<close>
\<close>

definition set_species :: "nat \<Rightarrow> string \<Rightarrow> gff_db \<Rightarrow> gff_db \<times> unit" where
  "set_species fid url d =
     (case map region_id (filter (\<lambda>r. r_file_id r = fid) (sequence_regions d)) of
        [] \<Rightarrow> (d, ())
      | i # is \<Rightarrow>
          (d\<lparr>sequence_regions :=
               map (\<lambda>r. if region_id r = fold max is i then r\<lparr>species_url := Some url\<rparr> else r)
                 (sequence_regions d)\<rparr>, ()))"

text \<open>\<open>insertFeatureBatch\<close>: one multi-row \<open>INSERT INTO gff_features\<close>.\<close>

definition insertFeatureBatch :: "faults \<Rightarrow> gff_feature list \<Rightarrow> (gff_db, unit) act" where
  "insertFeatureBatch flt featureBatch =
     exec flt (\<lambda>d. (d\<lparr>gff_features := gff_features d @ featureBatch\<rparr>, ()))"

subsection \<open>Header lines\<close>

text \<open>
  \<open>line.match(/##species\s+(.+)/)\<close>: the first place where \<open>##species\<close>, white space and
  at least one more character follow each other; the capture is what follows the white
  space (its last character when nothing follows). A line holds no line terminator.
\<close>

definition species_tail :: "string \<Rightarrow> string option" where
  "species_tail t =
     (let ws = takeWhile is_ws t; rest = dropWhile is_ws t
      in if ws = [] then None
         else if rest \<noteq> [] then Some rest
         else if 2 \<le> length ws then Some [last ws]
         else None)"

fun species_match :: "string \<Rightarrow> string option" where
  "species_match [] = None"
| "species_match (x # xs) =
     (if startsWith (x # xs) ''##species''
      then (case species_tail (drop 9 (x # xs)) of
              Some u \<Rightarrow> Some u
            | None \<Rightarrow> species_match xs)
      else species_match xs)"

record gff_loop =
  lineCount :: nat
  featureCount :: nat
  sequenceRegionCount :: nat
  batchValues :: "gff_feature list"

definition BATCH_SIZE :: nat where
  "BATCH_SIZE = 1000"

text \<open>The branch \<open>if (line.startsWith('#')) { ... continue; }\<close>, tests in the source's order.\<close>

definition gff_header :: "faults \<Rightarrow> nat \<Rightarrow> string \<Rightarrow> gff_loop \<Rightarrow> (gff_db, gff_loop) act" where
  "gff_header flt fileId line l =
     (if startsWith line ''##gff-version''
      then bnd (exec flt (update_file fileId (\<lambda>f. f\<lparr>version := nth_opt (split_on CHR '' '' line) 1\<rparr>)))
             (\<lambda>_. ret l)
      else if startsWith line ''#!genome-build''
      then bnd (exec flt (update_file fileId (\<lambda>f. f\<lparr>genome_build := nth_opt (split_on CHR '' '' line) 1\<rparr>)))
             (\<lambda>_. ret l)
      else if startsWith line ''#!genome-build-accession''
      then bnd (exec flt (update_file fileId
                  (\<lambda>f. f\<lparr>genome_build_accession := nth_opt (split_on CHR '' '' line) 1\<rparr>)))
             (\<lambda>_. ret l)
      else if startsWith line ''#!annotation-date''
      then bnd (exec flt (update_file fileId
                  (\<lambda>f. f\<lparr>annotation_date := nth_opt (split_on CHR '' '' line) 1\<rparr>)))
             (\<lambda>_. ret l)
      else if startsWith line ''#!annotation-source''
      then bnd (exec flt (update_file fileId
                  (\<lambda>f. f\<lparr>annotation_source := Some (remove_first ''#!annotation-source '' line)\<rparr>)))
             (\<lambda>_. ret l)
      else if startsWith line ''##sequence-region''
      then (let parts = split_on CHR '' '' line
            in if 4 \<le> length parts
               then bnd (exec_ins flt
                           (insert_region fileId (parts ! 1) (parseInt (parts ! 2)) (parseInt (parts ! 3))))
                      (\<lambda>_. ret (l\<lparr>sequenceRegionCount := Suc (sequenceRegionCount l)\<rparr>))
               else ret l)
      else if startsWith line ''##species''
      then (case species_match line of
              Some speciesUrl \<Rightarrow> bnd (exec flt (set_species fileId speciesUrl)) (\<lambda>_. ret l)
            | None \<Rightarrow> ret l)
      else ret l)"

subsection \<open>Data lines and the loop over the file\<close>

definition gff_data :: "faults \<Rightarrow> nat \<Rightarrow> string \<Rightarrow> gff_loop \<Rightarrow> (gff_db, gff_loop) act" where
  "gff_data flt fileId line l =
     (let columns = split_on CHR 0x09 line
      in if length columns < 9 then ret l
         else (let l1 = l\<lparr>batchValues := batchValues l @ [featureRow fileId columns],
                           featureCount := Suc (featureCount l)\<rparr>
               in if BATCH_SIZE \<le> length (batchValues l1)
                  then bnd (insertFeatureBatch flt (batchValues l1)) (\<lambda>_. ret (l1\<lparr>batchValues := []\<rparr>))
                  else ret l1))"

text \<open>One turn of \<open>for await (const line of rl)\<close>.\<close>

definition gff_line :: "faults \<Rightarrow> nat \<Rightarrow> string \<Rightarrow> gff_loop \<Rightarrow> (gff_db, gff_loop) act" where
  "gff_line flt fileId line l0 =
     (let l = l0\<lparr>lineCount := Suc (lineCount l0)\<rparr>
      in bnd (if lineCount l mod 100000 = 0 then say (LogCount ''Processed lines...'' (lineCount l))
              else ret ())
           (\<lambda>_. if is_blank line then ret l
                 else if startsWith line ''#'' then gff_header flt fileId line l
                 else gff_data flt fileId line l))"

fun gff_lines :: "faults \<Rightarrow> nat \<Rightarrow> string list \<Rightarrow> gff_loop \<Rightarrow> (gff_db, gff_loop) act" where
  "gff_lines flt fileId [] l = ret l"
| "gff_lines flt fileId (line # rest) l =
     bnd (gff_line flt fileId line l) (gff_lines flt fileId rest)"

subsection \<open>What a file contributes\<close>

text \<open>
  The columns an \<open>INSERT INTO sequence_regions\<close> supplies, for the rows of one file, and
  the pragma lines of a file that lead to such an insert.
\<close>

definition region_view :: "nat \<Rightarrow> gff_db \<Rightarrow> (string \<times> int option \<times> int option) list" where
  "region_view fid d =
     map (\<lambda>r. (r_seqid r, r_start r, r_end r))
       (filter (\<lambda>r. r_file_id r = fid) (sequence_regions d))"

definition region_line :: "string \<Rightarrow> bool" where
  "region_line line =
     (\<not> is_blank line \<and> startsWith line ''##sequence-region''
      \<and> 4 \<le> length (split_on CHR '' '' line))"

definition region_of_line :: "string \<Rightarrow> string \<times> int option \<times> int option" where
  "region_of_line line =
     (let parts = split_on CHR '' '' line
      in (parts ! 1, parseInt (parts ! 2), parseInt (parts ! 3)))"

subsection \<open>One file, one folder\<close>

text \<open>
  What the script reads of a file: its name, its path, its size (\<open>None\<close> when \<open>stat\<close>
  throws) and the lines the \<open>readline\<close> interface delivers.
\<close>

record gff_input =
  in_name :: string
  in_path :: string
  in_size :: "nat option"
  in_lines :: "string list"

text \<open>The lookup by file name and the update path or the create path.\<close>

definition gff_file_record :: "faults \<Rightarrow> gff_input \<Rightarrow> nat \<Rightarrow> (gff_db, nat) act" where
  "gff_file_record flt inp fileSize =
     bnd (exec flt (select_file_id (in_name inp)))
       (\<lambda>existingFile.
          case existingFile of
            fileId # _ \<Rightarrow>
              bnd (say (LogCount ''File already exists in database with ID. Updating...'' fileId))
                (\<lambda>_. bnd (exec flt (delete_features fileId))
                (\<lambda>_. bnd (exec flt (delete_regions fileId))
                (\<lambda>_. bnd (exec flt (update_file fileId
                             (\<lambda>f. f\<lparr>original_path := in_path inp, file_size := fileSize\<rparr>)))
                (\<lambda>_. ret fileId))))
          | [] \<Rightarrow> exec_ins flt (insert_file (in_name inp) (in_path inp) fileSize))"

text \<open>
  The \<open>try\<close> block of \<open>processGffFile\<close> in three parts: the statements between \<open>BEGIN\<close>
  and \<open>COMMIT\<close>, the report after \<open>COMMIT\<close>, and the whole.
\<close>

definition gff_writes :: "faults \<Rightarrow> gff_input \<Rightarrow> nat \<Rightarrow> (gff_db, nat \<times> gff_loop) act" where
  "gff_writes flt inp fileSize =
     bnd (gff_file_record flt inp fileSize)
       (\<lambda>fileId. bnd (gff_lines flt fileId (in_lines inp)
                        \<lparr>lineCount = 0, featureCount = 0, sequenceRegionCount = 0, batchValues = []\<rparr>)
       (\<lambda>l. bnd (if batchValues l \<noteq> [] then insertFeatureBatch flt (batchValues l) else ret ())
       (\<lambda>_. ret (fileId, l))))"

definition gff_report :: "nat \<Rightarrow> gff_loop \<Rightarrow> (gff_db, nat) act" where
  "gff_report fileId l =
     bnd (say (LogMsg ''GFF file processed successfully:''))
       (\<lambda>_. bnd (say (LogCount ''- File ID'' fileId))
       (\<lambda>_. bnd (say (LogCount ''- Lines processed'' (lineCount l)))
       (\<lambda>_. bnd (say (LogCount ''- Features imported'' (featureCount l)))
       (\<lambda>_. bnd (say (LogCount ''- Sequence regions'' (sequenceRegionCount l)))
       (\<lambda>_. ret fileId)))))"

definition gff_try :: "faults \<Rightarrow> gff_input \<Rightarrow> nat \<Rightarrow> (gff_db, nat) act" where
  "gff_try flt inp fileSize =
     bnd (begin_tx flt)
       (\<lambda>_. bnd (gff_writes flt inp fileSize)
       (\<lambda>r. bnd (commit_tx flt)
       (\<lambda>_. gff_report (fst r) (snd r))))"

definition processGffFile :: "faults \<Rightarrow> gff_input \<Rightarrow> (gff_db, nat) act" where
  "processGffFile flt inp =
     (case in_size inp of
        None \<Rightarrow> throw FsError
      | Some fileSize \<Rightarrow>
          bnd (say (LogName ''Processing file'' (in_name inp)))
            (\<lambda>_. bnd (connect flt)
            (\<lambda>_. try_catch (gff_try flt inp fileSize)
                    (\<lambda>err. bnd (rollback_tx flt)
                      (\<lambda>_. bnd (say (ErrMsg ''Error processing GFF file'' (in_name inp)))
                      (\<lambda>_. throw err))))))"

definition isGffFile :: "string \<Rightarrow> bool" where
  "isGffFile filename' =
     (let lowerFilename = toLowerCase filename'
      in endsWith lowerFilename ''.gff'' \<or> endsWith lowerFilename ''.gff3'')"

text \<open>
  A folder: the names \<open>readdir\<close> returns (\<open>None\<close> when it throws) and what each name
  holds.
\<close>

record 'i folder =
  listing :: "string list option"
  entry :: "string \<Rightarrow> 'i"

text \<open>The \<open>for\<close> loop of \<open>processGffFolder\<close>; \<open>n\<close> is \<open>gffFiles.length\<close>.\<close>

fun gff_each :: "faults \<Rightarrow> gff_input folder \<Rightarrow> nat \<Rightarrow> nat \<Rightarrow> string list \<Rightarrow> (gff_db, unit) act" where
  "gff_each flt fo n i [] = ret ()"
| "gff_each flt fo n i (file # rest) =
     bnd (say (LogName ''Processing file i of n'' file))
       (\<lambda>_. bnd (try_catch (bnd (processGffFile flt (entry fo file)) (\<lambda>_. ret ()))
                   (\<lambda>err. say (ErrMsg ''Failed to process file'' file)))
       (\<lambda>_. gff_each flt fo n (Suc i) rest))"

text \<open>
  \<open>processGffFolder\<close> and the promise chain after it. The result is the exit code the
  script sets: \<open>None\<close> when it sets none and the process ends normally.
\<close>

definition processGffFolder :: "faults \<Rightarrow> gff_input folder \<Rightarrow> gff_db sys \<Rightarrow> gff_db sys \<times> nat option" where
  "processGffFolder flt fo s =
     (let body =
        bnd (say (LogMsg ''Scanning folder''))
          (\<lambda>_. case listing fo of
                  None \<Rightarrow> throw FsError
                | Some files \<Rightarrow>
                    (let gffFiles = filter isGffFile files
                     in bnd (say (LogCount ''Found GFF file(s)'' (length gffFiles)))
                          (\<lambda>_. bnd (gff_each flt fo (length gffFiles) 0 gffFiles)
                          (\<lambda>_. say (LogMsg ''All files processed.'')))));
          guarded = try_catch body (\<lambda>err. say (ErrMsg ''Error scanning folder'' []))
      in (case bnd guarded (\<lambda>_. say (LogMsg ''Script completed.'')) s of
            (s', Inr _) \<Rightarrow> (s', None)
          | (s', Inl _) \<Rightarrow> (s'\<lparr>console := console s' @ [ErrMsg ''Script failed'' []]\<rparr>, Some 1)))"

section \<open>The TSV importers\<close>

subsection \<open>Tables, header metadata, rows\<close>

record genome =
  g_id :: nat
  g_sample_id :: string
  g_software_version :: string
  g_database_version :: string
  g_database_type :: string
  g_doi :: string
  g_url :: string
  g_file_path :: string

record annotation =
  a_genome_id :: nat
  a_sequence_id :: string
  a_feature_type :: string
  a_start_position :: "int option"
  a_stop_position :: "int option"
  a_strand :: string
  a_locus_tag :: "string option"
  a_gene :: "string option"
  a_product :: "string option"
  a_dbxrefs :: "string list option"

text \<open>\<open>has_schema\<close>: the tables exist (the SQLite importer creates them when they do not).\<close>

record tsv_db =
  has_schema :: bool
  genomes :: "genome list"
  annotations :: "annotation list"

record metadata =
  software_version :: string
  database_version :: string
  database_type :: string
  doi :: string
  url :: string

definition metadata_step :: "metadata \<Rightarrow> string \<Rightarrow> metadata" where
  "metadata_step m line =
     (if startsWith line ''# Software:''
      then m\<lparr>software_version := trim (remove_first ''# Software:'' line)\<rparr>
      else if startsWith line ''# Database:''
      then (let parts = split_on CHR '','' (trim (remove_first ''# Database:'' line));
                m1 = (if 1 \<le> length parts then m\<lparr>database_version := trim (parts ! 0)\<rparr> else m)
            in if 2 \<le> length parts then m1\<lparr>database_type := trim (parts ! 1)\<rparr> else m1)
      else if startsWith line ''# DOI:''
      then m\<lparr>doi := trim (remove_first ''# DOI:'' line)\<rparr>
      else if startsWith line ''# URL:''
      then m\<lparr>url := trim (remove_first ''# URL:'' line)\<rparr>
      else m)"

definition parseMetadata :: "string list \<Rightarrow> metadata" where
  "parseMetadata lines =
     foldl metadata_step
       \<lparr>software_version = [], database_version = [], database_type = [], doi = [], url = []\<rparr>
       lines"

text \<open>\<open>fileName.replace(/\.[^/.]+$/, '')\<close>: the last extension is removed.\<close>

definition strip_ext :: "string \<Rightarrow> string" where
  "strip_ext name =
     (let ext = takeWhile (\<lambda>c. c \<noteq> CHR ''.'' \<and> c \<noteq> CHR ''/'') (rev name);
          rest = dropWhile (\<lambda>c. c \<noteq> CHR ''.'' \<and> c \<noteq> CHR ''/'') (rev name)
      in if ext \<noteq> [] \<and> take 1 rest = ''.'' then rev (drop 1 rest) else name)"

text \<open>\<open>x || null\<close> on a string: the empty string is falsy.\<close>

definition or_null :: "string \<Rightarrow> string option" where
  "or_null x = (if x = [] then None else Some x)"

text \<open>
  \<open>parts.length > 8 && parts[8] ? parts[8].split(', ').filter(x => x.trim() !== '') : null\<close>
\<close>

definition parse_dbxrefs :: "string list \<Rightarrow> string list option" where
  "parse_dbxrefs parts =
     (if 8 < length parts \<and> parts ! 8 \<noteq> []
      then Some (filter (\<lambda>x. trim x \<noteq> []) (split2 CHR '','' CHR '' '' (parts ! 8)))
      else None)"

text \<open>The values both importers bind for a line of at least eight columns.\<close>

definition annotationRow :: "nat \<Rightarrow> string list \<Rightarrow> annotation" where
  "annotationRow genomeId parts =
     \<lparr> a_genome_id = genomeId,
       a_sequence_id = parts ! 0,
       a_feature_type = parts ! 1,
       a_start_position = parseInt (parts ! 2),
       a_stop_position = parseInt (parts ! 3),
       a_strand = parts ! 4,
       a_locus_tag = or_null (parts ! 5),
       a_gene = or_null (parts ! 6),
       a_product = or_null (parts ! 7),
       a_dbxrefs = parse_dbxrefs parts \<rparr>"

definition headerLines_of :: "string list \<Rightarrow> string list" where
  "headerLines_of lines = filter (\<lambda>line. startsWith line ''#'') lines"

definition dataLines_of :: "string list \<Rightarrow> string list" where
  "dataLines_of lines = filter (\<lambda>line. \<not> startsWith line ''#'' \<and> trim line \<noteq> []) lines"

text \<open>\<open>INSERT INTO genomes (...) VALUES (...)\<close>, the id drawn from the sequence.\<close>

definition insert_genome :: "string \<Rightarrow> metadata \<Rightarrow> string \<Rightarrow> nat \<Rightarrow> tsv_db \<Rightarrow> tsv_db" where
  "insert_genome sampleId m filePath i d =
     d\<lparr>genomes := genomes d @
        [\<lparr> g_id = i, g_sample_id = sampleId, g_software_version = software_version m,
            g_database_version = database_version m, g_database_type = database_type m,
            g_doi = doi m, g_url = url m, g_file_path = filePath \<rparr>]\<rparr>"

text \<open>\<open>INSERT INTO annotations (...) VALUES ...\<close>, one row or many.\<close>

definition insert_annotations :: "annotation list \<Rightarrow> tsv_db \<Rightarrow> tsv_db \<times> unit" where
  "insert_annotations rows d = (d\<lparr>annotations := annotations d @ rows\<rparr>, ())"

record tsv_input =
  t_name :: string
  t_path :: string
  t_content :: "string option"

subsection \<open>The PostgreSQL importer\<close>

text \<open>The rows of one batch: lines of fewer than eight columns are passed over.\<close>

definition batch_rows :: "nat \<Rightarrow> string list \<Rightarrow> annotation list" where
  "batch_rows genomeId batch =
     map (annotationRow genomeId)
       (filter (\<lambda>parts. 8 \<le> length parts) (map (split_on CHR 0x09) batch))"

text \<open>
  \<open>for (batchIndex = 0; batchIndex < totalBatches; batchIndex++)\<close>; the last argument
  counts the turns left.
\<close>

fun pg_batches :: "faults \<Rightarrow> nat \<Rightarrow> nat \<Rightarrow> string list \<Rightarrow> nat \<Rightarrow> nat \<Rightarrow> (tsv_db, unit) act" where
  "pg_batches flt genomeId batchSize dataLines batchIndex 0 = ret ()"
| "pg_batches flt genomeId batchSize dataLines batchIndex (Suc k) =
     (let start = batchIndex * batchSize;
          end' = min (start + batchSize) (length dataLines);
          batch = take (end' - start) (drop start dataLines);
          rows = batch_rows genomeId batch
      in bnd (if rows \<noteq> [] then exec flt (insert_annotations rows) else ret ())
           (\<lambda>_. pg_batches flt genomeId batchSize dataLines (Suc batchIndex) k))"

text \<open>\<open>Math.ceil(n / batchSize)\<close>\<close>

definition totalBatches :: "nat \<Rightarrow> nat \<Rightarrow> nat" where
  "totalBatches n batchSize = (n + batchSize - 1) div batchSize"

text \<open>The \<open>try\<close> block of \<open>processTsvFile\<close> up to the last batch.\<close>

definition pg_writes :: "faults \<Rightarrow> tsv_input \<Rightarrow> (tsv_db, string list) act" where
  "pg_writes flt inp =
     (case t_content inp of
        None \<Rightarrow> throw FsError
      | Some fileContent \<Rightarrow>
          (let lines = split_on CHR 0x0A fileContent;
               dataLines = dataLines_of lines;
               metadata = parseMetadata (headerLines_of lines);
               sampleId = strip_ext (t_name inp)
           in bnd (exec_ins flt (insert_genome sampleId metadata (t_path inp)))
                (\<lambda>genomeId.
                   bnd (pg_batches flt genomeId 1000 dataLines 0 (totalBatches (length dataLines) 1000))
                     (\<lambda>_. ret dataLines))))"

definition pg_try :: "faults \<Rightarrow> tsv_input \<Rightarrow> (tsv_db, unit) act" where
  "pg_try flt inp =
     bnd (begin_tx flt)
       (\<lambda>_. bnd (pg_writes flt inp)
       (\<lambda>dataLines. bnd (commit_tx flt)
       (\<lambda>_. say (LogCount ''Imported annotations'' (length dataLines)))))"

definition pg_processTsvFile :: "faults \<Rightarrow> tsv_input \<Rightarrow> (tsv_db, unit) act" where
  "pg_processTsvFile flt inp =
     bnd (say (LogName ''Processing file'' (t_path inp)))
       (\<lambda>_. bnd (connect flt)
       (\<lambda>_. try_catch (pg_try flt inp)
               (\<lambda>error. bnd (rollback_tx flt)
                 (\<lambda>_. bnd (say (ErrMsg ''Error processing file'' (t_path inp)))
                 (\<lambda>_. throw error)))))"

text \<open>\<open>files.filter(file => file.toLowerCase().includes(filePattern))\<close>\<close>

definition tsvFiles_of :: "string \<Rightarrow> string list \<Rightarrow> string list" where
  "tsvFiles_of filePattern files = filter (\<lambda>file. str_includes (toLowerCase file) filePattern) files"

text \<open>The \<open>for\<close> loop of \<open>main\<close>: a throw of \<open>processTsvFile\<close> leaves the loop.\<close>

fun pg_each :: "faults \<Rightarrow> tsv_input folder \<Rightarrow> nat \<Rightarrow> string list \<Rightarrow> (tsv_db, unit) act" where
  "pg_each flt fo i [] = ret ()"
| "pg_each flt fo i (file # rest) =
     bnd (pg_processTsvFile flt (entry fo file))
       (\<lambda>_. bnd (say (LogCount ''Processed files'' (Suc i)))
       (\<lambda>_. pg_each flt fo (Suc i) rest))"

text \<open>
  \<open>main\<close>. The result is the code of \<open>process.exit\<close>, or \<open>None\<close> when \<open>main\<close> returns and
  the process ends normally.
\<close>

definition pg_main :: "faults \<Rightarrow> string \<Rightarrow> tsv_input folder \<Rightarrow> tsv_db sys \<Rightarrow> tsv_db sys \<times> nat option" where
  "pg_main flt filePattern fo s =
     (case listing fo of
        None \<Rightarrow> (fst (say (ErrMsg ''Error'' []) s), Some 1)
      | Some files \<Rightarrow>
          (let tsvFiles = tsvFiles_of filePattern files
           in if tsvFiles = []
              then (fst (say (LogMsg ''No TSV files found'') s), Some 1)
              else (case bnd (say (LogCount ''Found TSV files to import'' (length tsvFiles)))
                           (\<lambda>_. bnd (pg_each flt fo 0 tsvFiles)
                           (\<lambda>_. say (LogMsg ''All files processed successfully''))) s of
                      (s', Inr _) \<Rightarrow> (s', None)
                    | (s', Inl _) \<Rightarrow> (fst (say (ErrMsg ''Error'' []) s'), Some 1))))"

subsection \<open>The SQLite importer\<close>

text \<open>
  \<open>ROLLBACK\<close> on SQLite throws when no transaction is active; the transaction's copy is
  gone in any case.
\<close>

definition sqlite_rollback :: "faults \<Rightarrow> ('d, unit) act" where
  "sqlite_rollback flt s =
     (tick (s\<lparr>working := None\<rparr>),
      if flt (calls s) \<or> working s = None then Inl DbError else Inr ())"

text \<open>\<open>for (const line of batch)\<close>: one \<open>insertStmt.run\<close> per line of eight columns.\<close>

fun sqlite_batch :: "faults \<Rightarrow> nat \<Rightarrow> string list \<Rightarrow> (tsv_db, unit) act" where
  "sqlite_batch flt genomeId [] = ret ()"
| "sqlite_batch flt genomeId (line # rest) =
     (let parts = split_on CHR 0x09 line
      in if length parts < 8 then sqlite_batch flt genomeId rest
         else bnd (exec flt (insert_annotations [annotationRow genomeId parts]))
                (\<lambda>_. sqlite_batch flt genomeId rest))"

fun sqlite_batches :: "faults \<Rightarrow> nat \<Rightarrow> nat \<Rightarrow> string list \<Rightarrow> nat \<Rightarrow> nat \<Rightarrow> (tsv_db, unit) act" where
  "sqlite_batches flt genomeId batchSize dataLines batchIndex 0 = ret ()"
| "sqlite_batches flt genomeId batchSize dataLines batchIndex (Suc k) =
     (let start = batchIndex * batchSize;
          end' = min (start + batchSize) (length dataLines);
          batch = take (end' - start) (drop start dataLines)
      in bnd (sqlite_batch flt genomeId batch)
           (\<lambda>_. sqlite_batches flt genomeId batchSize dataLines (Suc batchIndex) k))"

text \<open>From \<open>BEGIN TRANSACTION\<close> to \<open>insertStmt.finalize()\<close>.\<close>

definition sqlite_writes :: "faults \<Rightarrow> tsv_input \<Rightarrow> string list \<Rightarrow> (tsv_db, unit) act" where
  "sqlite_writes flt inp lines =
     bnd (exec_ins flt (insert_genome (strip_ext (t_name inp)) (parseMetadata (headerLines_of lines))
                          (t_path inp)))
       (\<lambda>genomeId. bnd (prepare flt)
       (\<lambda>_. bnd (sqlite_batches flt genomeId 500 (dataLines_of lines) 0
                    (totalBatches (length (dataLines_of lines)) 500))
       (\<lambda>_. finalize flt)))"

definition sqlite_try :: "faults \<Rightarrow> tsv_input \<Rightarrow> (tsv_db, unit) act" where
  "sqlite_try flt inp =
     (case t_content inp of
        None \<Rightarrow> throw FsError
      | Some fileContent \<Rightarrow>
          (let lines = split_on CHR 0x0A fileContent
           in bnd (begin_tx flt)
                (\<lambda>_. bnd (sqlite_writes flt inp lines)
                (\<lambda>_. bnd (commit_tx flt)
                (\<lambda>_. say (LogCount ''Imported annotations'' (length (dataLines_of lines))))))))"

definition sqlite_processTsvFile :: "faults \<Rightarrow> tsv_input \<Rightarrow> (tsv_db, unit) act" where
  "sqlite_processTsvFile flt inp =
     bnd (say (LogName ''Processing file'' (t_path inp)))
       (\<lambda>_. try_catch (sqlite_try flt inp)
               (\<lambda>error. bnd (sqlite_rollback flt)
                 (\<lambda>_. bnd (say (ErrMsg ''Error processing file'' (t_path inp)))
                 (\<lambda>_. throw error))))"

text \<open>
  \<open>initializeDatabase\<close>: when the \<open>genomes\<close> table is missing, the two tables and the
  indexes are created, each by one call.
\<close>

definition initializeDatabase :: "faults \<Rightarrow> (tsv_db, unit) act" where
  "initializeDatabase flt =
     bnd (exec flt (\<lambda>d. (d, has_schema d)))
       (\<lambda>tablesExist.
          if \<not> tablesExist
          then bnd (say (LogMsg ''Creating database schema...''))
                 (\<lambda>_. bnd (exec flt (\<lambda>d. (d\<lparr>has_schema := True\<rparr>, ())))
                 (\<lambda>_. bnd (exec flt (\<lambda>d. (d, ())))
                 (\<lambda>_. exec flt (\<lambda>d. (d, ())))))
          else ret ())"

text \<open>The \<open>for\<close> loop of \<open>main\<close>, with its two counters.\<close>

fun sqlite_each ::
  "faults \<Rightarrow> tsv_input folder \<Rightarrow> nat \<Rightarrow> string list \<Rightarrow> nat \<times> nat \<Rightarrow> (tsv_db, nat \<times> nat) act"
where
  "sqlite_each flt fo i [] counts = ret counts"
| "sqlite_each flt fo i (file # rest) counts =
     bnd (try_catch
            (bnd (sqlite_processTsvFile flt (entry fo file)) (\<lambda>_. ret (Suc (fst counts), snd counts)))
            (\<lambda>error. ret (fst counts, Suc (snd counts))))
       (\<lambda>counts'. bnd (say (LogCount ''Processed files'' (Suc i)))
       (\<lambda>_. sqlite_each flt fo (Suc i) rest counts'))"

text \<open>\<open>open\<close> followed by \<open>initializeDatabase\<close>.\<close>

definition sqlite_open :: "faults \<Rightarrow> (tsv_db, unit) act" where
  "sqlite_open flt = bnd (db_call flt) (\<lambda>_. initializeDatabase flt)"

text \<open>
  \<open>main\<close>. The tally is printed after the loop and \<open>db.close()\<close> follows it, still inside
  the \<open>try\<close> block: when closing throws, the \<open>catch\<close> prints \<open>Error:\<close> and exits with
  code 1.
\<close>

definition sqlite_main :: "faults \<Rightarrow> string \<Rightarrow> tsv_input folder \<Rightarrow> tsv_db sys \<Rightarrow> tsv_db sys \<times> nat option" where
  "sqlite_main flt filePattern fo s =
     (case sqlite_open flt s of
        (s1, Inl _) \<Rightarrow> (fst (say (ErrMsg ''Error'' []) s1), Some 1)
      | (s1, Inr _) \<Rightarrow>
          (case listing fo of
             None \<Rightarrow> (fst (say (ErrMsg ''Error'' []) s1), Some 1)
           | Some files \<Rightarrow>
               (let tsvFiles = tsvFiles_of filePattern files
                in if tsvFiles = []
                   then (fst (say (LogMsg ''No TSV files found'') s1), Some 1)
                   else (case bnd (say (LogCount ''Found TSV files to import'' (length tsvFiles)))
                                (\<lambda>_. bnd (sqlite_each flt fo 0 tsvFiles (0, 0))
                                (\<lambda>counts. bnd (say (LogTally (fst counts) (snd counts)))
                                (\<lambda>_. close_db flt))) s1 of
                           (s', Inr _) \<Rightarrow> (s', None)
                         | (s', Inl _) \<Rightarrow> (fst (say (ErrMsg ''Error'' []) s'), Some 1)))))"

section \<open>The JSON importer\<close>

text \<open>
  A parsed JSON document. Numbers are kept as integers: the importer only tests them for
  truthiness and passes them on. An object is its members in the order of the text; the
  last member of a name is the one a property read finds.
\<close>

datatype json =
    JNull
  | JBool bool
  | JNum int
  | JStr string
  | JArr "json list"
  | JObj "(string \<times> json) list"

fun truthy :: "json \<Rightarrow> bool" where
  "truthy JNull = False"
| "truthy (JBool b) = b"
| "truthy (JNum n) = (n \<noteq> 0)"
| "truthy (JStr s) = (s \<noteq> [])"
| "truthy (JArr xs) = True"
| "truthy (JObj kvs) = True"

text \<open>
  \<open>j.k\<close> for \<open>j\<close> other than \<open>null\<close> and \<open>k\<close> one of the member names the importer reads
  (none is a built-in property of strings, numbers or arrays). A missing member is
  \<open>undefined\<close>, which every use in the importer treats as it treats \<open>null\<close>.
\<close>

fun get :: "json \<Rightarrow> string \<Rightarrow> json" where
  "get (JObj kvs) k = (case map_of (rev kvs) k of None \<Rightarrow> JNull | Some v \<Rightarrow> v)"
| "get _ k = JNull"

text \<open>\<open>x || null\<close>\<close>

definition j_or_null :: "json \<Rightarrow> json" where
  "j_or_null x = (if truthy x then x else JNull)"

text \<open>\<open>Array.isArray(x)\<close>\<close>

fun is_array :: "json \<Rightarrow> bool" where
  "is_array (JArr xs) = True"
| "is_array _ = False"

text \<open>The elements of \<open>x\<close> when \<open>x && Array.isArray(x)\<close>, no element otherwise.\<close>

fun elements :: "json \<Rightarrow> json list" where
  "elements (JArr xs) = xs"
| "elements _ = []"

text \<open>A row of one of the tables of the JSON schema: its table, its id, the values bound.\<close>

record json_row =
  j_table :: string
  j_id :: nat
  j_values :: "json list"

type_synonym json_db = "json_row list"

definition insert_row :: "string \<Rightarrow> json list \<Rightarrow> nat \<Rightarrow> json_db \<Rightarrow> json_db" where
  "insert_row t vs i d = d @ [\<lparr> j_table = t, j_id = i, j_values = vs \<rparr>]"

text \<open>\<open>for (const x of xs) await client.query('INSERT INTO t (p, c) VALUES ($1, $2)', [parent, x])\<close>\<close>

fun insert_each :: "faults \<Rightarrow> string \<Rightarrow> nat \<Rightarrow> json list \<Rightarrow> (json_db, unit) act" where
  "insert_each flt t parent [] = ret ()"
| "insert_each flt t parent (x # xs) =
     bnd (exec_ins flt (insert_row t [JNum (int parent), x]))
       (\<lambda>_. insert_each flt t parent xs)"

text \<open>\<open>insertFeature\<close>. Reading \<open>feature.id\<close> of \<open>null\<close> throws before any statement.\<close>

definition insertFeature :: "faults \<Rightarrow> json \<Rightarrow> nat \<Rightarrow> (json_db, unit) act" where
  "insertFeature flt feature genomeId =
     (if feature = JNull then throw TypeError
      else
        bnd (exec_ins flt (insert_row ''features''
               (JNum (int genomeId) #
                map (\<lambda>k. j_or_null (get feature k))
                  [''id'', ''type'', ''contig'', ''start'', ''stop'', ''strand'', ''frame'', ''gene'',
                   ''product'', ''start_type'', ''rbs_motif'', ''locus''])))
        (\<lambda>featureId.
        bnd (insert_each flt ''db_xrefs'' featureId (elements (get feature ''db_xrefs'')))
        (\<lambda>_.
        bnd (insert_each flt ''genes'' featureId (elements (get feature ''genes'')))
        (\<lambda>_.
        bnd (if truthy (get feature ''ups'')
             then bnd (exec_ins flt (insert_row ''ups''
                         (JNum (int featureId) #
                          map (\<lambda>k. j_or_null (get (get feature ''ups'') k))
                            [''uniparc_id'', ''ncbi_nrp_id'', ''uniref100_id''])))
                    (\<lambda>upsId. insert_each flt ''ups_db_xrefs'' upsId
                               (elements (get (get feature ''ups'') ''db_xrefs'')))
             else ret ())
        (\<lambda>_.
        bnd (if truthy (get feature ''ips'')
             then bnd (exec_ins flt (insert_row ''ips''
                         (JNum (int featureId) #
                          map (\<lambda>k. j_or_null (get (get feature ''ips'') k))
                            [''uniref100_id'', ''uniref90_id''])))
                    (\<lambda>_. ret ())
             else ret ())
        (\<lambda>_.
        bnd (if truthy (get feature ''psc'')
             then bnd (exec_ins flt (insert_row ''psc''
                         (JNum (int featureId) #
                          map (\<lambda>k. j_or_null (get (get feature ''psc'') k))
                            [''uniref90_id'', ''gene'', ''product'', ''uniref50_id'', ''cog_id'',
                             ''cog_category''])))
                    (\<lambda>pscId.
                       bnd (insert_each flt ''psc_go_ids'' pscId
                              (elements (get (get feature ''psc'') ''go_ids'')))
                         (\<lambda>_. insert_each flt ''psc_ec_ids'' pscId
                                 (elements (get (get feature ''psc'') ''ec_ids''))))
             else ret ())
        (\<lambda>_.
        if truthy (get feature ''pscc'')
        then bnd (exec_ins flt (insert_row ''pscc''
                    (JNum (int featureId) #
                     map (\<lambda>k. j_or_null (get (get feature ''pscc'') k))
                       [''uniref50_id'', ''product''])))
               (\<lambda>psccId. insert_each flt ''pscc_db_xrefs'' psccId
                            (elements (get (get feature ''pscc'') ''db_xrefs'')))
        else ret ())))))))"

fun insert_features :: "faults \<Rightarrow> json list \<Rightarrow> nat \<Rightarrow> (json_db, unit) act" where
  "insert_features flt [] genomeId = ret ()"
| "insert_features flt (feature # rest) genomeId =
     bnd (insertFeature flt feature genomeId) (\<lambda>_. insert_features flt rest genomeId)"

text \<open>
  What the script reads of a file: its path, its base name and the value \<open>JSON.parse\<close>
  returns (\<open>None\<close> when reading or parsing throws).
\<close>

record json_input =
  j_path :: string
  j_name :: string
  j_parsed :: "json option"

text \<open>
  \<open>processFile\<close> after its first line. \<open>BEGIN\<close>, \<open>COMMIT\<close> and \<open>ROLLBACK\<close> are commented
  out in the source, so no transaction is opened. \<open>ended\<close> says that \<open>pool.end()\<close> has
  been called, after which \<open>pool.connect()\<close> throws. Nothing is thrown to the caller.
\<close>

definition processFile_rest :: "bool \<Rightarrow> faults \<Rightarrow> json_input \<Rightarrow> (json_db, unit) act" where
  "processFile_rest ended flt inp =
     try_catch
       (case j_parsed inp of
          None \<Rightarrow> throw FsError
        | Some jsonData \<Rightarrow>
            if jsonData = JNull then throw TypeError
            else (case get jsonData ''features'' of
                    JArr features \<Rightarrow>
                      bnd (if ended then throw DbError else connect flt)
                        (\<lambda>_. try_catch
                                (bnd (exec_ins flt (insert_row ''genomes'' [JStr (j_name inp)]))
                                   (\<lambda>genomeId. bnd (insert_features flt features genomeId)
                                   (\<lambda>_. say (LogCount ''Successfully imported features''
                                                (length features)))))
                                (\<lambda>err. say (ErrMsg ''Error processing file'' (j_path inp))))
                  | _ \<Rightarrow> say (WarnMsg ''No features array found in file'' (j_path inp))))
       (\<lambda>err. say (ErrMsg ''Error reading or parsing file'' (j_path inp)))"

definition processFile_start :: "json_input \<Rightarrow> (json_db, unit) act" where
  "processFile_start inp = say (LogName ''Processing file'' (j_path inp))"

definition processFile :: "faults \<Rightarrow> json_input \<Rightarrow> (json_db, unit) act" where
  "processFile flt inp = bnd (processFile_start inp) (\<lambda>_. processFile_rest False flt inp)"

fun process_all :: "bool \<Rightarrow> faults \<Rightarrow> json_input list \<Rightarrow> (json_db, unit) act" where
  "process_all ended flt [] = ret ()"
| "process_all ended flt (inp # rest) =
     bnd (processFile_rest ended flt inp) (\<lambda>_. process_all ended flt rest)"

fun start_all :: "json_input list \<Rightarrow> (json_db, unit) act" where
  "start_all [] = ret ()"
| "start_all (inp # rest) = bnd (processFile_start inp) (\<lambda>_. start_all rest)"

text \<open>
  The loop of \<open>processDirectory\<close>: every fourth file the four pending imports are awaited;
  the model runs the four one after the other. Fewer than four files at the end of the
  list are started and handed back, not awaited.
\<close>

fun json_groups :: "faults \<Rightarrow> json_input list \<Rightarrow> (json_db, json_input list) act" where
  "json_groups flt (a # b # c # d # rest) =
     bnd (start_all [a, b, c, d])
       (\<lambda>_. bnd (process_all False flt [a, b, c, d])
       (\<lambda>_. json_groups flt rest))"
| "json_groups flt pending = bnd (start_all pending) (\<lambda>_. ret pending)"

text \<open>\<open>files.filter(file => file.toLowerCase().endsWith('.json'))\<close>\<close>

definition jsonFiles_of :: "string list \<Rightarrow> string list" where
  "jsonFiles_of files = filter (\<lambda>file. endsWith (toLowerCase file) ''.json'') files"

text \<open>
  \<open>processDirectory\<close>, then what the imports left pending do once they get their turn:
  the pool has been ended by then. The script sets no exit code.
\<close>

definition processDirectory :: "faults \<Rightarrow> json_input folder \<Rightarrow> json_db sys \<Rightarrow> json_db sys \<times> nat option" where
  "processDirectory flt fo s =
     (case try_catch
             (case listing fo of
                None \<Rightarrow> throw FsError
              | Some files \<Rightarrow>
                  (let jsonFiles = jsonFiles_of files
                   in bnd (say (LogCount ''Found JSON files to process'' (length jsonFiles)))
                        (\<lambda>_. bnd (json_groups flt (map (entry fo) jsonFiles))
                        (\<lambda>pending. bnd (say (LogMsg ''Finished processing all files''))
                        (\<lambda>_. ret pending)))))
             (\<lambda>err. bnd (say (ErrMsg ''Error reading directory'' [])) (\<lambda>_. ret []))
             s of
        (s1, Inr pending) \<Rightarrow> (fst (process_all True flt pending s1), None)
      | (s1, Inl _) \<Rightarrow> (s1, None))"

section \<open>Notions used in the statements\<close>

text \<open>
  An action respects an open transaction when, started inside one, it leaves the
  committed tables alone and leaves the transaction open.
\<close>

definition keeps_tx :: "('d, 'a) act \<Rightarrow> bool" where
  "keeps_tx m = (\<forall>s s' r. m s = (s', r) \<longrightarrow> working s \<noteq> None \<longrightarrow>
      committed s' = committed s \<and> working s' \<noteq> None)"

text \<open>The ids \<open>SELECT file_id FROM gff_files WHERE filename = $1\<close> returns.\<close>

definition existing_ids :: "string \<Rightarrow> gff_db \<Rightarrow> nat list" where
  "existing_ids name d = map file_id (filter (\<lambda>f. filename f = name) (gff_files d))"

text \<open>The feature rows of one file, those of the other files, the row of a line.\<close>

definition features_of :: "nat \<Rightarrow> gff_db \<Rightarrow> gff_feature list" where
  "features_of fid d = filter (\<lambda>f. f_file_id f = fid) (gff_features d)"

definition features_beside :: "nat \<Rightarrow> gff_db \<Rightarrow> gff_feature list" where
  "features_beside fid d = filter (\<lambda>f. f_file_id f \<noteq> fid) (gff_features d)"

definition line_row :: "nat \<Rightarrow> string \<Rightarrow> gff_feature" where
  "line_row fid line = featureRow fid (split_on CHR 0x09 line)"

text \<open>
  A key and a value written as the pair \<open>key=value\<close>; the entry the pair stands for once
  both are trimmed; a pair whose key and value are non-empty and free of \<open>=\<close> and \<open>;\<close>
  and whose trimmed key is not \<open>__proto__\<close>.
\<close>

definition pair_text :: "string \<times> string \<Rightarrow> string" where
  "pair_text kv = fst kv @ ''='' @ snd kv"

definition trimmed :: "string \<times> string \<Rightarrow> string \<times> string" where
  "trimmed kv = (trim (fst kv), trim (snd kv))"

definition plain_pair :: "string \<times> string \<Rightarrow> bool" where
  "plain_pair kv =
     (fst kv \<noteq> [] \<and> snd kv \<noteq> []
      \<and> CHR ''='' \<notin> set (fst kv @ snd kv) \<and> CHR '';'' \<notin> set (fst kv @ snd kv)
      \<and> trim (fst kv) \<noteq> ''__proto__'')"

text \<open>
  The names in the console lines of one text, in the order they were printed: under the
  text \<open>Processing file\<close>, the files whose import was started. An action is quiet when
  it prints no such line.
\<close>

fun entry_name :: "string \<Rightarrow> log_entry \<Rightarrow> string list" where
  "entry_name lbl (LogName t p) = (if t = lbl then [p] else [])"
| "entry_name lbl _ = []"

definition names_logged :: "string \<Rightarrow> log_entry list \<Rightarrow> string list" where
  "names_logged lbl c = concat (map (entry_name lbl) c)"

definition quiet :: "('d, 'a) act \<Rightarrow> bool" where
  "quiet m = (\<forall>s s' r lbl. m s = (s', r) \<longrightarrow>
      names_logged lbl (console s') = names_logged lbl (console s))"

text \<open>The number of files a tally line accounts for.\<close>

fun tally_total :: "log_entry \<Rightarrow> nat option" where
  "tally_total (LogTally a b) = Some (a + b)"
| "tally_total _ = None"

text \<open>An action that always returns a value.\<close>

definition succeeds :: "('d, 'a) act \<Rightarrow> bool" where
  "succeeds m = (\<forall>s. \<exists>s' a. m s = (s', Inr a))"

section \<open>Concrete runs\<close>

text \<open>
  Fault plans: no call fails; exactly call number \<open>k\<close> fails. A state with no open
  transaction, no call made yet and an empty console, over given tables.
\<close>

definition no_faults :: faults where
  "no_faults = (\<lambda>n. False)"

definition fault_at :: "nat \<Rightarrow> faults" where
  "fault_at k = (\<lambda>n. n = k)"

definition fresh :: "'d \<Rightarrow> 'd sys" where
  "fresh d = \<lparr> committed = d, working = None, calls = 0, seq = 20, stmts = 0, console = [] \<rparr>"

text \<open>\<open>cols.join('\t')\<close>\<close>

definition tabbed :: "string list \<Rightarrow> string" where
  "tabbed cols = join_with (CHR 0x09) cols"

text \<open>
  A GFF database that already holds \<open>a.gff\<close> as file 7, with one feature and one
  sequence region, next to a feature of another file; and a new version of \<open>a.gff\<close>.
\<close>

definition gff_old_db :: gff_db where
  "gff_old_db =
     \<lparr> gff_files =
         [\<lparr> file_id = 7, filename = ''a.gff'', original_path = ''old/a.gff'', file_size = 5,
             version = None, genome_build = None, genome_build_accession = None,
             annotation_date = None, annotation_source = None \<rparr>],
       gff_features =
         [featureRow 7 [''chr9'', ''s'', ''gene'', ''5'', ''6'', ''.'', ''+'', ''.'', ''ID=old''],
          featureRow 8 [''chr2'', ''s'', ''gene'', ''1'', ''2'', ''.'', ''+'', ''.'', ''ID=other'']],
       sequence_regions =
         [\<lparr> region_id = 3, r_file_id = 7, r_seqid = ''chr9'', r_start = Some 1, r_end = Some 50,
             species_url = None \<rparr>] \<rparr>"

definition gff_line9 :: string where
  "gff_line9 = tabbed [''chr1'', ''src'', ''gene'', ''x'', ''0'', ''.'', ''.'', ''.'', ''ID=g1'']"

definition gff_line8 :: string where
  "gff_line8 = tabbed [''chr1'', ''src'', ''gene'', ''1'', ''2'', ''.'', ''+'', ''0'']"

definition gff_example :: gff_input where
  "gff_example =
     \<lparr> in_name = ''a.gff'', in_path = ''data/a.gff'', in_size = Some 64,
       in_lines = [''##gff-version 3'', ''##sequence-region chr1 1 1000'', gff_line9, gff_line8] \<rparr>"

text \<open>
  A TSV file of three lines: a header line, a line of eight columns with an empty locus
  tag, and a line of two columns.
\<close>

definition tsv_line8 :: string where
  "tsv_line8 = tabbed [''contig_1'', ''cds'', ''1'', ''99'', ''+'', [], ''dnaA'', ''initiator'']"

definition tsv_line2 :: string where
  "tsv_line2 = tabbed [''short'', ''line'']"

definition tsv_text :: string where
  "tsv_text = join_with (CHR 0x0A) [''# Software: bakta'', tsv_line8, tsv_line2]"

definition tsv_example :: tsv_input where
  "tsv_example = \<lparr> t_name = ''a.tsv'', t_path = ''data/a.tsv'', t_content = Some tsv_text \<rparr>"

definition tsv_empty :: tsv_db where
  "tsv_empty = \<lparr> has_schema = True, genomes = [], annotations = [] \<rparr>"

text \<open>A SQLite database file that has just been created: no table yet.\<close>

definition tsv_noschema :: tsv_db where
  "tsv_noschema = \<lparr> has_schema = False, genomes = [], annotations = [] \<rparr>"

text \<open>The state after the PostgreSQL importer has imported the file once, and twice.\<close>

definition tsv_once :: "tsv_db sys" where
  "tsv_once = fst (pg_processTsvFile no_faults tsv_example (fresh tsv_empty))"

definition tsv_twice :: "tsv_db sys" where
  "tsv_twice = fst (pg_processTsvFile no_faults tsv_example tsv_once)"

text \<open>
  The lines the specification counts: no \<open>#\<close> at the start, not blank, at least eight
  tab-separated columns.
\<close>

definition counted_line :: "string \<Rightarrow> bool" where
  "counted_line line =
     (\<not> startsWith line ''#'' \<and> trim line \<noteq> [] \<and> 8 \<le> length (split_on CHR 0x09 line))"

text \<open>The state after the GFF importer has imported the new version of \<open>a.gff\<close>.\<close>

definition gff_after :: "gff_db sys" where
  "gff_after = fst (processGffFile no_faults gff_example (fresh gff_old_db))"

text \<open>A TSV file whose data lines all have eight columns.\<close>

definition tsv_clean_text :: string where
  "tsv_clean_text = join_with (CHR 0x0A) [''# Software: bakta'', tsv_line8]"

definition tsv_clean :: tsv_input where
  "tsv_clean = \<lparr> t_name = ''b.tsv'', t_path = ''data/b.tsv'', t_content = Some tsv_clean_text \<rparr>"

text \<open>
  A JSON file with one feature that has one cross-reference; a JSON file that holds
  \<open>null\<close>; a JSON file that holds an object without \<open>features\<close>.
\<close>

definition json_example :: json_input where
  "json_example =
     \<lparr> j_path = ''data/a.json'', j_name = ''a.json'',
       j_parsed = Some (JObj [(''features'',
         JArr [JObj [(''id'', JStr ''f1''), (''type'', JStr ''cds''),
                     (''db_xrefs'', JArr [JStr ''x1''])]])]) \<rparr>"

definition json_null :: json_input where
  "json_null = \<lparr> j_path = ''data/n.json'', j_name = ''n.json'', j_parsed = Some JNull \<rparr>"

definition json_plain :: json_input where
  "json_plain =
     \<lparr> j_path = ''data/p.json'', j_name = ''p.json'',
       j_parsed = Some (JObj [(''genome'', JStr ''g'')]) \<rparr>"





definition notes_only :: "'i \<Rightarrow> 'i folder" where
  "notes_only i = \<lparr> listing = Some [''notes.txt''], entry = (\<lambda>name. i) \<rparr>"

section \<open>Properties of the string functions\<close>

lemma split_on_not_Nil: "split_on c s \<noteq> []"
  by (induction s) (auto split: list.splits)

lemma split_on_no_sep: "c \<notin> set s \<Longrightarrow> split_on c s = [s]"
  by (induction s) auto

lemma split_on_append: "c \<notin> set k \<Longrightarrow> split_on c (k @ c # r) = k # split_on c r"
  by (induction k) auto

lemma split_on_join:
  "ts \<noteq> [] \<Longrightarrow> \<forall>t\<in>set ts. c \<notin> set t \<Longrightarrow> split_on c (join_with c ts) = ts"
  by (induction c ts rule: join_with.induct) (auto simp: split_on_no_sep split_on_append)

lemma str_includes_char: "str_includes s [c] = (c \<in> set s)"
  by (induction s) (auto simp: startsWith_def)

section \<open>The attribute-string parser\<close>

lemma parsePair_dropped:
  assumes "CHR ''='' \<notin> set t" "length (split_on CHR '':'' t) \<noteq> 2"
  shows "parsePair obj t = obj"
  using assms by (auto simp add: parsePair_def str_includes_char split: list.splits)

lemma parsePair_colon:
  assumes "CHR ''='' \<notin> set k" "CHR ''='' \<notin> set v" "CHR '':'' \<notin> set k" "CHR '':'' \<notin> set v"
  shows "parsePair obj (k @ '':'' @ v) = obj_set obj (trim k) (trim v)"
  using assms by (simp add: parsePair_def str_includes_char split_on_append split_on_no_sep)

lemma parseAttributes_join:
  assumes "toks \<noteq> []" "\<forall>t\<in>set toks. CHR '';'' \<notin> set t"
  shows "parseAttributes (join_with CHR '';'' toks) = foldl parsePair Map.empty toks"
proof (cases "join_with CHR '';'' toks = []")
  case True
  have "toks = [Nil]"
  proof (cases toks)
    case Nil
    with assms show ?thesis by simp
  next
    case (Cons t ts)
    with True show ?thesis by (cases ts) auto
  qed
  then show ?thesis by (simp add: parseAttributes_def parsePair_def)
next
  case False
  with assms show ?thesis by (simp add: parseAttributes_def split_on_join)
qed

lemmas attr_eval =
  parseAttributes_def parsePair_def obj_set_def trim_def is_ws_def startsWith_def

lemma parsePair_split:
  assumes "CHR ''='' \<notin> set k"
  shows "parsePair obj (k @ CHR ''='' # rest) =
     (case split_on CHR ''='' rest of
        w # _ \<Rightarrow> if k \<noteq> [] \<and> w \<noteq> [] then obj_set obj (trim k) (trim w) else obj
      | [] \<Rightarrow> obj)"
  using assms by (simp add: parsePair_def str_includes_char split_on_append split: list.splits)

lemma parsePair_first_value:
  assumes "CHR ''='' \<notin> set k" "CHR ''='' \<notin> set v"
  shows "parsePair obj (k @ ''='' @ v) =
       (if k \<noteq> [] \<and> v \<noteq> [] then obj_set obj (trim k) (trim v) else obj)"
    and "parsePair obj (k @ ''='' @ v @ ''='' @ r) =
       (if k \<noteq> [] \<and> v \<noteq> [] then obj_set obj (trim k) (trim v) else obj)"
  using assms parsePair_split [of k obj v] parsePair_split [of k obj "v @ CHR ''='' # r"]
  by (simp_all add: split_on_no_sep split_on_append)

lemma parsePair_stored:
  assumes "k \<noteq> []" "v \<noteq> []" "CHR ''='' \<notin> set k" "CHR ''='' \<notin> set v" "trim k \<noteq> ''__proto__''"
  shows "parsePair obj (k @ ''='' @ v) = obj(trim k \<mapsto> trim v)"
  using assms parsePair_first_value(1) [of k v obj] by (simp add: obj_set_def)

lemma parsePair_not_stored:
  assumes "CHR ''='' \<notin> set k" "k = [] \<or> v = [] \<or> trim k = ''__proto__''"
  shows "parsePair obj (k @ ''='' @ v) = obj"
proof (cases "split_on CHR ''='' v")
  case Nil
  then show ?thesis by (simp add: split_on_not_Nil)
next
  case (Cons w ws)
  have "v = [] \<Longrightarrow> w = []" using Cons by simp
  with assms Cons parsePair_split [of k obj v] show ?thesis
    by (auto simp: obj_set_def)
qed

lemma parsePair_colon_stored:
  assumes "CHR ''='' \<notin> set k" "CHR ''='' \<notin> set v" "CHR '':'' \<notin> set k" "CHR '':'' \<notin> set v"
  shows "parsePair obj (k @ '':'' @ v) = (if trim k = ''__proto__'' then obj else obj(trim k \<mapsto> trim v))"
  using parsePair_colon [OF assms, of obj] by (simp add: obj_set_def)

lemma foldl_parsePair_plain:
  assumes "\<forall>kv\<in>set kvs. plain_pair kv"
  shows "foldl parsePair m (map pair_text kvs) = m ++ map_of (rev (map trimmed kvs))"
  using assms
proof (induction kvs arbitrary: m)
  case Nil
  then show ?case by simp
next
  case (Cons kv kvs)
  define a b where "a = trim (fst kv)" and "b = trim (snd kv)"
  from Cons.prems have p: "plain_pair kv" by simp
  then have "parsePair m (fst kv @ ''='' @ snd kv) = m(trim (fst kv) \<mapsto> trim (snd kv))"
    by (intro parsePair_stored) (simp_all add: plain_pair_def)
  then have s: "parsePair m (pair_text kv) = m(a \<mapsto> b)"
    by (simp add: pair_text_def a_def b_def)
  from Cons.prems have "\<forall>kv\<in>set kvs. plain_pair kv" by simp
  from Cons.IH [OF this, of "m(a \<mapsto> b)"]
  have ih: "foldl parsePair (m(a \<mapsto> b)) (map pair_text kvs) =
      m(a \<mapsto> b) ++ map_of (rev (map trimmed kvs))" .
  have t: "trimmed kv = (a, b)" by (simp add: trimmed_def a_def b_def)
  have "m ++ map_of (rev (map trimmed (kv # kvs))) =
      m ++ (map_of [(a, b)] ++ map_of (rev (map trimmed kvs)))"
    by (simp only: list.map rev.simps map_of_append t)
  also have "\<dots> = (m ++ map_of [(a, b)]) ++ map_of (rev (map trimmed kvs))"
    by (simp only: map_add_assoc)
  also have "m ++ map_of [(a, b)] = m(a \<mapsto> b)" by simp
  finally have "m ++ map_of (rev (map trimmed (kv # kvs))) =
      m(a \<mapsto> b) ++ map_of (rev (map trimmed kvs))" .
  with ih s show ?case by (simp only: list.map foldl_Cons)
qed

lemma parseAttributes_plain:
  assumes "kvs \<noteq> []" "\<forall>kv\<in>set kvs. plain_pair kv"
  shows "parseAttributes (join_with CHR '';'' (map pair_text kvs)) = map_of (rev (map trimmed kvs))"
proof -
  have "\<forall>t\<in>set (map pair_text kvs). CHR '';'' \<notin> set t"
    using assms(2) by (auto simp: pair_text_def plain_pair_def)
  with assms(1) have "parseAttributes (join_with CHR '';'' (map pair_text kvs)) =
      foldl parsePair Map.empty (map pair_text kvs)"
    by (intro parseAttributes_join) simp_all
  with foldl_parsePair_plain [OF assms(2), of Map.empty] show ?thesis by simp
qed

lemma parseAttributes_single:
  assumes "t \<noteq> []" "CHR '';'' \<notin> set t"
  shows "parseAttributes t = parsePair Map.empty t"
  using assms by (simp add: parseAttributes_def split_on_no_sep)

text \<open>
  Claim C4, as amended. The attribute parser runs the loop body \<open>parsePair\<close> over the
  tokens of a \<open>;\<close>-separated input, from the empty object. A token \<open>key=value\<close> whose key
  and value are non-empty stores the trimmed value under the trimmed key, unless the
  trimmed key is \<open>__proto__\<close>; with an empty key, an empty value or the key \<open>__proto__\<close>
  it leaves the object as it is. A token without \<open>=\<close> that does not split on \<open>:\<close> into
  exactly two tokens leaves the object as it is; a token \<open>key:value\<close> without \<open>=\<close>
  stores the trimmed value under the trimmed key, again unless that key is \<open>__proto__\<close>.
  An input made only of pairs that store something parses to the map of the trimmed
  pairs, a later pair of a key replacing an earlier one. \<open>ID=gene1;Name=test\<close> gives
  \<open>{ID: gene1, Name: test}\<close>, \<open>justakey\<close> gives the empty object and \<open>Name:test\<close> gives
  \<open>{Name: test}\<close>.
\<close>

theorem parseAttributes_pairs:
  "(\<forall>toks. toks \<noteq> [] \<and> (\<forall>t\<in>set toks. CHR '';'' \<notin> set t) \<longrightarrow>
      parseAttributes (join_with CHR '';'' toks) = foldl parsePair Map.empty toks)
   \<and> (\<forall>obj k v. k \<noteq> [] \<and> v \<noteq> [] \<and> CHR ''='' \<notin> set k \<and> CHR ''='' \<notin> set v
        \<and> trim k \<noteq> ''__proto__'' \<longrightarrow>
      parsePair obj (k @ ''='' @ v) = obj(trim k \<mapsto> trim v))
   \<and> (\<forall>obj k v. CHR ''='' \<notin> set k \<and> (k = [] \<or> v = [] \<or> trim k = ''__proto__'') \<longrightarrow>
      parsePair obj (k @ ''='' @ v) = obj)
   \<and> (\<forall>obj t. CHR ''='' \<notin> set t \<and> length (split_on CHR '':'' t) \<noteq> 2 \<longrightarrow>
      parsePair obj t = obj)
   \<and> (\<forall>obj k v. CHR ''='' \<notin> set k \<and> CHR ''='' \<notin> set v \<and> CHR '':'' \<notin> set k \<and> CHR '':'' \<notin> set v
        \<and> trim k \<noteq> ''__proto__'' \<longrightarrow>
      parsePair obj (k @ '':'' @ v) = obj(trim k \<mapsto> trim v))
   \<and> (\<forall>obj k v. CHR ''='' \<notin> set k \<and> CHR ''='' \<notin> set v \<and> CHR '':'' \<notin> set k \<and> CHR '':'' \<notin> set v
        \<and> trim k = ''__proto__'' \<longrightarrow>
      parsePair obj (k @ '':'' @ v) = obj)
   \<and> (\<forall>kvs. kvs \<noteq> [] \<and> (\<forall>kv\<in>set kvs. plain_pair kv) \<longrightarrow>
      parseAttributes (join_with CHR '';'' (map pair_text kvs)) = map_of (rev (map trimmed kvs)))
   \<and> parseAttributes ''ID=gene1;Name=test'' = [''ID'' \<mapsto> ''gene1'', ''Name'' \<mapsto> ''test'']
   \<and> parseAttributes ''justakey'' = Map.empty
   \<and> parseAttributes ''Name:test'' = [''Name'' \<mapsto> ''test'']"
proof -
  have a: "\<forall>toks. toks \<noteq> [] \<and> (\<forall>t\<in>set toks. CHR '';'' \<notin> set t) \<longrightarrow>
      parseAttributes (join_with CHR '';'' toks) = foldl parsePair Map.empty toks"
    by (simp add: parseAttributes_join)
  have b: "\<forall>obj k v. k \<noteq> [] \<and> v \<noteq> [] \<and> CHR ''='' \<notin> set k \<and> CHR ''='' \<notin> set v
        \<and> trim k \<noteq> ''__proto__'' \<longrightarrow>
      parsePair obj (k @ ''='' @ v) = obj(trim k \<mapsto> trim v)"
    using parsePair_stored by blast
  have c: "\<forall>obj k v. CHR ''='' \<notin> set k \<and> (k = [] \<or> v = [] \<or> trim k = ''__proto__'') \<longrightarrow>
      parsePair obj (k @ ''='' @ v) = obj"
    using parsePair_not_stored by blast
  have d: "\<forall>obj t. CHR ''='' \<notin> set t \<and> length (split_on CHR '':'' t) \<noteq> 2 \<longrightarrow>
      parsePair obj t = obj"
    by (simp add: parsePair_dropped)
  have e: "\<forall>obj k v. CHR ''='' \<notin> set k \<and> CHR ''='' \<notin> set v \<and> CHR '':'' \<notin> set k \<and> CHR '':'' \<notin> set v
        \<and> trim k \<noteq> ''__proto__'' \<longrightarrow>
      parsePair obj (k @ '':'' @ v) = obj(trim k \<mapsto> trim v)"
    using parsePair_colon_stored by simp
  have f: "\<forall>obj k v. CHR ''='' \<notin> set k \<and> CHR ''='' \<notin> set v \<and> CHR '':'' \<notin> set k \<and> CHR '':'' \<notin> set v
        \<and> trim k = ''__proto__'' \<longrightarrow>
      parsePair obj (k @ '':'' @ v) = obj"
    using parsePair_colon_stored by simp
  have g: "\<forall>kvs. kvs \<noteq> [] \<and> (\<forall>kv\<in>set kvs. plain_pair kv) \<longrightarrow>
      parseAttributes (join_with CHR '';'' (map pair_text kvs)) = map_of (rev (map trimmed kvs))"
    using parseAttributes_plain by blast
  have h: "parseAttributes ''ID=gene1;Name=test'' = [''ID'' \<mapsto> ''gene1'', ''Name'' \<mapsto> ''test'']"
    by (simp add: attr_eval)
  have i: "parseAttributes ''justakey'' = Map.empty"
    by (simp add: attr_eval)
  have j: "parseAttributes ''Name:test'' = [''Name'' \<mapsto> ''test'']"
    by (simp add: attr_eval)
  from a b c d e f g h i j show ?thesis by (intro conjI)
qed

lemma plain_examples:
  "plain_pair ('' ID '', ''gene1'')" "plain_pair (''Name'', '' test'')" "plain_pair (''ID'', ''g2'')"
  by (simp_all add: plain_pair_def trim_def is_ws_def)

lemma trimmed_examples:
  "trim '' ID '' = ''ID''" "trim ''gene1'' = ''gene1''" "trim ''Name'' = ''Name''"
  "trim '' test'' = ''test''" "trim ''ID'' = ''ID''" "trim ''g2'' = ''g2''"
  "trim '' __proto__'' = ''__proto__''" "trim ''x'' = ''x''"
  by (simp_all add: trim_def is_ws_def)

theorem parseAttributes_pairs_witness:
  "parseAttributes (join_with CHR '';'' [''ID=gene1'', ''justakey'', ''Name:test'']) =
     [''ID'' \<mapsto> ''gene1'', ''Name'' \<mapsto> ''test'']
   \<and> parsePair Map.empty ('' ID '' @ ''='' @ ''gene1'') = [''ID'' \<mapsto> ''gene1'']
   \<and> parsePair [''ID'' \<mapsto> ''gene1''] ('' __proto__'' @ ''='' @ ''x'') = [''ID'' \<mapsto> ''gene1'']
   \<and> parsePair [''ID'' \<mapsto> ''gene1''] (''Name'' @ ''='' @ '''') = [''ID'' \<mapsto> ''gene1'']
   \<and> parsePair [''ID'' \<mapsto> ''gene1''] ''justakey'' = [''ID'' \<mapsto> ''gene1'']
   \<and> parsePair [''ID'' \<mapsto> ''gene1''] (''Name'' @ '':'' @ '' test'') =
       [''ID'' \<mapsto> ''gene1'', ''Name'' \<mapsto> ''test'']
   \<and> parsePair [''ID'' \<mapsto> ''gene1''] ('' __proto__'' @ '':'' @ ''x'') = [''ID'' \<mapsto> ''gene1'']
   \<and> parseAttributes (join_with CHR '';''
        (map pair_text [('' ID '', ''gene1''), (''Name'', '' test''), (''ID'', ''g2'')])) =
       [''Name'' \<mapsto> ''test'', ''ID'' \<mapsto> ''g2'']"
proof -
  note T = parseAttributes_pairs
  have a: "parseAttributes (join_with CHR '';'' [''ID=gene1'', ''justakey'', ''Name:test'']) =
      foldl parsePair Map.empty [''ID=gene1'', ''justakey'', ''Name:test'']"
    by (rule T [THEN conjunct1, rule_format]) simp
  have a': "foldl parsePair Map.empty [''ID=gene1'', ''justakey'', ''Name:test''] =
      [''ID'' \<mapsto> ''gene1'', ''Name'' \<mapsto> ''test'']"
    by (simp add: attr_eval)
  have b: "parsePair Map.empty ('' ID '' @ ''='' @ ''gene1'') =
      Map.empty(trim '' ID '' \<mapsto> trim ''gene1'')"
    by (rule T [THEN conjunct2, THEN conjunct1, rule_format]) (simp add: trimmed_examples)
  have c: "parsePair [''ID'' \<mapsto> ''gene1''] ('' __proto__'' @ ''='' @ ''x'') = [''ID'' \<mapsto> ''gene1'']"
    by (rule T [THEN conjunct2, THEN conjunct2, THEN conjunct1, rule_format])
       (simp add: trimmed_examples)
  have c': "parsePair [''ID'' \<mapsto> ''gene1''] (''Name'' @ ''='' @ '''') = [''ID'' \<mapsto> ''gene1'']"
    by (rule T [THEN conjunct2, THEN conjunct2, THEN conjunct1, rule_format]) simp
  have d: "parsePair [''ID'' \<mapsto> ''gene1''] ''justakey'' = [''ID'' \<mapsto> ''gene1'']"
    by (rule T [THEN conjunct2, THEN conjunct2, THEN conjunct2, THEN conjunct1, rule_format]) simp
  have e: "parsePair [''ID'' \<mapsto> ''gene1''] (''Name'' @ '':'' @ '' test'') =
      [''ID'' \<mapsto> ''gene1''](trim ''Name'' \<mapsto> trim '' test'')"
    by (rule T [THEN conjunct2, THEN conjunct2, THEN conjunct2, THEN conjunct2, THEN conjunct1,
          rule_format]) (simp add: trimmed_examples)
  have f: "parsePair [''ID'' \<mapsto> ''gene1''] ('' __proto__'' @ '':'' @ ''x'') = [''ID'' \<mapsto> ''gene1'']"
    by (rule T [THEN conjunct2, THEN conjunct2, THEN conjunct2, THEN conjunct2, THEN conjunct2,
          THEN conjunct1, rule_format]) (simp add: trimmed_examples)
  have g: "parseAttributes (join_with CHR '';''
        (map pair_text [('' ID '', ''gene1''), (''Name'', '' test''), (''ID'', ''g2'')])) =
      map_of (rev (map trimmed [('' ID '', ''gene1''), (''Name'', '' test''), (''ID'', ''g2'')]))"
    by (rule T [THEN conjunct2, THEN conjunct2, THEN conjunct2, THEN conjunct2, THEN conjunct2,
          THEN conjunct2, THEN conjunct1, rule_format]) (simp add: plain_examples)
  have g': "map_of (rev (map trimmed [('' ID '', ''gene1''), (''Name'', '' test''), (''ID'', ''g2'')])) =
      [''Name'' \<mapsto> ''test'', ''ID'' \<mapsto> ''g2'']"
    by (simp add: trimmed_def trimmed_examples fun_upd_twist)
  from a a' b c c' d e f g g' show ?thesis
    by (simp only: trimmed_examples)
qed

text \<open>
  The pair \<open>__proto__=x\<close> stores nothing, and the pair \<open> ID = g \<close> is stored under \<open>ID\<close>
  with the value \<open>g\<close>, not under the key and with the value as they are written.
\<close>

theorem proto_key_not_stored:
  "parseAttributes ''__proto__=x'' = Map.empty
   \<and> parseAttributes ''ID=g;__proto__=x'' = [''ID'' \<mapsto> ''g'']
   \<and> parseAttributes '' ID = g '' '' ID '' = None
   \<and> parseAttributes '' ID = g '' = [''ID'' \<mapsto> ''g'']"
  by (simp add: attr_eval)

text \<open>
  Claim C8, as amended. When the text after the first \<open>=\<close> of a pair holds a further
  \<open>=\<close>, the destructuring \<open>[key, value] = pair.split('=')\<close> takes the text between the
  first and the second \<open>=\<close> as the value and ignores what follows the second: the pair
  does what \<open>key=value\<close> alone does. So when the key and that text are non-empty and the
  trimmed key is not \<open>__proto__\<close>, the trimmed text is stored under the trimmed key, and
  otherwise nothing is stored. \<open>note=a=b\<close> gives \<open>{note: a}\<close>.
\<close>

theorem parsePair_second_equals:
  "(\<forall>obj k v r. CHR ''='' \<notin> set k \<and> CHR ''='' \<notin> set v \<longrightarrow>
      parsePair obj (k @ ''='' @ v @ ''='' @ r) = parsePair obj (k @ ''='' @ v))
   \<and> (\<forall>k v r. CHR ''='' \<notin> set k \<and> CHR ''='' \<notin> set v \<and> CHR '';'' \<notin> set (k @ v @ r) \<longrightarrow>
      parseAttributes (k @ ''='' @ v @ ''='' @ r) = parseAttributes (k @ ''='' @ v))
   \<and> (\<forall>obj k v r. k \<noteq> [] \<and> v \<noteq> [] \<and> CHR ''='' \<notin> set k \<and> CHR ''='' \<notin> set v
        \<and> trim k \<noteq> ''__proto__'' \<longrightarrow>
      parsePair obj (k @ ''='' @ v @ ''='' @ r) = obj(trim k \<mapsto> trim v))
   \<and> (\<forall>obj k v r. CHR ''='' \<notin> set k \<and> CHR ''='' \<notin> set v
        \<and> (k = [] \<or> v = [] \<or> trim k = ''__proto__'') \<longrightarrow>
      parsePair obj (k @ ''='' @ v @ ''='' @ r) = obj)
   \<and> parseAttributes ''note=a=b'' = [''note'' \<mapsto> ''a'']"
proof -
  have a: "\<forall>obj k v r. CHR ''='' \<notin> set k \<and> CHR ''='' \<notin> set v \<longrightarrow>
      parsePair obj (k @ ''='' @ v @ ''='' @ r) = parsePair obj (k @ ''='' @ v)"
    using parsePair_first_value by simp
  have b: "\<forall>k v r. CHR ''='' \<notin> set k \<and> CHR ''='' \<notin> set v \<and> CHR '';'' \<notin> set (k @ v @ r) \<longrightarrow>
      parseAttributes (k @ ''='' @ v @ ''='' @ r) = parseAttributes (k @ ''='' @ v)"
  proof (intro allI impI)
    fix k v r :: string
    assume h: "CHR ''='' \<notin> set k \<and> CHR ''='' \<notin> set v \<and> CHR '';'' \<notin> set (k @ v @ r)"
    then have "parseAttributes (k @ ''='' @ v @ ''='' @ r) =
        parsePair Map.empty (k @ ''='' @ v @ ''='' @ r)"
      by (intro parseAttributes_single) simp_all
    moreover from h have "parseAttributes (k @ ''='' @ v) = parsePair Map.empty (k @ ''='' @ v)"
      by (intro parseAttributes_single) simp_all
    ultimately show "parseAttributes (k @ ''='' @ v @ ''='' @ r) = parseAttributes (k @ ''='' @ v)"
      using a h by simp
  qed
  have c: "\<forall>obj k v r. k \<noteq> [] \<and> v \<noteq> [] \<and> CHR ''='' \<notin> set k \<and> CHR ''='' \<notin> set v
        \<and> trim k \<noteq> ''__proto__'' \<longrightarrow>
      parsePair obj (k @ ''='' @ v @ ''='' @ r) = obj(trim k \<mapsto> trim v)"
    using parsePair_first_value(2) by (simp add: obj_set_def)
  have d: "\<forall>obj k v r. CHR ''='' \<notin> set k \<and> CHR ''='' \<notin> set v
        \<and> (k = [] \<or> v = [] \<or> trim k = ''__proto__'') \<longrightarrow>
      parsePair obj (k @ ''='' @ v @ ''='' @ r) = obj"
    using parsePair_first_value(2) by (auto simp: obj_set_def)
  have e: "parseAttributes ''note=a=b'' = [''note'' \<mapsto> ''a'']"
    by (simp add: attr_eval)
  from a b c d e show ?thesis by (intro conjI)
qed

theorem parsePair_second_equals_witness:
  "parsePair Map.empty (''note'' @ ''='' @ '' a '' @ ''='' @ ''b=c'') = [''note'' \<mapsto> ''a'']
   \<and> parsePair Map.empty (''note'' @ ''='' @ '' a '' @ ''='' @ ''b=c'') =
       parsePair Map.empty (''note'' @ ''='' @ '' a '')
   \<and> parseAttributes (''note'' @ ''='' @ ''a'' @ ''='' @ ''b'') = parseAttributes (''note'' @ ''='' @ ''a'')
   \<and> parsePair [''ID'' \<mapsto> ''g''] (''note'' @ ''='' @ '''' @ ''='' @ ''b'') = [''ID'' \<mapsto> ''g'']"
proof -
  note T = parsePair_second_equals
  have a: "parsePair Map.empty (''note'' @ ''='' @ '' a '' @ ''='' @ ''b=c'') =
       parsePair Map.empty (''note'' @ ''='' @ '' a '')"
    by (rule T [THEN conjunct1, rule_format]) simp
  have b: "parseAttributes (''note'' @ ''='' @ ''a'' @ ''='' @ ''b'') =
      parseAttributes (''note'' @ ''='' @ ''a'')"
    by (rule T [THEN conjunct2, THEN conjunct1, rule_format]) simp
  have c: "parsePair Map.empty (''note'' @ ''='' @ '' a '' @ ''='' @ ''b=c'') =
      Map.empty(trim ''note'' \<mapsto> trim '' a '')"
    by (rule T [THEN conjunct2, THEN conjunct2, THEN conjunct1, rule_format])
       (simp add: trim_def is_ws_def)
  have c': "trim ''note'' = ''note''" "trim '' a '' = ''a''"
    by (simp_all add: trim_def is_ws_def)
  have d: "parsePair [''ID'' \<mapsto> ''g''] (''note'' @ ''='' @ '''' @ ''='' @ ''b'') = [''ID'' \<mapsto> ''g'']"
    by (rule T [THEN conjunct2, THEN conjunct2, THEN conjunct2, THEN conjunct1, rule_format]) simp
  from a b c c' d show ?thesis by (simp only:)
qed

text \<open>
  With nothing between the first and the second \<open>=\<close> the pair stores nothing, the text
  between them is stored trimmed, and under the key \<open>__proto__\<close> nothing is stored.
\<close>

theorem second_equals_value_not_kept:
  "parseAttributes ''note==b'' = Map.empty
   \<and> parseAttributes ''note= a =b'' = [''note'' \<mapsto> ''a'']
   \<and> parseAttributes ''__proto__=a=b'' = Map.empty"
  by (simp add: attr_eval)

section \<open>Sequencing, statements, transactions\<close>

lemma bnd_Inr:
  assumes "bnd m f s = (s', Inr b)"
  obtains s1 a where "m s = (s1, Inr a)" "f a s1 = (s', Inr b)"
  using assms by (auto simp: bnd_def split: prod.splits sum.splits)

lemma bnd_Inl:
  assumes "bnd m f s = (s', Inl e)"
  obtains "m s = (s', Inl e)" | s1 a where "m s = (s1, Inr a)" "f a s1 = (s', Inl e)"
  using assms by (auto simp: bnd_def split: prod.splits sum.splits)

lemma ret_Inr: "ret a s = (s', Inr b) \<Longrightarrow> s' = s \<and> b = a"
  by (simp add: ret_def)

lemma exec_Inr:
  assumes "exec flt q s = (s', Inr r)" "working s = Some w"
  shows "working s' = Some (fst (q w)) \<and> r = snd (q w) \<and> committed s' = committed s
    \<and> console s' = console s \<and> seq s' = seq s"
  using assms by (auto simp: exec_def tick_def split: if_splits prod.splits)

lemma exec_ins_Inr:
  assumes "exec_ins flt q s = (s', Inr r)" "working s = Some w"
  shows "working s' = Some (q (seq s) w) \<and> r = seq s \<and> committed s' = committed s
    \<and> console s' = console s"
  using assms by (auto simp: exec_ins_def exec_def tick_def split: if_splits prod.splits sum.splits)

lemma say_eq: "say e s = (s', r) \<Longrightarrow> s' = s\<lparr>console := console s @ [e]\<rparr> \<and> r = Inr ()"
  by (auto simp: say_def)

subsection \<open>Actions that respect an open transaction\<close>


lemma keeps_txD:
  "keeps_tx m \<Longrightarrow> m s = (s', r) \<Longrightarrow> working s \<noteq> None \<Longrightarrow>
     committed s' = committed s \<and> working s' \<noteq> None"
  unfolding keeps_tx_def by blast

lemma keeps_tx_ret [intro!, simp]: "keeps_tx (ret a)"
  by (simp add: keeps_tx_def ret_def)

lemma keeps_tx_throw [intro!, simp]: "keeps_tx (throw e)"
  by (simp add: keeps_tx_def throw_def)

lemma keeps_tx_say [intro!, simp]: "keeps_tx (say e)"
  by (auto simp: keeps_tx_def say_def)

lemma keeps_tx_db_call [intro!, simp]: "keeps_tx (db_call flt)"
  by (auto simp: keeps_tx_def db_call_def tick_def split: if_splits)

lemma keeps_tx_prepare [intro!, simp]: "keeps_tx (prepare flt)"
  by (auto simp: keeps_tx_def prepare_def tick_def split: if_splits)

lemma keeps_tx_finalize [intro!, simp]: "keeps_tx (finalize flt)"
  by (auto simp: keeps_tx_def finalize_def tick_def split: if_splits)

lemma keeps_tx_exec [intro!, simp]: "keeps_tx (exec flt q)"
  by (auto simp: keeps_tx_def exec_def tick_def split: if_splits prod.splits option.splits)

lemma keeps_tx_exec_ins [intro!, simp]: "keeps_tx (exec_ins flt q)"
  by (auto simp: keeps_tx_def exec_ins_def exec_def tick_def split: if_splits prod.splits option.splits sum.splits)

lemma keeps_tx_bnd [intro!]:
  assumes "keeps_tx m" "\<And>a. keeps_tx (f a)"
  shows "keeps_tx (bnd m f)"
  unfolding keeps_tx_def
proof (intro allI impI)
  fix s s' r
  assume run: "bnd m f s = (s', r)" and w: "working s \<noteq> None"
  obtain s1 r1 where m: "m s = (s1, r1)" by (cases "m s")
  from keeps_txD [OF assms(1) m w] have k1: "committed s1 = committed s" "working s1 \<noteq> None"
    by simp_all
  show "committed s' = committed s \<and> working s' \<noteq> None"
  proof (cases r1)
    case (Inl e)
    with run m have "s' = s1" by (simp add: bnd_def)
    with k1 show ?thesis by simp
  next
    case (Inr a)
    with run m have "f a s1 = (s', r)" by (simp add: bnd_def)
    from keeps_txD [OF assms(2) this k1(2)] k1(1) show ?thesis by simp
  qed
qed

lemma keeps_tx_if [intro!]:
  "(c \<Longrightarrow> keeps_tx a) \<Longrightarrow> (\<not> c \<Longrightarrow> keeps_tx b) \<Longrightarrow> keeps_tx (if c then a else b)"
  by simp

lemma keeps_tx_insertFeatureBatch [intro!, simp]: "keeps_tx (insertFeatureBatch flt b)"
  by (simp add: insertFeatureBatch_def)

lemma keeps_tx_gff_header [intro!, simp]: "keeps_tx (gff_header flt fid line l)"
  unfolding gff_header_def Let_def
  by (auto split: option.splits)

lemma keeps_tx_gff_data [intro!, simp]: "keeps_tx (gff_data flt fid line l)"
  unfolding gff_data_def Let_def by auto

lemma keeps_tx_gff_line [intro!, simp]: "keeps_tx (gff_line flt fid line l)"
  unfolding gff_line_def Let_def by auto

lemma keeps_tx_gff_lines [intro!, simp]: "keeps_tx (gff_lines flt fid ls l)"
  by (induction ls arbitrary: l) auto

lemma keeps_tx_gff_file_record [intro!, simp]: "keeps_tx (gff_file_record flt inp sz)"
  unfolding gff_file_record_def by (auto split: list.splits)

lemma startsWith_iff: "startsWith s p \<longleftrightarrow> (\<exists>r. s = p @ r)"
  unfolding startsWith_def
  by (metis append_eq_conv_conj append_take_drop_id)

lemma region_prefix:
  assumes "startsWith line ''##sequence-region''"
  shows "startsWith line ''#''" "\<not> startsWith line ''##gff-version''"
    "\<not> startsWith line ''#!genome-build''" "\<not> startsWith line ''#!genome-build-accession''"
    "\<not> startsWith line ''#!annotation-date''" "\<not> startsWith line ''#!annotation-source''"
proof -
  from assms obtain r where "line = ''##sequence-region'' @ r"
    by (auto simp: startsWith_iff)
  then show "startsWith line ''#''" "\<not> startsWith line ''##gff-version''"
    "\<not> startsWith line ''#!genome-build''" "\<not> startsWith line ''#!genome-build-accession''"
    "\<not> startsWith line ''#!annotation-date''" "\<not> startsWith line ''#!annotation-source''"
    by (simp_all add: startsWith_def)
qed

section \<open>The GFF importer: the loop over the lines\<close>

lemma update_file_proj [simp]:
  "gff_features (fst (update_file fid g d)) = gff_features d"
  "sequence_regions (fst (update_file fid g d)) = sequence_regions d"
  by (simp_all add: update_file_def)

lemma update_file_ids:
  assumes "\<And>f. file_id (g f) = file_id f"
  shows "map file_id (gff_files (fst (update_file fid g d))) = map file_id (gff_files d)"
  using assms by (simp add: update_file_def o_def if_distrib cong: if_cong)

lemma update_file_names:
  assumes "\<And>f. filename (g f) = filename f"
  shows "map filename (gff_files (fst (update_file fid g d))) = map filename (gff_files d)"
  using assms by (simp add: update_file_def o_def if_distrib cong: if_cong)

lemma insert_region_proj [simp]:
  "gff_features (insert_region fid a b c i d) = gff_features d"
  "gff_files (insert_region fid a b c i d) = gff_files d"
  "region_view fid (insert_region fid a b c i d) = region_view fid d @ [(a, b, c)]"
  by (simp_all add: insert_region_def region_view_def)

lemma set_species_proj [simp]:
  "gff_features (fst (set_species fid u d)) = gff_features d"
  "gff_files (fst (set_species fid u d)) = gff_files d"
  by (simp_all add: set_species_def split: list.splits)

lemma filter_map_species:
  "filter (\<lambda>r. r_file_id r = fid) (map (\<lambda>r. if P r then r\<lparr>species_url := u\<rparr> else r) rs) =
   map (\<lambda>r. if P r then r\<lparr>species_url := u\<rparr> else r) (filter (\<lambda>r. r_file_id r = fid) rs)"
  by (induction rs) auto

lemma set_species_view [simp]: "region_view fid' (fst (set_species fid u d)) = region_view fid' d"
  by (simp add: set_species_def region_view_def filter_map_species o_def if_distrib cong: if_cong
      split: list.splits)

lemma region_view_update_file [simp]: "region_view fid' (fst (update_file fid g d)) = region_view fid' d"
  by (simp add: region_view_def)


lemma gff_header_ok:
  assumes "gff_header flt fid line l s = (s', Inr l')" "working s = Some w"
  shows "\<exists>w'. working s' = Some w' \<and> committed s' = committed s
     \<and> gff_features w' = gff_features w
     \<and> map file_id (gff_files w') = map file_id (gff_files w)
     \<and> map filename (gff_files w') = map filename (gff_files w)
     \<and> batchValues l' = batchValues l \<and> featureCount l' = featureCount l \<and> lineCount l' = lineCount l"
  using assms(1) unfolding gff_header_def Let_def
  by (auto simp: update_file_ids update_file_names assms(2) elim!: bnd_Inr
      dest!: ret_Inr exec_Inr [OF _ assms(2)] exec_ins_Inr [OF _ assms(2)]
      split: if_splits option.splits)

lemma gff_header_regions:
  assumes "gff_header flt fid line l s = (s', Inr l')" "working s = Some w" "startsWith line ''#''"
  shows "\<exists>w'. working s' = Some w'
     \<and> region_view fid w' = region_view fid w @
         (if startsWith line ''##sequence-region'' \<and> 4 \<le> length (split_on CHR '' '' line)
          then [region_of_line line] else [])"
proof (cases "startsWith line ''##sequence-region''")
  case True
  note p = region_prefix [OF True]
  from assms(1,3) p True show ?thesis unfolding gff_header_def Let_def
    by (auto simp: region_of_line_def Let_def assms(2) elim!: bnd_Inr
      dest!: ret_Inr exec_Inr [OF _ assms(2)] exec_ins_Inr [OF _ assms(2)]
      split: if_splits option.splits)
next
  case False
  with assms(1,3) show ?thesis unfolding gff_header_def Let_def
    by (auto elim!: bnd_Inr
      dest!: ret_Inr exec_Inr [OF _ assms(2)] exec_ins_Inr [OF _ assms(2)]
      simp: assms(2) split: if_splits option.splits)
qed



lemma gff_data_ok:
  assumes "gff_data flt fid line l s = (s', Inr l')" "working s = Some w"
  shows "\<exists>w'. working s' = Some w' \<and> committed s' = committed s
     \<and> gff_features w' @ batchValues l' = gff_features w @ batchValues l @
         (if 9 \<le> length (split_on CHR 0x09 line) then [featureRow fid (split_on CHR 0x09 line)] else [])
     \<and> featureCount l' = featureCount l +
         (if 9 \<le> length (split_on CHR 0x09 line) then 1 else 0)
     \<and> gff_files w' = gff_files w \<and> sequence_regions w' = sequence_regions w
     \<and> lineCount l' = lineCount l"
  using assms(1) unfolding gff_data_def Let_def insertFeatureBatch_def
  by (auto simp: assms(2) elim!: bnd_Inr
      dest!: ret_Inr exec_Inr [OF _ assms(2)] split: if_splits)

lemma gff_line_split:
  assumes "gff_line flt fid line l s = (s', Inr l')"
  shows "\<exists>s1. working s1 = working s \<and> committed s1 = committed s
     \<and> (if is_blank line then ret (l\<lparr>lineCount := Suc (lineCount l)\<rparr>)
         else if startsWith line ''#'' then gff_header flt fid line (l\<lparr>lineCount := Suc (lineCount l)\<rparr>)
         else gff_data flt fid line (l\<lparr>lineCount := Suc (lineCount l)\<rparr>)) s1 = (s', Inr l')"
proof -
  let ?l = "l\<lparr>lineCount := Suc (lineCount l)\<rparr>"
  from assms obtain s1 u where
    a: "(if lineCount ?l mod 100000 = 0 then say (LogCount ''Processed lines...'' (lineCount ?l))
         else ret ()) s = (s1, Inr u)"
    and rest: "(if is_blank line then ret ?l
                else if startsWith line ''#'' then gff_header flt fid line ?l
                else gff_data flt fid line ?l) s1 = (s', Inr l')"
    unfolding gff_line_def Let_def by (erule bnd_Inr)
  from a have "working s1 = working s \<and> committed s1 = committed s"
    by (auto simp: say_def ret_def split: if_splits)
  with rest show ?thesis by blast
qed

lemma gff_line_ok:
  assumes "gff_line flt fid line l s = (s', Inr l')" "working s = Some w"
  shows "\<exists>w'. working s' = Some w' \<and> committed s' = committed s
     \<and> gff_features w' @ batchValues l' = gff_features w @ batchValues l @
         (if gff_data_line line then [featureRow fid (split_on CHR 0x09 line)] else [])
     \<and> featureCount l' = featureCount l + (if gff_data_line line then 1 else 0)
     \<and> map file_id (gff_files w') = map file_id (gff_files w)
     \<and> map filename (gff_files w') = map filename (gff_files w)
     \<and> lineCount l' = Suc (lineCount l)"
proof -
  let ?l = "l\<lparr>lineCount := Suc (lineCount l)\<rparr>"
  from gff_line_split [OF assms(1)] assms(2)
  obtain s1 where s1: "working s1 = Some w" "committed s1 = committed s"
    and rest: "(if is_blank line then ret ?l
                else if startsWith line ''#'' then gff_header flt fid line ?l
                else gff_data flt fid line ?l) s1 = (s', Inr l')"
    by auto
  show ?thesis
  proof (cases "is_blank line")
    case True
    with rest s1 show ?thesis by (auto simp: ret_def gff_data_line_def)
  next
    case nb: False
    show ?thesis
    proof (cases "startsWith line ''#''")
      case True
      with nb rest have "gff_header flt fid line ?l s1 = (s', Inr l')" by simp
      from gff_header_ok [OF this s1(1)] True s1(2) show ?thesis
        by (auto simp: gff_data_line_def)
    next
      case False
      with nb rest have "gff_data flt fid line ?l s1 = (s', Inr l')" by simp
      from gff_data_ok [OF this s1(1)] False nb s1(2) show ?thesis
        by (auto simp: gff_data_line_def)
    qed
  qed
qed

lemma gff_line_regions:
  assumes "gff_line flt fid line l s = (s', Inr l')" "working s = Some w"
  shows "\<exists>w'. working s' = Some w'
     \<and> region_view fid w' = region_view fid w @ (if region_line line then [region_of_line line] else [])"
proof -
  let ?l = "l\<lparr>lineCount := Suc (lineCount l)\<rparr>"
  from gff_line_split [OF assms(1)] assms(2)
  obtain s1 where s1: "working s1 = Some w" "committed s1 = committed s"
    and rest: "(if is_blank line then ret ?l
                else if startsWith line ''#'' then gff_header flt fid line ?l
                else gff_data flt fid line ?l) s1 = (s', Inr l')"
    by auto
  show ?thesis
  proof (cases "is_blank line")
    case True
    with rest s1 show ?thesis by (auto simp: ret_def region_line_def)
  next
    case nb: False
    show ?thesis
    proof (cases "startsWith line ''#''")
      case True
      with nb rest have "gff_header flt fid line ?l s1 = (s', Inr l')" by simp
      from gff_header_regions [OF this s1(1) True] nb show ?thesis
        by (auto simp: region_line_def)
    next
      case False
      with nb rest have "gff_data flt fid line ?l s1 = (s', Inr l')" by simp
      from gff_data_ok [OF this s1(1)] False nb region_prefix(1) [of line] show ?thesis
        by (auto simp: region_line_def region_view_def)
    qed
  qed
qed

lemma gff_lines_ok:
  assumes "gff_lines flt fid ls l s = (s', Inr l')" "working s = Some w"
  shows "\<exists>w'. working s' = Some w' \<and> committed s' = committed s
     \<and> gff_features w' @ batchValues l' = gff_features w @ batchValues l @
         map (\<lambda>line. featureRow fid (split_on CHR 0x09 line)) (filter gff_data_line ls)
     \<and> featureCount l' = featureCount l + length (filter gff_data_line ls)
     \<and> map file_id (gff_files w') = map file_id (gff_files w)
     \<and> map filename (gff_files w') = map filename (gff_files w)
     \<and> lineCount l' = lineCount l + length ls"
  using assms
proof (induction ls arbitrary: l s w)
  case Nil
  then show ?case by (simp add: ret_def)
next
  case (Cons line rest)
  from Cons.prems(1) obtain s1 l1 where
    a: "gff_line flt fid line l s = (s1, Inr l1)" and b: "gff_lines flt fid rest l1 s1 = (s', Inr l')"
    by (auto elim!: bnd_Inr)
  from gff_line_ok [OF a Cons.prems(2)] obtain w1 where w1: "working s1 = Some w1"
    and c: "committed s1 = committed s"
      "gff_features w1 @ batchValues l1 = gff_features w @ batchValues l @
         (if gff_data_line line then [featureRow fid (split_on CHR 0x09 line)] else [])"
      "featureCount l1 = featureCount l + (if gff_data_line line then 1 else 0)"
      "map file_id (gff_files w1) = map file_id (gff_files w)"
      "map filename (gff_files w1) = map filename (gff_files w)"
      "lineCount l1 = Suc (lineCount l)"
    by blast
  from Cons.IH [OF b w1] obtain w' where w': "working s' = Some w'"
    and d: "committed s' = committed s1"
      "gff_features w' @ batchValues l' = gff_features w1 @ batchValues l1 @
         map (\<lambda>line. featureRow fid (split_on CHR 0x09 line)) (filter gff_data_line rest)"
      "featureCount l' = featureCount l1 + length (filter gff_data_line rest)"
      "map file_id (gff_files w') = map file_id (gff_files w1)"
      "map filename (gff_files w') = map filename (gff_files w1)"
      "lineCount l' = lineCount l1 + length rest"
    by blast
  have "gff_features w' @ batchValues l' = (gff_features w1 @ batchValues l1) @
         map (\<lambda>line. featureRow fid (split_on CHR 0x09 line)) (filter gff_data_line rest)"
    using d(2) by simp
  also have "\<dots> = gff_features w @ batchValues l @
         map (\<lambda>line. featureRow fid (split_on CHR 0x09 line)) (filter gff_data_line (line # rest))"
    unfolding c(2) by simp
  finally have f: "gff_features w' @ batchValues l' = gff_features w @ batchValues l @
         map (\<lambda>line. featureRow fid (split_on CHR 0x09 line)) (filter gff_data_line (line # rest))" .
  from w' c d f show ?case by simp
qed

lemma gff_lines_regions:
  assumes "gff_lines flt fid ls l s = (s', Inr l')" "working s = Some w"
  shows "\<exists>w'. working s' = Some w'
     \<and> region_view fid w' = region_view fid w @ map region_of_line (filter region_line ls)"
  using assms
proof (induction ls arbitrary: l s w)
  case Nil
  then show ?case by (simp add: ret_def)
next
  case (Cons line rest)
  from Cons.prems(1) obtain s1 l1 where
    a: "gff_line flt fid line l s = (s1, Inr l1)" and b: "gff_lines flt fid rest l1 s1 = (s', Inr l')"
    by (auto elim!: bnd_Inr)
  from gff_line_regions [OF a Cons.prems(2)] obtain w1 where w1: "working s1 = Some w1"
    and c: "region_view fid w1 = region_view fid w @ (if region_line line then [region_of_line line] else [])"
    by blast
  from Cons.IH [OF b w1] obtain w' where w': "working s' = Some w'"
    and d: "region_view fid w' = region_view fid w1 @ map region_of_line (filter region_line rest)"
    by blast
  from w' c d show ?case by simp
qed

section \<open>The GFF importer: one file\<close>

lemma try_catch_Inr:
  assumes "try_catch m h s = (s', Inr a)"
  shows "m s = (s', Inr a) \<or> (\<exists>s1 e. m s = (s1, Inl e) \<and> h e s1 = (s', Inr a))"
  using assms by (auto simp: try_catch_def split: prod.splits sum.splits)

lemma try_catch_Inl:
  assumes "try_catch m h s = (s', Inl e')"
  shows "\<exists>s1 e. m s = (s1, Inl e) \<and> h e s1 = (s', Inl e')"
  using assms by (auto simp: try_catch_def split: prod.splits sum.splits)

lemma rethrow_never_Inr:
  "bnd r (\<lambda>_. bnd (say x) (\<lambda>_. throw e)) s \<noteq> (s', Inr a)"
  by (auto simp: bnd_def say_def throw_def split: prod.splits sum.splits)

lemma begin_tx_Inr:
  assumes "begin_tx flt s = (s', Inr u)" "working s = None"
  shows "working s' = Some (committed s) \<and> committed s' = committed s \<and> console s' = console s"
  using assms by (auto simp: begin_tx_def tick_def split: if_splits)

lemma commit_tx_Inr:
  assumes "commit_tx flt s = (s', Inr u)" "working s = Some w"
  shows "committed s' = w \<and> working s' = None \<and> console s' = console s"
  using assms by (auto simp: commit_tx_def tick_def split: if_splits)

lemma connect_eq:
  assumes "connect flt s = (s', r)"
  shows "working s' = working s \<and> committed s' = committed s \<and> console s' = console s"
  using assms by (auto simp: connect_def db_call_def tick_def split: if_splits)

lemma gff_report_eq:
  "gff_report fid l s =
     (s\<lparr>console := console s @
          [LogMsg ''GFF file processed successfully:'', LogCount ''- File ID'' fid,
           LogCount ''- Lines processed'' (lineCount l),
           LogCount ''- Features imported'' (featureCount l),
           LogCount ''- Sequence regions'' (sequenceRegionCount l)]\<rparr>, Inr fid)"
  by (simp add: gff_report_def bnd_def say_def ret_def)

lemma keeps_tx_gff_writes [intro!, simp]: "keeps_tx (gff_writes flt inp sz)"
  unfolding gff_writes_def by auto

lemma gff_try_ok:
  assumes "gff_try flt inp sz s = (s', Inr fid)" "working s = None"
  shows "\<exists>s0 s2 l w'. working s0 = Some (committed s)
     \<and> gff_writes flt inp sz s0 = (s2, Inr (fid, l)) \<and> working s2 = Some w'
     \<and> committed s' = w' \<and> working s' = None
     \<and> console s' = console s2 @
          [LogMsg ''GFF file processed successfully:'', LogCount ''- File ID'' fid,
           LogCount ''- Lines processed'' (lineCount l),
           LogCount ''- Features imported'' (featureCount l),
           LogCount ''- Sequence regions'' (sequenceRegionCount l)]"
proof -
  from assms(1) obtain s0 u where b: "begin_tx flt s = (s0, Inr u)"
    and r1: "bnd (gff_writes flt inp sz)
               (\<lambda>r. bnd (commit_tx flt) (\<lambda>_. gff_report (fst r) (snd r))) s0 = (s', Inr fid)"
    unfolding gff_try_def by (erule bnd_Inr)
  from begin_tx_Inr [OF b assms(2)] have s0: "working s0 = Some (committed s)" by simp
  from r1 obtain s2 r where w: "gff_writes flt inp sz s0 = (s2, Inr r)"
    and r2: "bnd (commit_tx flt) (\<lambda>_. gff_report (fst r) (snd r)) s2 = (s', Inr fid)"
    by (erule bnd_Inr)
  from keeps_txD [OF keeps_tx_gff_writes w] s0 obtain w' where w': "working s2 = Some w'"
    by auto
  from r2 obtain s3 u' where c: "commit_tx flt s2 = (s3, Inr u')"
    and rep: "gff_report (fst r) (snd r) s3 = (s', Inr fid)"
    by (erule bnd_Inr)
  from commit_tx_Inr [OF c w'] have s3: "committed s3 = w'" "working s3 = None" "console s3 = console s2"
    by simp_all
  from rep have "fst r = fid" and "s' = s3\<lparr>console := console s3 @
          [LogMsg ''GFF file processed successfully:'', LogCount ''- File ID'' fid,
           LogCount ''- Lines processed'' (lineCount (snd r)),
           LogCount ''- Features imported'' (featureCount (snd r)),
           LogCount ''- Sequence regions'' (sequenceRegionCount (snd r))]\<rparr>"
    by (auto simp: gff_report_eq)
  with s0 w w' s3 show ?thesis
    by (intro exI [of _ s0] exI [of _ s2] exI [of _ "snd r"] exI [of _ w']) (cases r, simp)
qed

lemma processGffFile_ok:
  assumes "processGffFile flt inp s = (s', Inr fid)" "working s = None"
  shows "\<exists>sz s0 s2 l w'. in_size inp = Some sz \<and> working s0 = Some (committed s)
     \<and> gff_writes flt inp sz s0 = (s2, Inr (fid, l)) \<and> working s2 = Some w'
     \<and> committed s' = w' \<and> working s' = None
     \<and> console s' = console s2 @
          [LogMsg ''GFF file processed successfully:'', LogCount ''- File ID'' fid,
           LogCount ''- Lines processed'' (lineCount l),
           LogCount ''- Features imported'' (featureCount l),
           LogCount ''- Sequence regions'' (sequenceRegionCount l)]"
proof -
  from assms(1) obtain sz where sz: "in_size inp = Some sz"
    by (cases "in_size inp") (auto simp: processGffFile_def throw_def)
  let ?h = "\<lambda>err. bnd (rollback_tx flt)
                      (\<lambda>_. bnd (say (ErrMsg ''Error processing GFF file'' (in_name inp)))
                      (\<lambda>_. throw err))"
  from assms(1) sz have "bnd (say (LogName ''Processing file'' (in_name inp)))
      (\<lambda>_. bnd (connect flt) (\<lambda>_. try_catch (gff_try flt inp sz) ?h)) s = (s', Inr fid)"
    by (simp add: processGffFile_def)
  then obtain s1 u where a: "say (LogName ''Processing file'' (in_name inp)) s = (s1, Inr u)"
    and r1: "bnd (connect flt) (\<lambda>_. try_catch (gff_try flt inp sz) ?h) s1 = (s', Inr fid)"
    by (erule bnd_Inr)
  from r1 obtain s2 u' where c: "connect flt s1 = (s2, Inr u')"
    and r2: "try_catch (gff_try flt inp sz) ?h s2 = (s', Inr fid)"
    by (erule bnd_Inr)
  from a connect_eq [OF c] assms(2) have s2: "working s2 = None" "committed s2 = committed s"
    by (auto simp: say_def)
  from try_catch_Inr [OF r2] have "gff_try flt inp sz s2 = (s', Inr fid)"
    by (auto simp: rethrow_never_Inr)
  from gff_try_ok [OF this s2(1)] sz s2(2) show ?thesis by auto
qed


lemma gff_file_record_update:
  assumes "gff_file_record flt inp sz s = (s', Inr fid)" "working s = Some w"
    "snd (select_file_id (in_name inp) w) = fid0 # others"
  shows "\<exists>w'. working s' = Some w' \<and> fid = fid0
     \<and> gff_features w' = filter (\<lambda>f. f_file_id f \<noteq> fid) (gff_features w)
     \<and> region_view fid w' = []
     \<and> map file_id (gff_files w') = map file_id (gff_files w)
     \<and> map filename (gff_files w') = map filename (gff_files w)"
proof -
  from assms(1) obtain s1 ex where a: "exec flt (select_file_id (in_name inp)) s = (s1, Inr ex)"
    and r1: "(case ex of
            fileId # _ \<Rightarrow>
              bnd (say (LogCount ''File already exists in database with ID. Updating...'' fileId))
                (\<lambda>_. bnd (exec flt (delete_features fileId))
                (\<lambda>_. bnd (exec flt (delete_regions fileId))
                (\<lambda>_. bnd (exec flt (update_file fileId
                             (\<lambda>f. f\<lparr>original_path := in_path inp, file_size := sz\<rparr>)))
                (\<lambda>_. ret fileId))))
          | [] \<Rightarrow> exec_ins flt (insert_file (in_name inp) (in_path inp) sz)) s1 = (s', Inr fid)"
    unfolding gff_file_record_def by (erule bnd_Inr)
  from exec_Inr [OF a assms(2)] assms(3) have s1: "working s1 = Some w" "ex = fid0 # others"
    by (simp_all add: select_file_id_def)
  from r1 s1(2) obtain s2 s3 s4 s5 where
    b: "say (LogCount ''File already exists in database with ID. Updating...'' fid0) s1 = (s2, Inr ())"
    and c: "exec flt (delete_features fid0) s2 = (s3, Inr ())"
    and d: "exec flt (delete_regions fid0) s3 = (s4, Inr ())"
    and e: "exec flt (update_file fid0 (\<lambda>f. f\<lparr>original_path := in_path inp, file_size := sz\<rparr>)) s4 = (s5, Inr ())"
    and f: "ret fid0 s5 = (s', Inr fid)"
    by (auto elim!: bnd_Inr)
  from b s1 have s2: "working s2 = Some w" by (auto simp: say_def)
  from exec_Inr [OF c s2] have s3: "working s3 = Some (fst (delete_features fid0 w))" by simp
  from exec_Inr [OF d s3] have s4: "working s4 = Some (fst (delete_regions fid0 (fst (delete_features fid0 w))))"
    by simp
  from exec_Inr [OF e s4] have s5: "working s5 =
     Some (fst (update_file fid0 (\<lambda>f. f\<lparr>original_path := in_path inp, file_size := sz\<rparr>)
       (fst (delete_regions fid0 (fst (delete_features fid0 w))))))" by simp
  from f have g: "s' = s5" "fid = fid0" by (simp_all add: ret_def)
  show ?thesis
    unfolding g s5
    by (simp add: update_file_ids update_file_names)
       (simp add: delete_regions_def delete_features_def region_view_def)
qed

lemma gff_writes_ok:
  assumes "gff_writes flt inp sz s = (s', Inr (fid, l))" "working s = Some w"
  shows "\<exists>s1 w1 w'. gff_file_record flt inp sz s = (s1, Inr fid) \<and> working s1 = Some w1
     \<and> working s' = Some w'
     \<and> gff_features w' = gff_features w1 @
          map (\<lambda>line. featureRow fid (split_on CHR 0x09 line)) (filter gff_data_line (in_lines inp))
     \<and> region_view fid w' = region_view fid w1 @ map region_of_line (filter region_line (in_lines inp))
     \<and> map file_id (gff_files w') = map file_id (gff_files w1)
     \<and> map filename (gff_files w') = map filename (gff_files w1)
     \<and> featureCount l = length (filter gff_data_line (in_lines inp))
     \<and> lineCount l = length (in_lines inp)"
proof -
  let ?l0 = "\<lparr>lineCount = 0, featureCount = 0, sequenceRegionCount = 0, batchValues = []\<rparr>"
  from assms(1) obtain s1 fid1 where a: "gff_file_record flt inp sz s = (s1, Inr fid1)"
    and r1: "bnd (gff_lines flt fid1 (in_lines inp) ?l0)
       (\<lambda>l. bnd (if batchValues l \<noteq> [] then insertFeatureBatch flt (batchValues l) else ret ())
       (\<lambda>_. ret (fid1, l))) s1 = (s', Inr (fid, l))"
    unfolding gff_writes_def by (erule bnd_Inr)
  from r1 obtain s2 l2 where b: "gff_lines flt fid1 (in_lines inp) ?l0 s1 = (s2, Inr l2)"
    and r2: "bnd (if batchValues l2 \<noteq> [] then insertFeatureBatch flt (batchValues l2) else ret ())
       (\<lambda>_. ret (fid1, l2)) s2 = (s', Inr (fid, l))"
    by (erule bnd_Inr)
  from r2 obtain s3 u where c: "(if batchValues l2 \<noteq> [] then insertFeatureBatch flt (batchValues l2) else ret ())
        s2 = (s3, Inr u)" and r3: "ret (fid1, l2) s3 = (s', Inr (fid, l))"
    by (erule bnd_Inr)
  from r3 have eq: "s' = s3" "fid1 = fid" "l2 = l" by (simp_all add: ret_def)
  from keeps_txD [OF keeps_tx_gff_file_record a] assms(2) obtain w1 where w1: "working s1 = Some w1"
    by auto
  from gff_lines_ok [OF b w1] obtain w2 where w2: "working s2 = Some w2"
    and f: "gff_features w2 @ batchValues l2 = gff_features w1 @
         map (\<lambda>line. featureRow fid1 (split_on CHR 0x09 line)) (filter gff_data_line (in_lines inp))"
      "featureCount l2 = length (filter gff_data_line (in_lines inp))"
      "map file_id (gff_files w2) = map file_id (gff_files w1)"
      "map filename (gff_files w2) = map filename (gff_files w1)"
      "lineCount l2 = length (in_lines inp)"
    by auto
  from gff_lines_regions [OF b w1] w2
  have g: "region_view fid1 w2 = region_view fid1 w1 @ map region_of_line (filter region_line (in_lines inp))"
    by auto
  have "\<exists>w3. working s3 = Some w3 \<and> gff_features w3 = gff_features w2 @ batchValues l2
      \<and> gff_files w3 = gff_files w2 \<and> sequence_regions w3 = sequence_regions w2"
  proof (cases "batchValues l2 = []")
    case True
    with c w2 show ?thesis by (simp add: ret_def)
  next
    case False
    with c have "exec flt (\<lambda>d. (d\<lparr>gff_features := gff_features d @ batchValues l2\<rparr>, ())) s2 = (s3, Inr u)"
      by (simp add: insertFeatureBatch_def)
    from exec_Inr [OF this w2] show ?thesis by simp
  qed
  then obtain w3 where w3: "working s3 = Some w3" "gff_features w3 = gff_features w2 @ batchValues l2"
      "gff_files w3 = gff_files w2" "sequence_regions w3 = sequence_regions w2"
    by blast
  from w3(4) have rv: "region_view fid1 w3 = region_view fid1 w2" by (simp add: region_view_def)
  from a w1 w3 f g rv show ?thesis unfolding eq by auto
qed


lemma processGffFile_summary:
  assumes "processGffFile flt inp s = (s', Inr fid)" "working s = None"
  shows "\<exists>base regs k pre.
       gff_features (committed s') = base @
          map (\<lambda>line. featureRow fid (split_on CHR 0x09 line)) (filter gff_data_line (in_lines inp))
     \<and> region_view fid (committed s') = regs @ map region_of_line (filter region_line (in_lines inp))
     \<and> console s' = pre @
          [LogMsg ''GFF file processed successfully:'', LogCount ''- File ID'' fid,
           LogCount ''- Lines processed'' (length (in_lines inp)),
           LogCount ''- Features imported'' (length (filter gff_data_line (in_lines inp))),
           LogCount ''- Sequence regions'' k]
     \<and> (\<forall>fid0 others. existing_ids (in_name inp) (committed s) = fid0 # others \<longrightarrow>
           fid = fid0 \<and> base = filter (\<lambda>f. f_file_id f \<noteq> fid) (gff_features (committed s))
           \<and> regs = []
           \<and> map file_id (gff_files (committed s')) = map file_id (gff_files (committed s))
           \<and> map filename (gff_files (committed s')) = map filename (gff_files (committed s)))"
proof -
  from processGffFile_ok [OF assms] obtain sz s0 s2 l w' where
    sz: "in_size inp = Some sz" and s0: "working s0 = Some (committed s)"
    and w: "gff_writes flt inp sz s0 = (s2, Inr (fid, l))"
    and fin: "working s2 = Some w'" "committed s' = w'"
      "console s' = console s2 @
          [LogMsg ''GFF file processed successfully:'', LogCount ''- File ID'' fid,
           LogCount ''- Lines processed'' (lineCount l),
           LogCount ''- Features imported'' (featureCount l),
           LogCount ''- Sequence regions'' (sequenceRegionCount l)]"
    by blast
  from gff_writes_ok [OF w s0] fin(1) obtain s1 w1 where
    rec: "gff_file_record flt inp sz s0 = (s1, Inr fid)" and w1: "working s1 = Some w1"
    and r: "gff_features w' = gff_features w1 @
          map (\<lambda>line. featureRow fid (split_on CHR 0x09 line)) (filter gff_data_line (in_lines inp))"
       "region_view fid w' = region_view fid w1 @ map region_of_line (filter region_line (in_lines inp))"
       "map file_id (gff_files w') = map file_id (gff_files w1)"
       "map filename (gff_files w') = map filename (gff_files w1)"
       "featureCount l = length (filter gff_data_line (in_lines inp))"
       "lineCount l = length (in_lines inp)"
    by auto
  have upd: "fid = fid0 \<and> gff_features w1 = filter (\<lambda>f. f_file_id f \<noteq> fid) (gff_features (committed s))
           \<and> region_view fid w1 = []
           \<and> map file_id (gff_files w1) = map file_id (gff_files (committed s))
           \<and> map filename (gff_files w1) = map filename (gff_files (committed s))"
    if "existing_ids (in_name inp) (committed s) = fid0 # others" for fid0 others
  proof -
    from that have "snd (select_file_id (in_name inp) (committed s)) = fid0 # others"
      by (simp add: existing_ids_def select_file_id_def)
    from gff_file_record_update [OF rec s0 this] w1 show ?thesis by auto
  qed
  show ?thesis
    apply (rule exI [of _ "gff_features w1"])
    apply (rule exI [of _ "region_view fid w1"])
    apply (rule exI [of _ "sequenceRegionCount l"])
    apply (rule exI [of _ "console s2"])
    using r fin upd by auto
qed

section \<open>Failure inside a transaction\<close>

lemma try_catch_InlE:
  assumes "try_catch m h s = (s', Inl e')"
  obtains s1 e where "m s = (s1, Inl e)" "h e s1 = (s', Inl e')"
  using assms by (auto simp: try_catch_def split: prod.splits sum.splits)

lemma rollback_tx_committed:
  "rollback_tx flt s = (s', r) \<Longrightarrow> committed s' = committed s \<and> working s' = None"
  by (auto simp: rollback_tx_def tick_def)

lemma sqlite_rollback_committed:
  "sqlite_rollback flt s = (s', r) \<Longrightarrow> committed s' = committed s \<and> working s' = None"
  by (auto simp: sqlite_rollback_def tick_def)

lemma handler_committed:
  assumes "bnd rb (\<lambda>_. bnd (say x) (\<lambda>_. throw e)) s = (s', r)"
    and "\<And>s1 r1. rb s = (s1, r1) \<Longrightarrow> committed s1 = committed s"
  shows "committed s' = committed s"
proof -
  obtain s1 r1 where rb: "rb s = (s1, r1)" by (cases "rb s")
  from assms(2) [OF rb] have c: "committed s1 = committed s" .
  from assms(1) rb c show ?thesis
    by (cases r1) (auto simp: bnd_def say_def throw_def)
qed

lemma tx_block_fail:
  assumes body: "keeps_tx body" and after: "\<And>r s. \<exists>s'' a. after r s = (s'', Inr a)"
    and run: "bnd (begin_tx flt) (\<lambda>_. bnd body (\<lambda>r. bnd (commit_tx flt) (\<lambda>_. after r))) s = (s', Inl e)"
  shows "committed s' = committed s"
  using run
proof (cases rule: bnd_Inl)
  case 1
  then show ?thesis by (auto simp: begin_tx_def tick_def split: if_splits)
next
  case (2 s0 u)
  from 2(1) have s0: "committed s0 = committed s" "working s0 \<noteq> None"
    by (auto simp: begin_tx_def tick_def split: if_splits option.splits)
  from 2(2) show ?thesis
  proof (cases rule: bnd_Inl)
    case 1
    from keeps_txD [OF body 1 s0(2)] s0(1) show ?thesis by simp
  next
    case (2 s2 r)
    from keeps_txD [OF body 2(1) s0(2)] s0(1) have s2: "committed s2 = committed s" by simp
    from 2(2) show ?thesis
    proof (cases rule: bnd_Inl)
      case 1
      with s2 show ?thesis by (auto simp: commit_tx_def tick_def split: if_splits option.splits)
    next
      case (2 s3 u')
      with after [of r s3] show ?thesis by auto
    qed
  qed
qed

lemma say_never_fails: "\<exists>s'' a. say x s = (s'', Inr a)"
  by (simp add: say_def)

lemma processGffFile_fail:
  assumes "processGffFile flt inp s = (s', Inl e)"
  shows "committed s' = committed s"
proof (cases "in_size inp")
  case None
  with assms show ?thesis by (simp add: processGffFile_def throw_def)
next
  case (Some sz)
  let ?h = "\<lambda>err. bnd (rollback_tx flt)
                      (\<lambda>_. bnd (say (ErrMsg ''Error processing GFF file'' (in_name inp)))
                      (\<lambda>_. throw err))"
  from assms Some have "bnd (say (LogName ''Processing file'' (in_name inp)))
      (\<lambda>_. bnd (connect flt) (\<lambda>_. try_catch (gff_try flt inp sz) ?h)) s = (s', Inl e)"
    by (simp add: processGffFile_def)
  then show ?thesis
  proof (cases rule: bnd_Inl)
    case 1
    then show ?thesis by (simp add: say_def)
  next
    case (2 s1 u)
    from 2(1) have s1: "committed s1 = committed s" by (auto simp: say_def)
    from 2(2) show ?thesis
    proof (cases rule: bnd_Inl)
      case 1
      from connect_eq [OF 1] s1 show ?thesis by simp
    next
      case (2 s2 u')
      from connect_eq [OF 2(1)] s1 have s2: "committed s2 = committed s" by simp
      from 2(2) obtain s3 e3 where
        t: "gff_try flt inp sz s2 = (s3, Inl e3)" and h: "?h e3 s3 = (s', Inl e :: error + nat)"
        by (erule try_catch_InlE)
      have "committed s3 = committed s2"
        by (rule tx_block_fail [OF keeps_tx_gff_writes _ t [unfolded gff_try_def]])
           (simp add: gff_report_eq)
      moreover from h have "committed s' = committed s3"
        by (rule handler_committed) (simp add: rollback_tx_committed)
      ultimately show ?thesis using s2 by simp
    qed
  qed
qed

section \<open>The TSV importers: failure\<close>

lemma keeps_tx_pg_batches [intro!, simp]: "keeps_tx (pg_batches flt gid bs dl i k)"
  by (induction k arbitrary: i) (auto simp: Let_def)

lemma keeps_tx_pg_writes [intro!, simp]: "keeps_tx (pg_writes flt inp)"
  unfolding pg_writes_def Let_def by (auto split: option.splits)

lemma keeps_tx_sqlite_batch [intro!, simp]: "keeps_tx (sqlite_batch flt gid b)"
  by (induction b) (auto simp: Let_def)

lemma keeps_tx_sqlite_batches [intro!, simp]: "keeps_tx (sqlite_batches flt gid bs dl i k)"
  by (induction k arbitrary: i) (auto simp: Let_def)

lemma keeps_tx_sqlite_writes [intro!, simp]: "keeps_tx (sqlite_writes flt inp lines)"
  unfolding sqlite_writes_def by auto

lemma pg_processTsvFile_fail:
  assumes "pg_processTsvFile flt inp s = (s', Inl e)"
  shows "committed s' = committed s"
proof -
  let ?h = "\<lambda>error. bnd (rollback_tx flt)
                 (\<lambda>_. bnd (say (ErrMsg ''Error processing file'' (t_path inp)))
                 (\<lambda>_. throw error))"
  from assms have "bnd (say (LogName ''Processing file'' (t_path inp)))
       (\<lambda>_. bnd (connect flt) (\<lambda>_. try_catch (pg_try flt inp) ?h)) s = (s', Inl e)"
    by (simp add: pg_processTsvFile_def)
  then show ?thesis
  proof (cases rule: bnd_Inl)
    case 1
    then show ?thesis by (simp add: say_def)
  next
    case (2 s1 u)
    from 2(1) have s1: "committed s1 = committed s" by (auto simp: say_def)
    from 2(2) show ?thesis
    proof (cases rule: bnd_Inl)
      case 1
      from connect_eq [OF 1] s1 show ?thesis by simp
    next
      case (2 s2 u')
      from connect_eq [OF 2(1)] s1 have s2: "committed s2 = committed s" by simp
      from 2(2) obtain s3 e3 where
        t: "pg_try flt inp s2 = (s3, Inl e3)" and h: "?h e3 s3 = (s', Inl e :: error + unit)"
        by (erule try_catch_InlE)
      have "committed s3 = committed s2"
        by (rule tx_block_fail [OF keeps_tx_pg_writes _ t [unfolded pg_try_def]])
           (simp add: say_def)
      moreover from h have "committed s' = committed s3"
        by (rule handler_committed) (simp add: rollback_tx_committed)
      ultimately show ?thesis using s2 by simp
    qed
  qed
qed

lemma sqlite_processTsvFile_fail:
  assumes "sqlite_processTsvFile flt inp s = (s', Inl e)"
  shows "committed s' = committed s"
proof -
  let ?h = "\<lambda>error. bnd (sqlite_rollback flt)
                 (\<lambda>_. bnd (say (ErrMsg ''Error processing file'' (t_path inp)))
                 (\<lambda>_. throw error))"
  from assms have "bnd (say (LogName ''Processing file'' (t_path inp)))
       (\<lambda>_. try_catch (sqlite_try flt inp) ?h) s = (s', Inl e)"
    by (simp add: sqlite_processTsvFile_def)
  then show ?thesis
  proof (cases rule: bnd_Inl)
    case 1
    then show ?thesis by (simp add: say_def)
  next
    case (2 s1 u)
    from 2(1) have s1: "committed s1 = committed s" by (auto simp: say_def)
    from 2(2) obtain s3 e3 where
      t: "sqlite_try flt inp s1 = (s3, Inl e3)" and h: "?h e3 s3 = (s', Inl e :: error + unit)"
        by (erule try_catch_InlE)
    have "committed s3 = committed s1"
    proof (cases "t_content inp")
      case None
      with t show ?thesis by (simp add: sqlite_try_def throw_def)
    next
      case (Some fileContent)
      with t have "bnd (begin_tx flt)
                (\<lambda>_. bnd (sqlite_writes flt inp (split_on CHR 0x0A fileContent))
                (\<lambda>_. bnd (commit_tx flt)
                (\<lambda>_. say (LogCount ''Imported annotations''
                   (length (dataLines_of (split_on CHR 0x0A fileContent))))))) s1 = (s3, Inl e3)"
        by (simp add: sqlite_try_def Let_def)
      then show ?thesis
        by (rule tx_block_fail [OF keeps_tx_sqlite_writes, rotated]) (simp add: say_def)
    qed
    moreover from h have "committed s' = committed s3"
      by (rule handler_committed) (simp add: sqlite_rollback_committed)
    ultimately show ?thesis using s1 by simp
  qed
qed

section \<open>The TSV importers: a successful import\<close>

lemma batch_rows_append: "batch_rows g (a @ b) = batch_rows g a @ batch_rows g b"
  by (simp add: batch_rows_def)

lemma batch_rows_Cons:
  "batch_rows g (line # rest) =
     (if 8 \<le> length (split_on CHR 0x09 line) then [annotationRow g (split_on CHR 0x09 line)] else [])
     @ batch_rows g rest"
  by (simp add: batch_rows_def)

lemma slice_take: "take (min (a + bs) (length dl) - a) (drop a dl) = take bs (drop a dl)"
  by (cases "a + bs \<le> length dl") (simp_all add: min_def)

lemma insert_rows_step:
  assumes "(if rows \<noteq> [] then exec flt (insert_annotations rows) else ret ()) s = (s', Inr u)"
    "working s = Some w"
  shows "\<exists>w'. working s' = Some w' \<and> annotations w' = annotations w @ rows
     \<and> genomes w' = genomes w \<and> console s' = console s"
proof (cases "rows = []")
  case True
  with assms show ?thesis by (simp add: ret_def)
next
  case False
  with assms(1) have "exec flt (insert_annotations rows) s = (s', Inr u)" by simp
  from exec_Inr [OF this assms(2)] show ?thesis by (simp add: insert_annotations_def)
qed

lemma connect_seq: "connect flt s = (s', r) \<Longrightarrow> seq s' = seq s"
  by (auto simp: connect_def db_call_def tick_def split: if_splits)

lemma pg_batches_Suc:
  "pg_batches flt g bs dl i (Suc k) =
     bnd (if batch_rows g (take bs (drop (i * bs) dl)) \<noteq> []
          then exec flt (insert_annotations (batch_rows g (take bs (drop (i * bs) dl))))
          else ret ())
       (\<lambda>_. pg_batches flt g bs dl (Suc i) k)"
  by (simp add: Let_def slice_take cong: if_cong)

lemma pg_batches_ok:
  assumes "pg_batches flt g bs dl i k s = (s', Inr u)" "working s = Some w"
    "length dl \<le> (i + k) * bs"
  shows "\<exists>w'. working s' = Some w'
     \<and> annotations w' = annotations w @ batch_rows g (drop (i * bs) dl)
     \<and> genomes w' = genomes w \<and> console s' = console s"
  using assms
proof (induction k arbitrary: i s w)
  case 0
  then show ?case by (simp add: ret_def batch_rows_def)
next
  case (Suc k)
  let ?X = "drop (i * bs) dl"
  from Suc.prems(1) obtain s1 u1 where
    a: "(if batch_rows g (take bs ?X) \<noteq> [] then exec flt (insert_annotations (batch_rows g (take bs ?X)))
         else ret ()) s = (s1, Inr u1)"
    and b: "pg_batches flt g bs dl (Suc i) k s1 = (s', Inr u)"
    unfolding pg_batches_Suc by (erule bnd_Inr)
  from insert_rows_step [OF a Suc.prems(2)] obtain w1 where w1: "working s1 = Some w1"
    and c: "annotations w1 = annotations w @ batch_rows g (take bs ?X)"
      "genomes w1 = genomes w" "console s1 = console s"
    by blast
  from Suc.prems(3) have "length dl \<le> (Suc i + k) * bs" by simp
  from Suc.IH [OF b w1 this] obtain w' where w': "working s' = Some w'"
    and d: "annotations w' = annotations w1 @ batch_rows g (drop (Suc i * bs) dl)"
      "genomes w' = genomes w1" "console s' = console s1"
    by blast
  have "drop (Suc i * bs) dl = drop bs ?X" by (simp add: add.commute)
  then have "batch_rows g ?X = batch_rows g (take bs ?X) @ batch_rows g (drop (Suc i * bs) dl)"
    by (metis append_take_drop_id batch_rows_append)
  with w' c d show ?case by simp
qed

lemma totalBatches_covers: "0 < bs \<Longrightarrow> n \<le> totalBatches n bs * bs"
proof -
  assume bs: "0 < bs"
  have "n + bs - 1 < ((n + bs - 1) div bs) * bs + bs"
    using bs by (metis div_mult_mod_eq add_less_cancel_left mod_less_divisor)
  with bs show ?thesis unfolding totalBatches_def by linarith
qed

lemma pg_writes_ok:
  assumes "pg_writes flt inp s = (s', Inr dataLines)" "working s = Some w"
  shows "\<exists>content w'. t_content inp = Some content
     \<and> dataLines = dataLines_of (split_on CHR 0x0A content)
     \<and> working s' = Some w'
     \<and> genomes w' = genomes (insert_genome (strip_ext (t_name inp))
          (parseMetadata (headerLines_of (split_on CHR 0x0A content))) (t_path inp) (seq s) w)
     \<and> annotations w' = annotations w @ batch_rows (seq s) dataLines"
proof -
  from assms(1) obtain content where content: "t_content inp = Some content"
    by (cases "t_content inp") (auto simp: pg_writes_def throw_def)
  let ?lines = "split_on CHR 0x0A content"
  let ?dl = "dataLines_of ?lines"
  let ?ins = "insert_genome (strip_ext (t_name inp)) (parseMetadata (headerLines_of ?lines)) (t_path inp)"
  from assms(1) content have "bnd (exec_ins flt ?ins)
       (\<lambda>genomeId. bnd (pg_batches flt genomeId 1000 ?dl 0 (totalBatches (length ?dl) 1000))
                     (\<lambda>_. ret ?dl)) s = (s', Inr dataLines)"
    by (simp add: pg_writes_def Let_def)
  then obtain s1 gid where a: "exec_ins flt ?ins s = (s1, Inr gid)"
    and r1: "bnd (pg_batches flt gid 1000 ?dl 0 (totalBatches (length ?dl) 1000))
                     (\<lambda>_. ret ?dl) s1 = (s', Inr dataLines)"
    by (erule bnd_Inr)
  from exec_ins_Inr [OF a assms(2)] have s1: "working s1 = Some (?ins (seq s) w)" "gid = seq s"
    by simp_all
  from r1 obtain s2 u where b: "pg_batches flt gid 1000 ?dl 0 (totalBatches (length ?dl) 1000) s1 = (s2, Inr u)"
    and r2: "ret ?dl s2 = (s', Inr dataLines)"
    by (erule bnd_Inr)
  from r2 have eq: "s' = s2" "dataLines = ?dl" by (simp_all add: ret_def)
  have "length ?dl \<le> (0 + totalBatches (length ?dl) 1000) * 1000"
    using totalBatches_covers [of 1000 "length ?dl"] by simp
  from pg_batches_ok [OF b s1(1) this] obtain w' where "working s2 = Some w'"
    "annotations w' = annotations (?ins (seq s) w) @ batch_rows gid ?dl"
    "genomes w' = genomes (?ins (seq s) w)"
    by auto
  with content s1(2) eq show ?thesis by (auto simp: insert_genome_def)
qed

lemma pg_processTsvFile_ok:
  assumes "pg_processTsvFile flt inp s = (s', Inr u)" "working s = None"
  shows "\<exists>content pre. t_content inp = Some content
     \<and> genomes (committed s') = genomes (insert_genome (strip_ext (t_name inp))
          (parseMetadata (headerLines_of (split_on CHR 0x0A content))) (t_path inp) (seq s) (committed s))
     \<and> annotations (committed s') = annotations (committed s) @
          batch_rows (seq s) (dataLines_of (split_on CHR 0x0A content))
     \<and> console s' = pre @
          [LogCount ''Imported annotations'' (length (dataLines_of (split_on CHR 0x0A content)))]
     \<and> working s' = None"
proof -
  let ?h = "\<lambda>error. bnd (rollback_tx flt)
                 (\<lambda>_. bnd (say (ErrMsg ''Error processing file'' (t_path inp)))
                 (\<lambda>_. throw error))"
  from assms(1) have "bnd (say (LogName ''Processing file'' (t_path inp)))
       (\<lambda>_. bnd (connect flt) (\<lambda>_. try_catch (pg_try flt inp) ?h)) s = (s', Inr u)"
    by (simp add: pg_processTsvFile_def)
  then obtain s1 u1 where a: "say (LogName ''Processing file'' (t_path inp)) s = (s1, Inr u1)"
    and r1: "bnd (connect flt) (\<lambda>_. try_catch (pg_try flt inp) ?h) s1 = (s', Inr u)"
    by (erule bnd_Inr)
  from r1 obtain s2 u2 where c: "connect flt s1 = (s2, Inr u2)"
    and r2: "try_catch (pg_try flt inp) ?h s2 = (s', Inr u)"
    by (erule bnd_Inr)
  from a connect_eq [OF c] connect_seq [OF c] assms(2)
  have s2: "working s2 = None" "committed s2 = committed s" "seq s2 = seq s"
    by (auto simp: say_def)
  from try_catch_Inr [OF r2] have "pg_try flt inp s2 = (s', Inr u)"
    by (auto simp: rethrow_never_Inr)
  then obtain s3 u3 where b: "begin_tx flt s2 = (s3, Inr u3)"
    and r3: "bnd (pg_writes flt inp)
       (\<lambda>dataLines. bnd (commit_tx flt)
       (\<lambda>_. say (LogCount ''Imported annotations'' (length dataLines)))) s3 = (s', Inr u)"
    unfolding pg_try_def by (erule bnd_Inr)
  from begin_tx_Inr [OF b s2(1)] b s2 have s3: "working s3 = Some (committed s)" "seq s3 = seq s"
    by (auto simp: begin_tx_def tick_def split: if_splits)
  from r3 obtain s4 dl where w: "pg_writes flt inp s3 = (s4, Inr dl)"
    and r4: "bnd (commit_tx flt) (\<lambda>_. say (LogCount ''Imported annotations'' (length dl))) s4 = (s', Inr u)"
    by (erule bnd_Inr)
  from pg_writes_ok [OF w s3(1)] s3(2) obtain content w' where
    res: "t_content inp = Some content" "dl = dataLines_of (split_on CHR 0x0A content)"
      "working s4 = Some w'"
      "genomes w' = genomes (insert_genome (strip_ext (t_name inp))
          (parseMetadata (headerLines_of (split_on CHR 0x0A content))) (t_path inp) (seq s) (committed s))"
      "annotations w' = annotations (committed s) @ batch_rows (seq s) dl"
    by auto
  from r4 obtain s5 u5 where cm: "commit_tx flt s4 = (s5, Inr u5)"
    and sy: "say (LogCount ''Imported annotations'' (length dl)) s5 = (s', Inr u)"
    by (erule bnd_Inr)
  from commit_tx_Inr [OF cm res(3)] have s5: "committed s5 = w'" "working s5 = None" by simp_all
  from sy have "committed s' = committed s5" "working s' = working s5"
    "console s' = console s5 @ [LogCount ''Imported annotations'' (length dl)]"
    by (auto simp: say_def)
  with s5 res show ?thesis by auto
qed

lemma prepare_eq:
  assumes "prepare flt s = (s', r)"
  shows "working s' = working s \<and> committed s' = committed s \<and> console s' = console s
     \<and> seq s' = seq s"
  using assms by (auto simp: prepare_def tick_def split: if_splits)

lemma finalize_eq:
  assumes "finalize flt s = (s', r)"
  shows "working s' = working s \<and> committed s' = committed s \<and> console s' = console s
     \<and> seq s' = seq s"
  using assms by (auto simp: finalize_def tick_def split: if_splits)

lemma db_call_eq:
  assumes "db_call flt s = (s', r)"
  shows "working s' = working s \<and> committed s' = committed s \<and> console s' = console s
     \<and> seq s' = seq s"
  using assms by (auto simp: db_call_def tick_def split: if_splits)

lemma sqlite_batch_ok:
  assumes "sqlite_batch flt g batch s = (s', Inr u)" "working s = Some w"
  shows "\<exists>w'. working s' = Some w' \<and> annotations w' = annotations w @ batch_rows g batch
     \<and> genomes w' = genomes w \<and> console s' = console s"
  using assms
proof (induction batch arbitrary: s w)
  case Nil
  then show ?case by (simp add: ret_def batch_rows_def)
next
  case (Cons line rest)
  show ?case
  proof (cases "length (split_on CHR 0x09 line) < 8")
    case True
    with Cons.prems(1) have "sqlite_batch flt g rest s = (s', Inr u)" by (simp add: Let_def)
    from Cons.IH [OF this Cons.prems(2)] True show ?thesis by (simp add: batch_rows_Cons)
  next
    case False
    with Cons.prems(1) obtain s1 u1 where
      a: "exec flt (insert_annotations [annotationRow g (split_on CHR 0x09 line)]) s = (s1, Inr u1)"
      and b: "sqlite_batch flt g rest s1 = (s', Inr u)"
      by (auto simp: Let_def elim!: bnd_Inr)
    from exec_Inr [OF a Cons.prems(2)] obtain w1 where w1: "working s1 = Some w1"
      and c: "annotations w1 = annotations w @ [annotationRow g (split_on CHR 0x09 line)]"
        "genomes w1 = genomes w" "console s1 = console s"
      by (auto simp: insert_annotations_def)
    from Cons.IH [OF b w1] obtain w' where "working s' = Some w'"
      "annotations w' = annotations w1 @ batch_rows g rest" "genomes w' = genomes w1"
      "console s' = console s1"
      by blast
    with c False show ?thesis by (simp add: batch_rows_Cons)
  qed
qed

lemma sqlite_batches_Suc:
  "sqlite_batches flt g bs dl i (Suc k) =
     bnd (sqlite_batch flt g (take bs (drop (i * bs) dl)))
       (\<lambda>_. sqlite_batches flt g bs dl (Suc i) k)"
  by (simp add: Let_def slice_take)

lemma sqlite_batches_ok:
  assumes "sqlite_batches flt g bs dl i k s = (s', Inr u)" "working s = Some w"
    "length dl \<le> (i + k) * bs"
  shows "\<exists>w'. working s' = Some w'
     \<and> annotations w' = annotations w @ batch_rows g (drop (i * bs) dl)
     \<and> genomes w' = genomes w \<and> console s' = console s"
  using assms
proof (induction k arbitrary: i s w)
  case 0
  then show ?case by (simp add: ret_def batch_rows_def)
next
  case (Suc k)
  let ?X = "drop (i * bs) dl"
  from Suc.prems(1) obtain s1 u1 where
    a: "sqlite_batch flt g (take bs ?X) s = (s1, Inr u1)"
    and b: "sqlite_batches flt g bs dl (Suc i) k s1 = (s', Inr u)"
    unfolding sqlite_batches_Suc by (erule bnd_Inr)
  from sqlite_batch_ok [OF a Suc.prems(2)] obtain w1 where w1: "working s1 = Some w1"
    and c: "annotations w1 = annotations w @ batch_rows g (take bs ?X)"
      "genomes w1 = genomes w" "console s1 = console s"
    by blast
  from Suc.prems(3) have "length dl \<le> (Suc i + k) * bs" by simp
  from Suc.IH [OF b w1 this] obtain w' where w': "working s' = Some w'"
    and d: "annotations w' = annotations w1 @ batch_rows g (drop (Suc i * bs) dl)"
      "genomes w' = genomes w1" "console s' = console s1"
    by blast
  have "drop (Suc i * bs) dl = drop bs ?X" by (simp add: add.commute)
  then have "batch_rows g ?X = batch_rows g (take bs ?X) @ batch_rows g (drop (Suc i * bs) dl)"
    by (metis append_take_drop_id batch_rows_append)
  with w' c d show ?case by simp
qed

lemma sqlite_writes_ok:
  assumes "sqlite_writes flt inp lines s = (s', Inr u)" "working s = Some w"
  shows "\<exists>w'. working s' = Some w'
     \<and> genomes w' = genomes (insert_genome (strip_ext (t_name inp))
          (parseMetadata (headerLines_of lines)) (t_path inp) (seq s) w)
     \<and> annotations w' = annotations w @ batch_rows (seq s) (dataLines_of lines)"
proof -
  let ?dl = "dataLines_of lines"
  let ?ins = "insert_genome (strip_ext (t_name inp)) (parseMetadata (headerLines_of lines)) (t_path inp)"
  from assms(1) obtain s1 gid where a: "exec_ins flt ?ins s = (s1, Inr gid)"
    and r1: "bnd (prepare flt)
       (\<lambda>_. bnd (sqlite_batches flt gid 500 ?dl 0 (totalBatches (length ?dl) 500))
       (\<lambda>_. finalize flt)) s1 = (s', Inr u)"
    unfolding sqlite_writes_def by (erule bnd_Inr)
  from exec_ins_Inr [OF a assms(2)] have s1: "working s1 = Some (?ins (seq s) w)" "gid = seq s"
    by simp_all
  from r1 obtain s2 u2 where p: "prepare flt s1 = (s2, Inr u2)"
    and r2: "bnd (sqlite_batches flt gid 500 ?dl 0 (totalBatches (length ?dl) 500))
       (\<lambda>_. finalize flt) s2 = (s', Inr u)"
    by (erule bnd_Inr)
  from prepare_eq [OF p] s1 have s2: "working s2 = Some (?ins (seq s) w)" by simp
  from r2 obtain s3 u3 where b: "sqlite_batches flt gid 500 ?dl 0 (totalBatches (length ?dl) 500) s2 = (s3, Inr u3)"
    and f: "finalize flt s3 = (s', Inr u)"
    by (erule bnd_Inr)
  have "length ?dl \<le> (0 + totalBatches (length ?dl) 500) * 500"
    using totalBatches_covers [of 500 "length ?dl"] by simp
  from sqlite_batches_ok [OF b s2 this] obtain w' where "working s3 = Some w'"
    "annotations w' = annotations (?ins (seq s) w) @ batch_rows gid ?dl"
    "genomes w' = genomes (?ins (seq s) w)"
    by auto
  with finalize_eq [OF f] s1(2) show ?thesis by (auto simp: insert_genome_def)
qed

lemma sqlite_processTsvFile_ok:
  assumes "sqlite_processTsvFile flt inp s = (s', Inr u)" "working s = None"
  shows "\<exists>content pre. t_content inp = Some content
     \<and> genomes (committed s') = genomes (insert_genome (strip_ext (t_name inp))
          (parseMetadata (headerLines_of (split_on CHR 0x0A content))) (t_path inp) (seq s) (committed s))
     \<and> annotations (committed s') = annotations (committed s) @
          batch_rows (seq s) (dataLines_of (split_on CHR 0x0A content))
     \<and> console s' = pre @
          [LogCount ''Imported annotations'' (length (dataLines_of (split_on CHR 0x0A content)))]
     \<and> working s' = None"
proof -
  let ?h = "\<lambda>error. bnd (sqlite_rollback flt)
                 (\<lambda>_. bnd (say (ErrMsg ''Error processing file'' (t_path inp)))
                 (\<lambda>_. throw error))"
  from assms(1) have "bnd (say (LogName ''Processing file'' (t_path inp)))
       (\<lambda>_. try_catch (sqlite_try flt inp) ?h) s = (s', Inr u)"
    by (simp add: sqlite_processTsvFile_def)
  then obtain s1 u1 where a: "say (LogName ''Processing file'' (t_path inp)) s = (s1, Inr u1)"
    and r2: "try_catch (sqlite_try flt inp) ?h s1 = (s', Inr u)"
    by (erule bnd_Inr)
  from a assms(2) have s1: "working s1 = None" "committed s1 = committed s" "seq s1 = seq s"
    by (auto simp: say_def)
  from try_catch_Inr [OF r2] have t: "sqlite_try flt inp s1 = (s', Inr u)"
    by (auto simp: rethrow_never_Inr)
  then obtain content where content: "t_content inp = Some content"
    by (cases "t_content inp") (auto simp: sqlite_try_def throw_def)
  let ?lines = "split_on CHR 0x0A content"
  from t content have "bnd (begin_tx flt)
                (\<lambda>_. bnd (sqlite_writes flt inp ?lines)
                (\<lambda>_. bnd (commit_tx flt)
                (\<lambda>_. say (LogCount ''Imported annotations'' (length (dataLines_of ?lines)))))) s1
       = (s', Inr u)"
    by (simp add: sqlite_try_def Let_def)
  then obtain s3 u3 where b: "begin_tx flt s1 = (s3, Inr u3)"
    and r3: "bnd (sqlite_writes flt inp ?lines)
                (\<lambda>_. bnd (commit_tx flt)
                (\<lambda>_. say (LogCount ''Imported annotations'' (length (dataLines_of ?lines))))) s3
       = (s', Inr u)"
    by (erule bnd_Inr)
  from begin_tx_Inr [OF b s1(1)] b s1 have s3: "working s3 = Some (committed s)" "seq s3 = seq s"
    by (auto simp: begin_tx_def tick_def split: if_splits)
  from r3 obtain s4 u4 where w: "sqlite_writes flt inp ?lines s3 = (s4, Inr u4)"
    and r4: "bnd (commit_tx flt)
       (\<lambda>_. say (LogCount ''Imported annotations'' (length (dataLines_of ?lines)))) s4 = (s', Inr u)"
    by (erule bnd_Inr)
  from sqlite_writes_ok [OF w s3(1)] s3(2) obtain w' where
    res: "working s4 = Some w'"
      "genomes w' = genomes (insert_genome (strip_ext (t_name inp))
          (parseMetadata (headerLines_of ?lines)) (t_path inp) (seq s) (committed s))"
      "annotations w' = annotations (committed s) @ batch_rows (seq s) (dataLines_of ?lines)"
    by auto
  from r4 obtain s5 u5 where cm: "commit_tx flt s4 = (s5, Inr u5)"
    and sy: "say (LogCount ''Imported annotations'' (length (dataLines_of ?lines))) s5 = (s', Inr u)"
    by (erule bnd_Inr)
  from commit_tx_Inr [OF cm res(1)] have s5: "committed s5 = w'" "working s5 = None" by simp_all
  from sy have "committed s' = committed s5" "working s' = working s5"
    "console s' = console s5 @ [LogCount ''Imported annotations'' (length (dataLines_of ?lines))]"
    by (auto simp: say_def)
  with s5 res content show ?thesis by auto
qed

section \<open>Runs without faults\<close>

lemma succeedsD: "succeeds m \<Longrightarrow> \<exists>s' a. m s = (s', Inr a)"
  by (simp add: succeeds_def)

lemma succeeds_ret [intro!, simp]: "succeeds (ret a)"
  by (simp add: succeeds_def ret_def)

lemma succeeds_say [intro!, simp]: "succeeds (say e)"
  by (simp add: succeeds_def say_def)

lemma succeeds_db_call [intro!, simp]: "succeeds (db_call no_faults)"
  by (simp add: succeeds_def db_call_def no_faults_def)

lemma succeeds_prepare [intro!, simp]: "succeeds (prepare no_faults)"
  by (simp add: succeeds_def prepare_def no_faults_def)

lemma succeeds_finalize [intro!, simp]: "succeeds (finalize no_faults)"
  by (simp add: succeeds_def finalize_def no_faults_def)

lemma succeeds_connect [intro!, simp]: "succeeds (connect no_faults)"
  by (simp add: connect_def)

lemma succeeds_exec [intro!, simp]: "succeeds (exec no_faults q)"
  by (auto simp: succeeds_def exec_def no_faults_def split: option.splits prod.splits)

lemma succeeds_exec_ins [intro!, simp]: "succeeds (exec_ins no_faults q)"
  by (auto simp: succeeds_def exec_ins_def exec_def no_faults_def split: option.splits prod.splits)

lemma succeeds_begin_tx [intro!, simp]: "succeeds (begin_tx no_faults)"
  by (simp add: succeeds_def begin_tx_def no_faults_def)

lemma succeeds_commit_tx [intro!, simp]: "succeeds (commit_tx no_faults)"
  by (auto simp: succeeds_def commit_tx_def no_faults_def split: option.splits)

lemma succeeds_bnd [intro!]:
  assumes "succeeds m" "\<And>a. succeeds (f a)"
  shows "succeeds (bnd m f)"
  unfolding succeeds_def
proof
  fix s
  from succeedsD [OF assms(1)] obtain s1 a where m: "m s = (s1, Inr a)" by blast
  from succeedsD [OF assms(2)] obtain s2 b where "f a s1 = (s2, Inr b)" by blast
  with m show "\<exists>s' b. bnd m f s = (s', Inr b)" by (simp add: bnd_def)
qed

lemma succeeds_try_catch [intro!]: "succeeds m \<Longrightarrow> succeeds (try_catch m h)"
  unfolding succeeds_def try_catch_def
  by (metis (mono_tags, lifting) old.prod.case sum.case(2))

lemma succeeds_if [intro!]:
  "(c \<Longrightarrow> succeeds a) \<Longrightarrow> (\<not> c \<Longrightarrow> succeeds b) \<Longrightarrow> succeeds (if c then a else b)"
  by simp

lemma succeeds_gff_header [intro!, simp]: "succeeds (gff_header no_faults fid line l)"
  unfolding gff_header_def Let_def by (auto split: option.splits)

lemma succeeds_gff_data [intro!, simp]: "succeeds (gff_data no_faults fid line l)"
  unfolding gff_data_def Let_def insertFeatureBatch_def by auto

lemma succeeds_gff_line [intro!, simp]: "succeeds (gff_line no_faults fid line l)"
  unfolding gff_line_def Let_def by auto

lemma succeeds_gff_lines [intro!, simp]: "succeeds (gff_lines no_faults fid ls l)"
  by (induction ls arbitrary: l) auto

lemma succeeds_gff_file_record [intro!, simp]: "succeeds (gff_file_record no_faults inp sz)"
  unfolding gff_file_record_def by (auto split: list.splits)

lemma succeeds_processGffFile:
  "in_size inp = Some sz \<Longrightarrow> succeeds (processGffFile no_faults inp)"
  unfolding processGffFile_def gff_try_def gff_writes_def gff_report_def insertFeatureBatch_def
  by auto

lemma succeeds_pg_batches [intro!, simp]: "succeeds (pg_batches no_faults g bs dl i k)"
  by (induction k arbitrary: i) (auto simp: Let_def)

lemma succeeds_pg_processTsvFile:
  "t_content inp = Some c \<Longrightarrow> succeeds (pg_processTsvFile no_faults inp)"
  unfolding pg_processTsvFile_def pg_try_def pg_writes_def Let_def
  by auto

lemma succeeds_sqlite_batch [intro!, simp]: "succeeds (sqlite_batch no_faults g b)"
  by (induction b) (auto simp: Let_def)

lemma succeeds_sqlite_batches [intro!, simp]: "succeeds (sqlite_batches no_faults g bs dl i k)"
  by (induction k arbitrary: i) (auto simp: Let_def)

lemma succeeds_sqlite_processTsvFile:
  "t_content inp = Some c \<Longrightarrow> succeeds (sqlite_processTsvFile no_faults inp)"
  unfolding sqlite_processTsvFile_def sqlite_try_def sqlite_writes_def Let_def
  by auto

section \<open>The example GFF run\<close>

lemma gff_example_run:
  "\<exists>s'. processGffFile no_faults gff_example (fresh gff_old_db) = (s', Inr 7)"
proof -
  have "in_size gff_example = Some 64" by (simp add: gff_example_def)
  from succeedsD [OF succeeds_processGffFile [OF this]]
  obtain s' fid where run: "processGffFile no_faults gff_example (fresh gff_old_db) = (s', Inr fid)"
    by blast
  have w: "working (fresh gff_old_db) = None" by (simp add: fresh_def)
  have ex: "existing_ids (in_name gff_example) (committed (fresh gff_old_db)) = [7]"
    by (simp add: existing_ids_def gff_example_def fresh_def gff_old_db_def)
  from processGffFile_summary [OF run w] ex have "fid = 7" by auto
  with run show ?thesis by blast
qed

lemma gff_example_run_eq:
  "processGffFile no_faults gff_example (fresh gff_old_db) =
     (fst (processGffFile no_faults gff_example (fresh gff_old_db)), Inr 7)"
  using gff_example_run by auto

lemma gff_line9_cols:
  "split_on CHR 0x09 gff_line9 = [''chr1'', ''src'', ''gene'', ''x'', ''0'', ''.'', ''.'', ''.'', ''ID=g1'']"
  by (simp add: gff_line9_def tabbed_def)

lemma gff_line8_cols:
  "split_on CHR 0x09 gff_line8 = [''chr1'', ''src'', ''gene'', ''1'', ''2'', ''.'', ''+'', ''0'']"
  by (simp add: gff_line8_def tabbed_def)

lemma gff_line9_data: "gff_data_line gff_line9"
  unfolding gff_data_line_def gff_line9_cols
  by (simp add: gff_line9_def tabbed_def is_blank_def trim_def is_ws_def startsWith_def)

lemma gff_line8_not_data: "\<not> gff_data_line gff_line8"
  unfolding gff_data_line_def gff_line8_cols by simp

lemma gff_example_data_lines: "filter gff_data_line (in_lines gff_example) = [gff_line9]"
  by (simp add: gff_example_def gff_line9_data gff_line8_not_data)
     (simp add: gff_data_line_def startsWith_def)

text \<open>
  Claim C6. After a successful import, every line of the file that is not blank, does
  not start with \<open>#\<close> and has at least nine columns has its row in \<open>gff_features\<close>; in
  that row score, strand and phase are null exactly when the field is \<open>.\<close>, and start and
  end are 1 when \<open>parseInt\<close> gives NaN or 0, the parsed integer otherwise.
\<close>

theorem gff_row_null_and_clamp:
  assumes "processGffFile flt inp s = (s', Inr fid)" and "working s = None"
    and "line \<in> set (in_lines inp)" and "gff_data_line line"
    and "cols = split_on CHR 0x09 line"
  shows "featureRow fid cols \<in> set (gff_features (committed s'))
     \<and> f_score (featureRow fid cols) = (if cols ! 5 = ''.'' then None else Some (cols ! 5))
     \<and> f_strand (featureRow fid cols) = (if cols ! 6 = ''.'' then None else Some (cols ! 6))
     \<and> f_phase (featureRow fid cols) = (if cols ! 7 = ''.'' then None else Some (cols ! 7))
     \<and> f_start (featureRow fid cols) =
         (case parseInt (cols ! 3) of None \<Rightarrow> 1 | Some n \<Rightarrow> if n = 0 then 1 else n)
     \<and> f_end (featureRow fid cols) =
         (case parseInt (cols ! 4) of None \<Rightarrow> 1 | Some n \<Rightarrow> if n = 0 then 1 else n)"
proof -
  from processGffFile_summary [OF assms(1,2)] obtain base where
    "gff_features (committed s') = base @
       map (\<lambda>line. featureRow fid (split_on CHR 0x09 line)) (filter gff_data_line (in_lines inp))"
    by blast
  with assms(3,4,5) have "featureRow fid cols \<in> set (gff_features (committed s'))"
    by auto
  then show ?thesis
    by (simp add: featureRow_def dot_null_def parseInt_or_1_def)
qed

theorem gff_row_null_and_clamp_witness:
  "gff_line9 \<in> set (in_lines gff_example) \<and> gff_data_line gff_line9
   \<and> featureRow 7 (split_on CHR 0x09 gff_line9) \<in>
       set (gff_features (committed (fst (processGffFile no_faults gff_example (fresh gff_old_db)))))
   \<and> f_score (featureRow 7 (split_on CHR 0x09 gff_line9)) = None
   \<and> f_strand (featureRow 7 (split_on CHR 0x09 gff_line9)) = None
   \<and> f_phase (featureRow 7 (split_on CHR 0x09 gff_line9)) = None
   \<and> f_start (featureRow 7 (split_on CHR 0x09 gff_line9)) = 1
   \<and> f_end (featureRow 7 (split_on CHR 0x09 gff_line9)) = 1"
proof -
  have w: "working (fresh gff_old_db) = None" by (simp add: fresh_def)
  have m: "gff_line9 \<in> set (in_lines gff_example)" by (simp add: gff_example_def)
  have p3: "parseInt ''x'' = None" and p4: "parseInt ''0'' = Some 0"
    by (simp_all add: parseInt_def Let_def is_ws_def startsWith_def is_digit_def digit_val_def
        digits_val_def)
  from gff_row_null_and_clamp [OF gff_example_run_eq w m gff_line9_data refl]
  show ?thesis
    using m gff_line9_data by (simp add: gff_line9_cols p3 p4)
qed

section \<open>The example TSV run\<close>

lemma tsv_example_content:
  "t_content tsv_example = Some tsv_text"
  by (simp add: tsv_example_def)

lemma tsv_line8_cols:
  "split_on CHR 0x09 tsv_line8 = [''contig_1'', ''cds'', ''1'', ''99'', ''+'', [], ''dnaA'', ''initiator'']"
  by (simp add: tsv_line8_def tabbed_def)

lemma tsv_line2_cols: "split_on CHR 0x09 tsv_line2 = [''short'', ''line'']"
  by (simp add: tsv_line2_def tabbed_def)

lemma tsv_example_lines:
  "split_on CHR 0x0A tsv_text = [''# Software: bakta'', tsv_line8, tsv_line2]"
  unfolding tsv_text_def
  by (rule split_on_join) (simp_all add: tsv_line8_def tsv_line2_def tabbed_def)

lemma tsv_example_dataLines:
  "dataLines_of [''# Software: bakta'', tsv_line8, tsv_line2] = [tsv_line8, tsv_line2]"
  by (simp add: dataLines_of_def startsWith_def tsv_line8_def tsv_line2_def tabbed_def trim_def
      is_ws_def)

lemma tsv_example_rows:
  "batch_rows g [tsv_line8, tsv_line2] = [annotationRow g (split_on CHR 0x09 tsv_line8)]"
  by (simp add: batch_rows_def tsv_line8_cols tsv_line2_cols)

lemma tsv_example_counted:
  "filter counted_line [''# Software: bakta'', tsv_line8, tsv_line2] = [tsv_line8]"
  by (simp add: counted_line_def tsv_line8_cols tsv_line2_cols)
     (simp add: startsWith_def tsv_line8_def tabbed_def trim_def is_ws_def)

lemma pg_example_run:
  "working s = None \<Longrightarrow>
     pg_processTsvFile no_faults tsv_example s = (fst (pg_processTsvFile no_faults tsv_example s), Inr ())"
  using succeedsD [OF succeeds_pg_processTsvFile [OF tsv_example_content], of s] by auto

lemma sqlite_example_run:
  "sqlite_processTsvFile no_faults tsv_example s =
     (fst (sqlite_processTsvFile no_faults tsv_example s), Inr ())"
  using succeedsD [OF succeeds_sqlite_processTsvFile [OF tsv_example_content], of s] by auto

lemma fresh_working [simp]: "working (fresh d) = None"
  by (simp add: fresh_def)

lemma pg_example_ok:
  assumes "working s = None"
  shows "annotations (committed (fst (pg_processTsvFile no_faults tsv_example s))) =
           annotations (committed s) @ [annotationRow (seq s) (split_on CHR 0x09 tsv_line8)]"
    and "map g_file_path (genomes (committed (fst (pg_processTsvFile no_faults tsv_example s)))) =
           map g_file_path (genomes (committed s)) @ [''data/a.tsv'']"
    and "working (fst (pg_processTsvFile no_faults tsv_example s)) = None"
    and "last (console (fst (pg_processTsvFile no_faults tsv_example s))) =
           LogCount ''Imported annotations'' 2"
proof -
  let ?s' = "fst (pg_processTsvFile no_faults tsv_example s)"
  from pg_processTsvFile_ok [OF pg_example_run [OF assms] assms]
  obtain content pre where c: "t_content tsv_example = Some content"
    and g: "genomes (committed ?s') = genomes (insert_genome (strip_ext (t_name tsv_example))
          (parseMetadata (headerLines_of (split_on CHR 0x0A content))) (t_path tsv_example) (seq s)
          (committed s))"
    and a: "annotations (committed ?s') = annotations (committed s) @
          batch_rows (seq s) (dataLines_of (split_on CHR 0x0A content))"
    and l: "console ?s' = pre @
          [LogCount ''Imported annotations'' (length (dataLines_of (split_on CHR 0x0A content)))]"
    and w: "working ?s' = None"
    by blast
  from c have "content = tsv_text" unfolding tsv_example_content by simp
  then have dl: "dataLines_of (split_on CHR 0x0A content) = [tsv_line8, tsv_line2]"
    by (simp only: tsv_example_lines tsv_example_dataLines)
  from a show "annotations (committed ?s') =
           annotations (committed s) @ [annotationRow (seq s) (split_on CHR 0x09 tsv_line8)]"
    by (simp only: dl tsv_example_rows)
  have "t_path tsv_example = ''data/a.tsv''" by (simp add: tsv_example_def)
  with g show "map g_file_path (genomes (committed ?s')) =
           map g_file_path (genomes (committed s)) @ [''data/a.tsv'']"
    by (simp add: insert_genome_def)
  from w show "working ?s' = None" .
  from l show "last (console ?s') = LogCount ''Imported annotations'' 2"
    by (simp add: dl)
qed

lemma tsv_once_facts:
  "working tsv_once = None"
  "annotations (committed tsv_once) = [annotationRow 20 (split_on CHR 0x09 tsv_line8)]"
  "map g_file_path (genomes (committed tsv_once)) = [''data/a.tsv'']"
  using pg_example_ok [OF fresh_working, of tsv_empty]
  unfolding tsv_once_def [symmetric]
  by (simp_all add: fresh_def tsv_empty_def)

lemma tsv_twice_facts:
  "annotations (committed tsv_twice) =
     [annotationRow 20 (split_on CHR 0x09 tsv_line8),
      annotationRow (seq tsv_once) (split_on CHR 0x09 tsv_line8)]"
  "map g_file_path (genomes (committed tsv_twice)) = [''data/a.tsv'', ''data/a.tsv'']"
  using pg_example_ok [OF tsv_once_facts(1)] tsv_once_facts(2,3)
  unfolding tsv_twice_def [symmetric]
  by simp_all

section \<open>Evaluating concrete runs\<close>

lemmas act_eval = bnd_def ret_def throw_def try_catch_def say_def tick_def db_call_def connect_def
  prepare_def finalize_def close_db_def
  exec_def exec_ins_def begin_tx_def commit_tx_def rollback_tx_def sqlite_rollback_def
  no_faults_def fault_at_def fresh_def

lemmas str_eval = trim_def is_ws_def startsWith_def is_blank_def tabbed_def

lemmas gff_eval = processGffFile_def gff_try_def gff_writes_def gff_report_def gff_file_record_def
  gff_line_def gff_header_def gff_data_def insertFeatureBatch_def BATCH_SIZE_def
  select_file_id_def delete_features_def delete_regions_def update_file_def insert_file_def
  insert_region_def set_species_def nth_opt_def gff_example_def gff_old_db_def gff_line9_def
  gff_line8_def Let_def

lemmas tsv_eval = pg_processTsvFile_def pg_try_def pg_writes_def sqlite_processTsvFile_def
  sqlite_try_def sqlite_writes_def tsv_example_def tsv_clean_def tsv_empty_def tsv_text_def
  tsv_clean_text_def Let_def
  dataLines_of_def headerLines_of_def totalBatches_def batch_rows_def tsv_line8_def tsv_line2_def
  insert_genome_def insert_annotations_def

section \<open>Re-import\<close>

lemma filter_file_rows:
  "filter (\<lambda>f. f_file_id f = fid) (map (\<lambda>line. featureRow fid (split_on CHR 0x09 line)) ls) =
     map (line_row fid) ls"
  "filter (\<lambda>f. f_file_id f \<noteq> fid) (map (\<lambda>line. featureRow fid (split_on CHR 0x09 line)) ls) = []"
  by (induction ls) (simp_all add: featureRow_def line_row_def)

lemma gff_reimport:
  assumes "processGffFile flt inp s = (s', Inr fid)" "working s = None"
    "existing_ids (in_name inp) (committed s) = fid0 # others"
  shows "fid = fid0
     \<and> features_of fid (committed s') = map (line_row fid) (filter gff_data_line (in_lines inp))
     \<and> features_beside fid (committed s') = features_beside fid (committed s)
     \<and> region_view fid (committed s') = map region_of_line (filter region_line (in_lines inp))
     \<and> map file_id (gff_files (committed s')) = map file_id (gff_files (committed s))
     \<and> map filename (gff_files (committed s')) = map filename (gff_files (committed s))"
proof -
  from processGffFile_summary [OF assms(1,2)] assms(3) obtain base regs where
    f: "gff_features (committed s') = base @
          map (\<lambda>line. featureRow fid (split_on CHR 0x09 line)) (filter gff_data_line (in_lines inp))"
    and r: "region_view fid (committed s') = regs @ map region_of_line (filter region_line (in_lines inp))"
    and u: "fid = fid0" "base = filter (\<lambda>f. f_file_id f \<noteq> fid) (gff_features (committed s))"
      "regs = []"
      "map file_id (gff_files (committed s')) = map file_id (gff_files (committed s))"
      "map filename (gff_files (committed s')) = map filename (gff_files (committed s))"
    by blast
  from f u(2) have "features_of fid (committed s') =
      map (line_row fid) (filter gff_data_line (in_lines inp))"
    by (simp add: features_of_def filter_file_rows)
  moreover from f u(2) have "features_beside fid (committed s') = features_beside fid (committed s)"
    by (simp add: features_beside_def filter_file_rows)
  ultimately show ?thesis using r u by simp
qed

lemma pg_import_appends:
  assumes "pg_processTsvFile flt inp s = (s', Inr u)" "working s = None" "t_content inp = Some content"
  shows "map g_file_path (genomes (committed s')) = map g_file_path (genomes (committed s)) @ [t_path inp]
     \<and> map g_id (genomes (committed s')) = map g_id (genomes (committed s)) @ [seq s]
     \<and> annotations (committed s') = annotations (committed s) @
          batch_rows (seq s) (dataLines_of (split_on CHR 0x0A content))"
  using pg_processTsvFile_ok [OF assms(1,2)] assms(3) by (auto simp: insert_genome_def)

lemma sqlite_import_appends:
  assumes "sqlite_processTsvFile flt inp s = (s', Inr u)" "working s = None" "t_content inp = Some content"
  shows "map g_file_path (genomes (committed s')) = map g_file_path (genomes (committed s)) @ [t_path inp]
     \<and> map g_id (genomes (committed s')) = map g_id (genomes (committed s)) @ [seq s]
     \<and> annotations (committed s') = annotations (committed s) @
          batch_rows (seq s) (dataLines_of (split_on CHR 0x0A content))"
  using sqlite_processTsvFile_ok [OF assms(1,2)] assms(3) by (auto simp: insert_genome_def)

text \<open>
  Claim C1, as amended. When the GFF importer imports a file whose name is already in
  \<open>gff_files\<close>, it keeps the record found, and after the import the feature rows of that
  record are exactly the rows of the file's data lines, its sequence-region rows are
  exactly those of the file's \<open>##sequence-region\<close> pragmas, and the feature rows of the
  other files are as before. The two TSV importers do not look a file up: a successful
  import adds one genome record, with a new id, and adds the file's rows after the rows
  that were there.
\<close>

theorem reimport_gff_replaces_tsv_appends:
  "(\<forall>flt inp s s' fid fid0 others.
      processGffFile flt inp s = (s', Inr fid) \<and> working s = None
      \<and> existing_ids (in_name inp) (committed s) = fid0 # others \<longrightarrow>
        fid = fid0
        \<and> features_of fid (committed s') = map (line_row fid) (filter gff_data_line (in_lines inp))
        \<and> features_beside fid (committed s') = features_beside fid (committed s)
        \<and> region_view fid (committed s') = map region_of_line (filter region_line (in_lines inp))
        \<and> map file_id (gff_files (committed s')) = map file_id (gff_files (committed s))
        \<and> map filename (gff_files (committed s')) = map filename (gff_files (committed s)))
   \<and> (\<forall>flt inp s s' u content.
      pg_processTsvFile flt inp s = (s', Inr u) \<and> working s = None \<and> t_content inp = Some content \<longrightarrow>
        map g_file_path (genomes (committed s')) = map g_file_path (genomes (committed s)) @ [t_path inp]
        \<and> map g_id (genomes (committed s')) = map g_id (genomes (committed s)) @ [seq s]
        \<and> annotations (committed s') = annotations (committed s) @
             batch_rows (seq s) (dataLines_of (split_on CHR 0x0A content)))
   \<and> (\<forall>flt inp s s' u content.
      sqlite_processTsvFile flt inp s = (s', Inr u) \<and> working s = None \<and> t_content inp = Some content \<longrightarrow>
        map g_file_path (genomes (committed s')) = map g_file_path (genomes (committed s)) @ [t_path inp]
        \<and> map g_id (genomes (committed s')) = map g_id (genomes (committed s)) @ [seq s]
        \<and> annotations (committed s') = annotations (committed s) @
             batch_rows (seq s) (dataLines_of (split_on CHR 0x0A content)))"
  using gff_reimport pg_import_appends sqlite_import_appends by blast

lemma gff_after_run: "processGffFile no_faults gff_example (fresh gff_old_db) = (gff_after, Inr 7)"
  unfolding gff_after_def using gff_example_run by auto

lemma region_example:
  "filter region_line (in_lines gff_example) = [''##sequence-region chr1 1 1000'']"
  "region_of_line ''##sequence-region chr1 1 1000'' = (''chr1'', Some 1, Some 1000)"
  by (simp_all add: gff_example_def region_line_def region_of_line_def str_eval gff_line9_def
      gff_line8_def parseInt_def Let_def is_digit_def digit_val_def digits_val_def)

theorem reimport_gff_replaces_tsv_appends_witness:
  "existing_ids (in_name gff_example) (committed (fresh gff_old_db)) = [7]
   \<and> features_of 7 (committed gff_after) = [line_row 7 gff_line9]
   \<and> features_beside 7 (committed gff_after) = features_beside 7 gff_old_db
   \<and> region_view 7 (committed gff_after) = [(''chr1'', Some 1, Some 1000)]
   \<and> map filename (gff_files (committed gff_after)) = [''a.gff'']
   \<and> annotations (committed tsv_once) = batch_rows 20 [tsv_line8, tsv_line2]
   \<and> map g_id (genomes (committed tsv_once)) = [20]
   \<and> annotations (committed (fst (sqlite_processTsvFile no_faults tsv_example (fresh tsv_empty)))) =
       batch_rows 20 [tsv_line8, tsv_line2]"
proof -
  note T = reimport_gff_replaces_tsv_appends
  have ex: "existing_ids (in_name gff_example) (committed (fresh gff_old_db)) = [7]"
    by (simp add: existing_ids_def gff_example_def fresh_def gff_old_db_def)
  have a: "features_of 7 (committed gff_after) = map (line_row 7) (filter gff_data_line (in_lines gff_example))
        \<and> features_beside 7 (committed gff_after) = features_beside 7 (committed (fresh gff_old_db))
        \<and> region_view 7 (committed gff_after) = map region_of_line (filter region_line (in_lines gff_example))
        \<and> map file_id (gff_files (committed gff_after)) = map file_id (gff_files (committed (fresh gff_old_db)))
        \<and> map filename (gff_files (committed gff_after)) = map filename (gff_files (committed (fresh gff_old_db)))"
    using T [THEN conjunct1, rule_format, of no_faults gff_example "fresh gff_old_db" gff_after 7 7 "[]"]
      gff_after_run ex by simp
  have b: "annotations (committed tsv_once) = annotations (committed (fresh tsv_empty)) @
             batch_rows (seq (fresh tsv_empty))
               (dataLines_of (split_on CHR 0x0A tsv_text))
         \<and> map g_id (genomes (committed tsv_once)) =
             map g_id (genomes (committed (fresh tsv_empty))) @ [seq (fresh tsv_empty)]"
    using T [THEN conjunct2, THEN conjunct1, rule_format, of no_faults tsv_example "fresh tsv_empty"
        tsv_once "()" tsv_text]
      pg_example_run [OF fresh_working, of tsv_empty] tsv_example_content
    by (simp add: tsv_once_def)
  have c: "annotations (committed (fst (sqlite_processTsvFile no_faults tsv_example (fresh tsv_empty)))) =
             annotations (committed (fresh tsv_empty)) @
             batch_rows (seq (fresh tsv_empty))
               (dataLines_of (split_on CHR 0x0A tsv_text))"
    using T [THEN conjunct2, THEN conjunct2, rule_format, of no_faults tsv_example "fresh tsv_empty"
        "fst (sqlite_processTsvFile no_faults tsv_example (fresh tsv_empty))" "()"
        tsv_text]
      sqlite_example_run [of "fresh tsv_empty"] tsv_example_content
    by simp
  have d: "dataLines_of (split_on CHR 0x0A tsv_text)
      = [tsv_line8, tsv_line2]"
    by (simp only: tsv_example_lines tsv_example_dataLines)
  from a have "features_of 7 (committed gff_after) = [line_row 7 gff_line9]"
     "features_beside 7 (committed gff_after) = features_beside 7 gff_old_db"
     "region_view 7 (committed gff_after) = [(''chr1'', Some 1, Some 1000)]"
     "map filename (gff_files (committed gff_after)) = [''a.gff'']"
    by (simp_all add: gff_example_data_lines region_example)
       (simp_all add: fresh_def gff_old_db_def)
  moreover from b c have "annotations (committed tsv_once) = batch_rows 20 [tsv_line8, tsv_line2]"
    "map g_id (genomes (committed tsv_once)) = [20]"
    "annotations (committed (fst (sqlite_processTsvFile no_faults tsv_example (fresh tsv_empty)))) =
       batch_rows 20 [tsv_line8, tsv_line2]"
    unfolding d by (simp_all add: fresh_def tsv_empty_def)
  ultimately show ?thesis using ex by simp
qed

lemma tsv_once_seq: "seq tsv_once = 21"
  by (simp add: tsv_once_def act_eval str_eval tsv_eval)

text \<open>
  The PostgreSQL TSV importer, run twice on the same file: both runs succeed, two genome
  records carry the file's path, and the annotation row of the first run is still there
  next to the row of the second.
\<close>

theorem tsv_reimport_keeps_old_rows:
  "snd (pg_processTsvFile no_faults tsv_example (fresh tsv_empty)) = Inr ()
   \<and> snd (pg_processTsvFile no_faults tsv_example tsv_once) = Inr ()
   \<and> map g_file_path (genomes (committed tsv_once)) = [''data/a.tsv'']
   \<and> map g_file_path (genomes (committed tsv_twice)) = [''data/a.tsv'', ''data/a.tsv'']
   \<and> map a_genome_id (annotations (committed tsv_once)) = [20]
   \<and> map a_genome_id (annotations (committed tsv_twice)) = [20, 21]"
proof -
  have "snd (pg_processTsvFile no_faults tsv_example (fresh tsv_empty)) = Inr ()"
    using pg_example_run [OF fresh_working, of tsv_empty] by (metis snd_conv)
  moreover have "snd (pg_processTsvFile no_faults tsv_example tsv_once) = Inr ()"
    using pg_example_run [OF tsv_once_facts(1)] by (metis snd_conv)
  ultimately show ?thesis
    using tsv_once_facts(2,3) tsv_twice_facts
    by (simp add: tsv_once_seq annotationRow_def)
qed

section \<open>The count in the completion log\<close>

lemma all_counted:
  assumes "\<forall>line\<in>set ls. \<not> startsWith line ''#'' \<and> trim line \<noteq> [] \<longrightarrow> 8 \<le> length (split_on CHR 0x09 line)"
  shows "filter counted_line ls = dataLines_of ls"
  using assms by (induction ls) (auto simp: counted_line_def dataLines_of_def)

lemma gff_count:
  assumes "processGffFile flt inp s = (s', Inr fid)" "working s = None"
  shows "last (butlast (console s')) =
     LogCount ''- Features imported'' (length (filter gff_data_line (in_lines inp)))"
proof -
  from processGffFile_summary [OF assms] obtain k pre where
    "console s' = pre @
          [LogMsg ''GFF file processed successfully:'', LogCount ''- File ID'' fid,
           LogCount ''- Lines processed'' (length (in_lines inp)),
           LogCount ''- Features imported'' (length (filter gff_data_line (in_lines inp))),
           LogCount ''- Sequence regions'' k]"
    by blast
  then show ?thesis by (simp add: butlast_append)
qed

lemma pg_count:
  assumes "pg_processTsvFile flt inp s = (s', Inr u)" "working s = None" "t_content inp = Some content"
    "\<forall>line\<in>set (split_on CHR 0x0A content).
        \<not> startsWith line ''#'' \<and> trim line \<noteq> [] \<longrightarrow> 8 \<le> length (split_on CHR 0x09 line)"
  shows "last (console s') =
     LogCount ''Imported annotations'' (length (filter counted_line (split_on CHR 0x0A content)))"
  using pg_processTsvFile_ok [OF assms(1,2)] assms(3) all_counted [OF assms(4)] by auto

lemma sqlite_count:
  assumes "sqlite_processTsvFile flt inp s = (s', Inr u)" "working s = None" "t_content inp = Some content"
    "\<forall>line\<in>set (split_on CHR 0x0A content).
        \<not> startsWith line ''#'' \<and> trim line \<noteq> [] \<longrightarrow> 8 \<le> length (split_on CHR 0x09 line)"
  shows "last (console s') =
     LogCount ''Imported annotations'' (length (filter counted_line (split_on CHR 0x0A content)))"
  using sqlite_processTsvFile_ok [OF assms(1,2)] assms(3) all_counted [OF assms(4)] by auto

text \<open>
  Claim C3, as amended. The GFF importer prints, as \<open>Features imported\<close>, the number of
  lines of the file that are not blank, do not start with \<open>#\<close> and have at least nine
  tab-separated columns. For a TSV file in which every line that is not blank and does
  not start with \<open>#\<close> has at least eight tab-separated columns, both TSV importers print,
  as \<open>Imported annotations\<close>, the number of such lines.
\<close>

theorem completion_log_count:
  "(\<forall>flt inp s s' fid.
      processGffFile flt inp s = (s', Inr fid) \<and> working s = None \<longrightarrow>
        last (butlast (console s')) =
          LogCount ''- Features imported'' (length (filter gff_data_line (in_lines inp))))
   \<and> (\<forall>flt inp s s' u content.
      pg_processTsvFile flt inp s = (s', Inr u) \<and> working s = None \<and> t_content inp = Some content
      \<and> (\<forall>line\<in>set (split_on CHR 0x0A content).
            \<not> startsWith line ''#'' \<and> trim line \<noteq> [] \<longrightarrow> 8 \<le> length (split_on CHR 0x09 line)) \<longrightarrow>
        last (console s') =
          LogCount ''Imported annotations'' (length (filter counted_line (split_on CHR 0x0A content))))
   \<and> (\<forall>flt inp s s' u content.
      sqlite_processTsvFile flt inp s = (s', Inr u) \<and> working s = None \<and> t_content inp = Some content
      \<and> (\<forall>line\<in>set (split_on CHR 0x0A content).
            \<not> startsWith line ''#'' \<and> trim line \<noteq> [] \<longrightarrow> 8 \<le> length (split_on CHR 0x09 line)) \<longrightarrow>
        last (console s') =
          LogCount ''Imported annotations'' (length (filter counted_line (split_on CHR 0x0A content))))"
  using gff_count pg_count sqlite_count by blast

lemma tsv_clean_content: "t_content tsv_clean = Some tsv_clean_text"
  by (simp add: tsv_clean_def)

lemma tsv_clean_lines:
  "split_on CHR 0x0A tsv_clean_text = [''# Software: bakta'', tsv_line8]"
  unfolding tsv_clean_text_def
  by (rule split_on_join) (simp_all add: tsv_line8_def tabbed_def)

lemma tsv_clean_all8:
  "\<forall>line\<in>set [''# Software: bakta'', tsv_line8].
      \<not> startsWith line ''#'' \<and> trim line \<noteq> [] \<longrightarrow> 8 \<le> length (split_on CHR 0x09 line)"
  by (simp add: tsv_line8_cols) (simp add: startsWith_def)

lemma counted_facts:
  "counted_line tsv_line8" "\<not> counted_line tsv_line2" "\<not> counted_line ''# Software: bakta''"
  "counted_line gff_line9" "counted_line gff_line8"
  "\<not> counted_line ''##gff-version 3''" "\<not> counted_line ''##sequence-region chr1 1 1000''"
  unfolding counted_line_def tsv_line8_cols tsv_line2_cols gff_line9_cols gff_line8_cols
  by (simp_all add: startsWith_def tsv_line8_def gff_line9_def gff_line8_def tabbed_def trim_def
      is_ws_def)

theorem completion_log_count_witness:
  "last (butlast (console gff_after)) = LogCount ''- Features imported'' 1
   \<and> last (console (fst (pg_processTsvFile no_faults tsv_clean (fresh tsv_empty)))) =
       LogCount ''Imported annotations'' 1
   \<and> last (console (fst (sqlite_processTsvFile no_faults tsv_clean (fresh tsv_empty)))) =
       LogCount ''Imported annotations'' 1"
proof -
  note T = completion_log_count
  have a: "last (butlast (console gff_after)) =
      LogCount ''- Features imported'' (length (filter gff_data_line (in_lines gff_example)))"
    using T [THEN conjunct1, rule_format, of no_faults gff_example "fresh gff_old_db" gff_after 7]
      gff_after_run by simp
  have p: "pg_processTsvFile no_faults tsv_clean (fresh tsv_empty) =
      (fst (pg_processTsvFile no_faults tsv_clean (fresh tsv_empty)), Inr ())"
    using succeedsD [OF succeeds_pg_processTsvFile [OF tsv_clean_content], of "fresh tsv_empty"] by auto
  have q: "sqlite_processTsvFile no_faults tsv_clean (fresh tsv_empty) =
      (fst (sqlite_processTsvFile no_faults tsv_clean (fresh tsv_empty)), Inr ())"
    using succeedsD [OF succeeds_sqlite_processTsvFile [OF tsv_clean_content], of "fresh tsv_empty"] by auto
  have h: "\<forall>line\<in>set (split_on CHR 0x0A tsv_clean_text).
      \<not> startsWith line ''#'' \<and> trim line \<noteq> [] \<longrightarrow> 8 \<le> length (split_on CHR 0x09 line)"
    unfolding tsv_clean_lines by (rule tsv_clean_all8)
  have b: "last (console (fst (pg_processTsvFile no_faults tsv_clean (fresh tsv_empty)))) =
      LogCount ''Imported annotations'' (length (filter counted_line (split_on CHR 0x0A tsv_clean_text)))"
    using T [THEN conjunct2, THEN conjunct1, rule_format, of no_faults tsv_clean "fresh tsv_empty"
        "fst (pg_processTsvFile no_faults tsv_clean (fresh tsv_empty))" "()" tsv_clean_text]
      p tsv_clean_content h by simp
  have c: "last (console (fst (sqlite_processTsvFile no_faults tsv_clean (fresh tsv_empty)))) =
      LogCount ''Imported annotations'' (length (filter counted_line (split_on CHR 0x0A tsv_clean_text)))"
    using T [THEN conjunct2, THEN conjunct2, rule_format, of no_faults tsv_clean "fresh tsv_empty"
        "fst (sqlite_processTsvFile no_faults tsv_clean (fresh tsv_empty))" "()" tsv_clean_text]
      q tsv_clean_content h by simp
  from a b c show ?thesis
    by (simp add: gff_example_data_lines tsv_clean_lines counted_facts)
qed


text \<open>
  A TSV file with a line of eight columns and a line of two: the importer prints 2, one
  row is inserted, one line has eight columns. A GFF file with a line of nine columns and
  a line of eight: the importer prints 1, two lines have at least eight columns.
\<close>

theorem log_count_differs:
  "snd (pg_processTsvFile no_faults tsv_example (fresh tsv_empty)) = Inr ()
   \<and> last (console tsv_once) = LogCount ''Imported annotations'' 2
   \<and> length (filter counted_line
        (split_on CHR 0x0A tsv_text)) = 1
   \<and> length (annotations (committed tsv_once)) = 1
   \<and> snd (processGffFile no_faults gff_example (fresh gff_old_db)) = Inr 7
   \<and> last (butlast (console gff_after)) = LogCount ''- Features imported'' 1
   \<and> length (filter counted_line (in_lines gff_example)) = 2"
proof -
  have "snd (pg_processTsvFile no_faults tsv_example (fresh tsv_empty)) = Inr ()"
    using pg_example_run [OF fresh_working, of tsv_empty] by (metis snd_conv)
  moreover have "last (console tsv_once) = LogCount ''Imported annotations'' 2"
    using pg_example_ok(4) [OF fresh_working, of tsv_empty] by (simp add: tsv_once_def)
  moreover have "last (butlast (console gff_after)) = LogCount ''- Features imported'' 1"
    using gff_count [OF gff_after_run] by (simp add: gff_example_data_lines)
  moreover have "snd (processGffFile no_faults gff_example (fresh gff_old_db)) = Inr 7"
    using gff_after_run by simp
  ultimately show ?thesis
    using tsv_once_facts(2)
    by (simp add: tsv_example_lines counted_facts gff_example_def)
qed

section \<open>Empty columns of a TSV line\<close>

lemma dataLine_row_in:
  assumes "line \<in> set lines" "counted_line line"
  shows "annotationRow g (split_on CHR 0x09 line) \<in> set (batch_rows g (dataLines_of lines))"
  using assms by (auto simp: batch_rows_def dataLines_of_def counted_line_def)

lemma annotationRow_fields:
  "a_locus_tag (annotationRow g parts) = (if parts ! 5 = [] then None else Some (parts ! 5))
   \<and> a_gene (annotationRow g parts) = (if parts ! 6 = [] then None else Some (parts ! 6))
   \<and> a_product (annotationRow g parts) = (if parts ! 7 = [] then None else Some (parts ! 7))
   \<and> a_sequence_id (annotationRow g parts) = parts ! 0
   \<and> a_feature_type (annotationRow g parts) = parts ! 1
   \<and> a_strand (annotationRow g parts) = parts ! 4"
  by (simp add: annotationRow_def or_null_def)

lemma pg_row:
  assumes "pg_processTsvFile flt inp s = (s', Inr u)" "working s = None" "t_content inp = Some content"
    "line \<in> set (split_on CHR 0x0A content)" "counted_line line"
  shows "annotationRow (seq s) (split_on CHR 0x09 line) \<in> set (annotations (committed s'))"
  using pg_processTsvFile_ok [OF assms(1,2)] assms(3) dataLine_row_in [OF assms(4,5)] by auto

lemma sqlite_row:
  assumes "sqlite_processTsvFile flt inp s = (s', Inr u)" "working s = None" "t_content inp = Some content"
    "line \<in> set (split_on CHR 0x0A content)" "counted_line line"
  shows "annotationRow (seq s) (split_on CHR 0x09 line) \<in> set (annotations (committed s'))"
  using sqlite_processTsvFile_ok [OF assms(1,2)] assms(3) dataLine_row_in [OF assms(4,5)] by auto

text \<open>
  Claim C9. After a successful import by either TSV importer, every line of the file
  that is not blank, does not start with \<open>#\<close> and has at least eight columns has its row
  in \<open>annotations\<close>; in that row locus_tag, gene and product (columns 6, 7, 8) are null
  when the column is the empty string and the column's text otherwise, and sequence_id,
  feature_type and strand are the text of columns 1, 2 and 5 as it is, empty or not.
\<close>

theorem tsv_empty_columns:
  "(\<forall>flt inp s s' u content line parts.
      pg_processTsvFile flt inp s = (s', Inr u) \<and> working s = None \<and> t_content inp = Some content
      \<and> line \<in> set (split_on CHR 0x0A content) \<and> counted_line line
      \<and> parts = split_on CHR 0x09 line \<longrightarrow>
        annotationRow (seq s) parts \<in> set (annotations (committed s'))
        \<and> a_locus_tag (annotationRow (seq s) parts) = (if parts ! 5 = [] then None else Some (parts ! 5))
        \<and> a_gene (annotationRow (seq s) parts) = (if parts ! 6 = [] then None else Some (parts ! 6))
        \<and> a_product (annotationRow (seq s) parts) = (if parts ! 7 = [] then None else Some (parts ! 7))
        \<and> a_sequence_id (annotationRow (seq s) parts) = parts ! 0
        \<and> a_feature_type (annotationRow (seq s) parts) = parts ! 1
        \<and> a_strand (annotationRow (seq s) parts) = parts ! 4)
   \<and> (\<forall>flt inp s s' u content line parts.
      sqlite_processTsvFile flt inp s = (s', Inr u) \<and> working s = None \<and> t_content inp = Some content
      \<and> line \<in> set (split_on CHR 0x0A content) \<and> counted_line line
      \<and> parts = split_on CHR 0x09 line \<longrightarrow>
        annotationRow (seq s) parts \<in> set (annotations (committed s'))
        \<and> a_locus_tag (annotationRow (seq s) parts) = (if parts ! 5 = [] then None else Some (parts ! 5))
        \<and> a_gene (annotationRow (seq s) parts) = (if parts ! 6 = [] then None else Some (parts ! 6))
        \<and> a_product (annotationRow (seq s) parts) = (if parts ! 7 = [] then None else Some (parts ! 7))
        \<and> a_sequence_id (annotationRow (seq s) parts) = parts ! 0
        \<and> a_feature_type (annotationRow (seq s) parts) = parts ! 1
        \<and> a_strand (annotationRow (seq s) parts) = parts ! 4)"
  using pg_row sqlite_row annotationRow_fields by blast

theorem tsv_empty_columns_witness:
  "tsv_line8 \<in> set (split_on CHR 0x0A tsv_text) \<and> counted_line tsv_line8
   \<and> annotationRow 20 (split_on CHR 0x09 tsv_line8) \<in> set (annotations (committed tsv_once))
   \<and> a_locus_tag (annotationRow 20 (split_on CHR 0x09 tsv_line8)) = None
   \<and> a_gene (annotationRow 20 (split_on CHR 0x09 tsv_line8)) = Some ''dnaA''
   \<and> a_strand (annotationRow 20 (split_on CHR 0x09 tsv_line8)) = ''+''
   \<and> annotationRow 20 (split_on CHR 0x09 tsv_line8) \<in>
       set (annotations (committed (fst (sqlite_processTsvFile no_faults tsv_example (fresh tsv_empty)))))"
proof -
  note T = tsv_empty_columns
  have m: "tsv_line8 \<in> set (split_on CHR 0x0A tsv_text)" by (simp add: tsv_example_lines)
  have sq: "seq (fresh tsv_empty) = 20" by (simp add: fresh_def)
  have a: "annotationRow 20 (split_on CHR 0x09 tsv_line8) \<in> set (annotations (committed tsv_once))
     \<and> a_locus_tag (annotationRow 20 (split_on CHR 0x09 tsv_line8)) =
         (if split_on CHR 0x09 tsv_line8 ! 5 = [] then None else Some (split_on CHR 0x09 tsv_line8 ! 5))
     \<and> a_gene (annotationRow 20 (split_on CHR 0x09 tsv_line8)) =
         (if split_on CHR 0x09 tsv_line8 ! 6 = [] then None else Some (split_on CHR 0x09 tsv_line8 ! 6))
     \<and> a_strand (annotationRow 20 (split_on CHR 0x09 tsv_line8)) = split_on CHR 0x09 tsv_line8 ! 4"
    using T [THEN conjunct1, rule_format, of no_faults tsv_example "fresh tsv_empty" tsv_once "()"
        tsv_text tsv_line8 "split_on CHR 0x09 tsv_line8"]
      pg_example_run [OF fresh_working, of tsv_empty] tsv_example_content m counted_facts(1)
    unfolding sq by (simp add: tsv_once_def)
  have b: "annotationRow 20 (split_on CHR 0x09 tsv_line8) \<in>
       set (annotations (committed (fst (sqlite_processTsvFile no_faults tsv_example (fresh tsv_empty)))))"
    using T [THEN conjunct2, rule_format, of no_faults tsv_example "fresh tsv_empty"
        "fst (sqlite_processTsvFile no_faults tsv_example (fresh tsv_empty))" "()"
        tsv_text tsv_line8 "split_on CHR 0x09 tsv_line8"]
      sqlite_example_run [of "fresh tsv_empty"] tsv_example_content m counted_facts(1)
    unfolding sq by simp
  from a b m counted_facts(1) show ?thesis
    by (simp add: tsv_line8_cols)
qed

section \<open>A failed import\<close>

lemma handler_working:
  assumes "bnd rb (\<lambda>_. bnd (say x) (\<lambda>_. throw e)) s = (s', r)"
    and "\<And>s1 r1. rb s = (s1, r1) \<Longrightarrow> working s1 = None"
  shows "working s' = None"
proof -
  obtain s1 r1 where rb: "rb s = (s1, r1)" by (cases "rb s")
  from assms(2) [OF rb] have c: "working s1 = None" .
  from assms(1) rb c show ?thesis
    by (cases r1) (auto simp: bnd_def say_def throw_def)
qed

lemma processGffFile_fail_closed:
  assumes "processGffFile flt inp s = (s', Inl e)" "working s = None"
  shows "working s' = None"
proof (cases "in_size inp")
  case None
  with assms show ?thesis by (simp add: processGffFile_def throw_def)
next
  case (Some sz)
  let ?h = "\<lambda>err. bnd (rollback_tx flt)
                      (\<lambda>_. bnd (say (ErrMsg ''Error processing GFF file'' (in_name inp)))
                      (\<lambda>_. throw err))"
  from assms Some have "bnd (say (LogName ''Processing file'' (in_name inp)))
      (\<lambda>_. bnd (connect flt) (\<lambda>_. try_catch (gff_try flt inp sz) ?h)) s = (s', Inl e)"
    by (simp add: processGffFile_def)
  then show ?thesis
  proof (cases rule: bnd_Inl)
    case 1
    then show ?thesis by (simp add: say_def)
  next
    case (2 s1 u)
    from 2(1) assms(2) have s1: "working s1 = None" by (auto simp: say_def)
    from 2(2) show ?thesis
    proof (cases rule: bnd_Inl)
      case 1
      from connect_eq [OF 1] s1 show ?thesis by simp
    next
      case (2 s2 u')
      from try_catch_Inl [OF 2(2)] obtain s3 e3 where
        h: "?h e3 s3 = (s', Inl e :: error + nat)"
        by blast
      from h show ?thesis
        by (rule handler_working) (simp add: rollback_tx_committed)
    qed
  qed
qed

lemma pg_processTsvFile_fail_closed:
  assumes "pg_processTsvFile flt inp s = (s', Inl e)" "working s = None"
  shows "working s' = None"
proof -
  let ?h = "\<lambda>error. bnd (rollback_tx flt)
                 (\<lambda>_. bnd (say (ErrMsg ''Error processing file'' (t_path inp)))
                 (\<lambda>_. throw error))"
  from assms have "bnd (say (LogName ''Processing file'' (t_path inp)))
       (\<lambda>_. bnd (connect flt) (\<lambda>_. try_catch (pg_try flt inp) ?h)) s = (s', Inl e)"
    by (simp add: pg_processTsvFile_def)
  then show ?thesis
  proof (cases rule: bnd_Inl)
    case 1
    then show ?thesis by (simp add: say_def)
  next
    case (2 s1 u)
    from 2(1) assms(2) have s1: "working s1 = None" by (auto simp: say_def)
    from 2(2) show ?thesis
    proof (cases rule: bnd_Inl)
      case 1
      from connect_eq [OF 1] s1 show ?thesis by simp
    next
      case (2 s2 u')
      from try_catch_Inl [OF 2(2)] obtain s3 e3 where
        h: "?h e3 s3 = (s', Inl e :: error + unit)"
        by blast
      from h show ?thesis
        by (rule handler_working) (simp add: rollback_tx_committed)
    qed
  qed
qed

lemma sqlite_processTsvFile_fail_closed:
  assumes "sqlite_processTsvFile flt inp s = (s', Inl e)"
  shows "working s' = None"
proof -
  let ?h = "\<lambda>error. bnd (sqlite_rollback flt)
                 (\<lambda>_. bnd (say (ErrMsg ''Error processing file'' (t_path inp)))
                 (\<lambda>_. throw error))"
  from assms have "bnd (say (LogName ''Processing file'' (t_path inp)))
       (\<lambda>_. try_catch (sqlite_try flt inp) ?h) s = (s', Inl e)"
    by (simp add: sqlite_processTsvFile_def)
  then show ?thesis
  proof (cases rule: bnd_Inl)
    case 1
    then show ?thesis by (simp add: say_def)
  next
    case (2 s1 u)
    from try_catch_Inl [OF 2(2)] obtain s3 e3 where
      h: "?h e3 s3 = (s', Inl e :: error + unit)"
      by blast
    from h show ?thesis
      by (rule handler_working) (simp add: sqlite_rollback_committed)
  qed
qed

text \<open>
  Claim C2, as amended. When an import of the GFF importer or of either TSV importer
  throws, the committed tables are what they were before the import: nothing the failed
  file inserted, deleted or updated is visible. Nor can it become visible later: the
  import leaves no transaction open (the SQLite importer never does; the two PostgreSQL
  importers do not when none was open before), so what the failed file wrote is not
  there for the \<open>COMMIT\<close> of a later file.
\<close>

theorem failed_import_rolls_back:
  "(\<forall>flt inp s s' e. processGffFile flt inp s = (s', Inl e) \<longrightarrow>
      committed s' = committed s \<and> (working s = None \<longrightarrow> working s' = None))
   \<and> (\<forall>flt inp s s' e. pg_processTsvFile flt inp s = (s', Inl e) \<longrightarrow>
      committed s' = committed s \<and> (working s = None \<longrightarrow> working s' = None))
   \<and> (\<forall>flt inp s s' e. sqlite_processTsvFile flt inp s = (s', Inl e) \<longrightarrow>
      committed s' = committed s \<and> working s' = None)"
proof -
  have a: "\<forall>flt inp s s' e. processGffFile flt inp s = (s', Inl e) \<longrightarrow>
      committed s' = committed s \<and> (working s = None \<longrightarrow> working s' = None)"
    using processGffFile_fail processGffFile_fail_closed by blast
  have b: "\<forall>flt inp s s' e. pg_processTsvFile flt inp s = (s', Inl e) \<longrightarrow>
      committed s' = committed s \<and> (working s = None \<longrightarrow> working s' = None)"
    using pg_processTsvFile_fail pg_processTsvFile_fail_closed by blast
  have c: "\<forall>flt inp s s' e. sqlite_processTsvFile flt inp s = (s', Inl e) \<longrightarrow>
      committed s' = committed s \<and> working s' = None"
    using sqlite_processTsvFile_fail sqlite_processTsvFile_fail_closed by blast
  from a b c show ?thesis by (intro conjI)
qed

lemma gff_fail_run:
  "snd (processGffFile (fault_at 8) gff_example (fresh gff_old_db)) = Inl DbError"
  by (simp add: act_eval str_eval gff_eval)

lemma pg_fail_run:
  "snd (pg_processTsvFile (fault_at 3) tsv_example (fresh tsv_empty)) = Inl DbError"
  by (simp add: act_eval str_eval tsv_eval)

lemma sqlite_fail_run:
  "snd (sqlite_processTsvFile (fault_at 3) tsv_example (fresh tsv_empty)) = Inl DbError"
  by (simp add: act_eval str_eval tsv_eval)

theorem failed_import_rolls_back_witness:
  "snd (processGffFile (fault_at 8) gff_example (fresh gff_old_db)) = Inl DbError
   \<and> committed (fst (processGffFile (fault_at 8) gff_example (fresh gff_old_db))) = gff_old_db
   \<and> working (fst (processGffFile (fault_at 8) gff_example (fresh gff_old_db))) = None
   \<and> snd (pg_processTsvFile (fault_at 3) tsv_example (fresh tsv_empty)) = Inl DbError
   \<and> committed (fst (pg_processTsvFile (fault_at 3) tsv_example (fresh tsv_empty))) = tsv_empty
   \<and> working (fst (pg_processTsvFile (fault_at 3) tsv_example (fresh tsv_empty))) = None
   \<and> snd (sqlite_processTsvFile (fault_at 3) tsv_example (fresh tsv_empty)) = Inl DbError
   \<and> committed (fst (sqlite_processTsvFile (fault_at 3) tsv_example (fresh tsv_empty))) = tsv_empty
   \<and> working (fst (sqlite_processTsvFile (fault_at 3) tsv_example (fresh tsv_empty))) = None"
proof -
  note T = failed_import_rolls_back
  have a: "committed (fst (processGffFile (fault_at 8) gff_example (fresh gff_old_db))) =
      committed (fresh gff_old_db)
    \<and> (working (fresh gff_old_db) = None \<longrightarrow>
        working (fst (processGffFile (fault_at 8) gff_example (fresh gff_old_db))) = None)"
    by (rule T [THEN conjunct1, rule_format, of "fault_at 8" gff_example _ _ DbError])
       (metis gff_fail_run prod.collapse)
  have b: "committed (fst (pg_processTsvFile (fault_at 3) tsv_example (fresh tsv_empty))) =
      committed (fresh tsv_empty)
    \<and> (working (fresh tsv_empty) = None \<longrightarrow>
        working (fst (pg_processTsvFile (fault_at 3) tsv_example (fresh tsv_empty))) = None)"
    by (rule T [THEN conjunct2, THEN conjunct1, rule_format, of "fault_at 3" tsv_example _ _ DbError])
       (metis pg_fail_run prod.collapse)
  have c: "committed (fst (sqlite_processTsvFile (fault_at 3) tsv_example (fresh tsv_empty))) =
      committed (fresh tsv_empty)
    \<and> working (fst (sqlite_processTsvFile (fault_at 3) tsv_example (fresh tsv_empty))) = None"
    by (rule T [THEN conjunct2, THEN conjunct2, rule_format, of "fault_at 3" tsv_example _ _ DbError])
       (metis sqlite_fail_run prod.collapse)
  have d: "committed (fresh gff_old_db) = gff_old_db" "committed (fresh tsv_empty) = tsv_empty"
    by (simp_all add: fresh_def)
  from a b c d gff_fail_run pg_fail_run sqlite_fail_run show ?thesis
    by simp
qed

section \<open>The JSON importer\<close>

lemmas json_eval = processFile_def processFile_start_def processFile_rest_def insertFeature_def
  insert_row_def j_or_null_def json_example_def json_null_def json_plain_def

text \<open>
  The JSON importer on a file with one feature, when the \<open>INSERT\<close> of the feature's
  cross-reference fails: \<open>processFile\<close> reports the error and returns, and the genome row and
  the feature row it had inserted stay in the tables.
\<close>

theorem json_failure_leaves_rows:
  "snd (processFile (fault_at 3) json_example (fresh [])) = Inr ()
   \<and> last (console (fst (processFile (fault_at 3) json_example (fresh [])))) =
       ErrMsg ''Error processing file'' ''data/a.json''
   \<and> map j_table (committed (fst (processFile (fault_at 3) json_example (fresh [])))) =
       [''genomes'', ''features'']
   \<and> working (fst (processFile (fault_at 3) json_example (fresh []))) = None"
  by (simp add: act_eval json_eval)

lemma processFile_no_array:
  assumes "j_parsed inp = Some jsonData" "\<not> is_array (get jsonData ''features'')"
  shows "processFile flt inp s =
     (s\<lparr>console := console s @
          [LogName ''Processing file'' (j_path inp),
           if jsonData = JNull then ErrMsg ''Error reading or parsing file'' (j_path inp)
           else WarnMsg ''No features array found in file'' (j_path inp)]\<rparr>, Inr ())"
  using assms
  by (cases "get jsonData ''features''")
     (simp_all add: processFile_def processFile_start_def processFile_rest_def bnd_def say_def
       try_catch_def throw_def)

text \<open>
  Claim C10, as amended. When the parsed content of a file has no \<open>features\<close> member or
  one that is not an array, \<open>processFile\<close> makes no call to the database, changes no
  table and returns normally; when the content is not \<open>null\<close>, the lines it prints are
  the \<open>Processing file\<close> line and the warning that no features array was found.
\<close>

theorem json_without_features:
  "(\<forall>flt inp s jsonData.
      j_parsed inp = Some jsonData \<and> \<not> is_array (get jsonData ''features'') \<longrightarrow>
        snd (processFile flt inp s) = Inr ()
        \<and> committed (fst (processFile flt inp s)) = committed s
        \<and> working (fst (processFile flt inp s)) = working s
        \<and> calls (fst (processFile flt inp s)) = calls s)
   \<and> (\<forall>flt inp s jsonData.
      j_parsed inp = Some jsonData \<and> \<not> is_array (get jsonData ''features'') \<and> jsonData \<noteq> JNull \<longrightarrow>
        console (fst (processFile flt inp s)) = console s @
          [LogName ''Processing file'' (j_path inp),
           WarnMsg ''No features array found in file'' (j_path inp)])"
  by (auto simp: processFile_no_array)

theorem json_without_features_witness:
  "j_parsed json_plain = Some (JObj [(''genome'', JStr ''g'')])
   \<and> \<not> is_array (get (JObj [(''genome'', JStr ''g'')]) ''features'')
   \<and> snd (processFile (fault_at 0) json_plain (fresh [])) = Inr ()
   \<and> committed (fst (processFile (fault_at 0) json_plain (fresh []))) = []
   \<and> calls (fst (processFile (fault_at 0) json_plain (fresh []))) = 0
   \<and> console (fst (processFile (fault_at 0) json_plain (fresh []))) =
       [LogName ''Processing file'' ''data/p.json'',
        WarnMsg ''No features array found in file'' ''data/p.json'']"
proof -
  note T = json_without_features
  have p: "j_parsed json_plain = Some (JObj [(''genome'', JStr ''g'')])"
    by (simp add: json_plain_def)
  have n: "\<not> is_array (get (JObj [(''genome'', JStr ''g'')]) ''features'')" by simp
  have a: "snd (processFile (fault_at 0) json_plain (fresh [])) = Inr ()
        \<and> committed (fst (processFile (fault_at 0) json_plain (fresh []))) = committed (fresh [])
        \<and> working (fst (processFile (fault_at 0) json_plain (fresh []))) = working (fresh [])
        \<and> calls (fst (processFile (fault_at 0) json_plain (fresh []))) = calls (fresh ([] :: json_db))"
    by (rule T [THEN conjunct1, rule_format, OF conjI [OF p n]])
  have b: "console (fst (processFile (fault_at 0) json_plain (fresh []))) =
          console (fresh ([] :: json_db)) @
          [LogName ''Processing file'' (j_path json_plain),
           WarnMsg ''No features array found in file'' (j_path json_plain)]"
    by (rule T [THEN conjunct2, rule_format, of _ "JObj [(''genome'', JStr ''g'')]"]) (simp add: p)
  from a b p n show ?thesis by (simp add: fresh_def json_plain_def)
qed

text \<open>
  A file whose content is \<open>null\<close>: reading \<open>jsonData.features\<close> throws, the outer handler
  prints an error, and no warning is printed.
\<close>

theorem json_null_logs_error:
  "j_parsed json_null = Some JNull
   \<and> \<not> is_array (get JNull ''features'')
   \<and> committed (fst (processFile no_faults json_null (fresh []))) = []
   \<and> console (fst (processFile no_faults json_null (fresh []))) =
       [LogName ''Processing file'' ''data/n.json'',
        ErrMsg ''Error reading or parsing file'' ''data/n.json'']"
  by (simp add: act_eval json_eval)

section \<open>Folders without matching files\<close>

lemma pg_main_empty:
  assumes "listing fo = Some files" "tsvFiles_of pat files = []"
  shows "pg_main flt pat fo s = (s\<lparr>console := console s @ [LogMsg ''No TSV files found'']\<rparr>, Some 1)"
  using assms by (simp add: pg_main_def say_def)

lemma bnd_rows:
  assumes "bnd m f s = (s', r)"
    and "\<And>s s' r. m s = (s', r) \<Longrightarrow>
      genomes (committed s') = genomes (committed s) \<and> annotations (committed s') = annotations (committed s)"
    and "\<And>a s s' r. f a s = (s', r) \<Longrightarrow>
      genomes (committed s') = genomes (committed s) \<and> annotations (committed s') = annotations (committed s)"
  shows "genomes (committed s') = genomes (committed s) \<and> annotations (committed s') = annotations (committed s)"
proof -
  obtain s1 r1 where m: "m s = (s1, r1)" by (cases "m s")
  from assms(2) [OF m] have a: "genomes (committed s1) = genomes (committed s)"
    "annotations (committed s1) = annotations (committed s)" by simp_all
  show ?thesis
  proof (cases r1)
    case (Inl e)
    with assms(1) m a show ?thesis by (simp add: bnd_def)
  next
    case (Inr x)
    with assms(1) m have "f x s1 = (s', r)" by (simp add: bnd_def)
    from assms(3) [OF this] a show ?thesis by simp
  qed
qed

lemma initializeDatabase_rows:
  assumes "initializeDatabase flt s = (s', r)"
  shows "genomes (committed s') = genomes (committed s) \<and> annotations (committed s') = annotations (committed s)"
  using assms
  by (auto simp: initializeDatabase_def bnd_def exec_def say_def ret_def tick_def
      split: if_splits option.splits prod.splits sum.splits)

lemma open_init_rows:
  assumes "sqlite_open flt s = (s', r)"
  shows "genomes (committed s') = genomes (committed s) \<and> annotations (committed s') = annotations (committed s)"
  using assms unfolding sqlite_open_def
proof (rule bnd_rows)
  fix s s' :: "tsv_db sys" and r :: "error + unit"
  assume "db_call flt s = (s', r)"
  from db_call_eq [OF this]
  show "genomes (committed s') = genomes (committed s) \<and> annotations (committed s') = annotations (committed s)"
    by simp
next
  fix a :: unit and s s' :: "tsv_db sys" and r :: "error + unit"
  assume "initializeDatabase flt s = (s', r)"
  then show "genomes (committed s') = genomes (committed s) \<and> annotations (committed s') = annotations (committed s)"
    by (rule initializeDatabase_rows)
qed

lemma sqlite_main_empty:
  assumes "listing fo = Some files" "tsvFiles_of pat files = []"
  shows "snd (sqlite_main flt pat fo s) = Some 1
     \<and> genomes (committed (fst (sqlite_main flt pat fo s))) = genomes (committed s)
     \<and> annotations (committed (fst (sqlite_main flt pat fo s))) = annotations (committed s)"
proof -
  obtain s1 r1 where i: "sqlite_open flt s = (s1, r1)"
    by (cases "sqlite_open flt s")
  from open_init_rows [OF i] i assms show ?thesis
    by (cases r1) (simp_all add: sqlite_main_def say_def)
qed

lemma gff_folder_empty:
  assumes "listing fo = Some files" "filter isGffFile files = []"
  shows "processGffFolder flt fo s =
     (s\<lparr>console := console s @
          [LogMsg ''Scanning folder'', LogCount ''Found GFF file(s)'' 0,
           LogMsg ''All files processed.'', LogMsg ''Script completed.'']\<rparr>, None)"
  using assms by (simp add: processGffFolder_def bnd_def say_def try_catch_def ret_def)

lemma json_dir_empty:
  assumes "listing fo = Some files" "jsonFiles_of files = []"
  shows "processDirectory flt fo s =
     (s\<lparr>console := console s @
          [LogCount ''Found JSON files to process'' 0, LogMsg ''Finished processing all files'']\<rparr>,
      None)"
  using assms by (simp add: processDirectory_def bnd_def say_def try_catch_def ret_def)

text \<open>
  Claim C7, as amended. Over a folder with no matching file: the PostgreSQL TSV
  importer prints that no TSV files were found and exits with code 1, having made no
  call to the database; the SQLite TSV importer exits with code 1 and the rows of
  \<open>genomes\<close> and \<open>annotations\<close> are as before (it may have created its schema); the GFF
  importer prints that it found 0 files and ends normally, with no exit code set and no
  call to the database; the JSON importer prints that it found 0 files and that it has
  finished, and ends normally.
\<close>

theorem empty_folder_runs:
  "(\<forall>flt pat fo s files. listing fo = Some files \<and> tsvFiles_of pat files = [] \<longrightarrow>
      pg_main flt pat fo s = (s\<lparr>console := console s @ [LogMsg ''No TSV files found'']\<rparr>, Some 1))
   \<and> (\<forall>flt pat fo s files. listing fo = Some files \<and> tsvFiles_of pat files = [] \<longrightarrow>
      snd (sqlite_main flt pat fo s) = Some 1
      \<and> genomes (committed (fst (sqlite_main flt pat fo s))) = genomes (committed s)
      \<and> annotations (committed (fst (sqlite_main flt pat fo s))) = annotations (committed s))
   \<and> (\<forall>flt fo s files. listing fo = Some files \<and> filter isGffFile files = [] \<longrightarrow>
      processGffFolder flt fo s =
        (s\<lparr>console := console s @
             [LogMsg ''Scanning folder'', LogCount ''Found GFF file(s)'' 0,
              LogMsg ''All files processed.'', LogMsg ''Script completed.'']\<rparr>, None))
   \<and> (\<forall>flt fo s files. listing fo = Some files \<and> jsonFiles_of files = [] \<longrightarrow>
      processDirectory flt fo s =
        (s\<lparr>console := console s @
             [LogCount ''Found JSON files to process'' 0,
              LogMsg ''Finished processing all files'']\<rparr>, None))"
  using pg_main_empty sqlite_main_empty gff_folder_empty json_dir_empty by blast

lemma notes_facts:
  "listing (notes_only i) = Some [''notes.txt'']"
  "tsvFiles_of ''.tsv'' [''notes.txt''] = []"
  "filter isGffFile [''notes.txt''] = []"
  "jsonFiles_of [''notes.txt''] = []"
  by (simp_all add: notes_only_def tsvFiles_of_def isGffFile_def jsonFiles_of_def toLowerCase_def
      lower_char_def endsWith_def startsWith_def Let_def)

theorem empty_folder_runs_witness:
  "snd (pg_main (fault_at 0) ''.tsv'' (notes_only tsv_example) (fresh tsv_empty)) = Some 1
   \<and> calls (fst (pg_main (fault_at 0) ''.tsv'' (notes_only tsv_example) (fresh tsv_empty))) = 0
   \<and> snd (sqlite_main (fault_at 0) ''.tsv'' (notes_only tsv_example) (fresh tsv_empty)) = Some 1
   \<and> genomes (committed (fst (sqlite_main (fault_at 0) ''.tsv'' (notes_only tsv_example) (fresh tsv_empty)))) = []
   \<and> snd (processGffFolder (fault_at 0) (notes_only gff_example) (fresh gff_old_db)) = None
   \<and> calls (fst (processGffFolder (fault_at 0) (notes_only gff_example) (fresh gff_old_db))) = 0
   \<and> processDirectory (fault_at 0) (notes_only json_example) (fresh []) =
       ((fresh [])\<lparr>console :=
          [LogCount ''Found JSON files to process'' 0, LogMsg ''Finished processing all files'']\<rparr>, None)"
proof -
  note T = empty_folder_runs
  have a: "pg_main (fault_at 0) ''.tsv'' (notes_only tsv_example) (fresh tsv_empty) =
      ((fresh tsv_empty)\<lparr>console := console (fresh tsv_empty) @ [LogMsg ''No TSV files found'']\<rparr>, Some 1)"
    by (rule T [THEN conjunct1, rule_format, OF conjI [OF notes_facts(1) notes_facts(2)]])
  have b: "snd (sqlite_main (fault_at 0) ''.tsv'' (notes_only tsv_example) (fresh tsv_empty)) = Some 1
      \<and> genomes (committed (fst (sqlite_main (fault_at 0) ''.tsv'' (notes_only tsv_example) (fresh tsv_empty)))) =
          genomes (committed (fresh tsv_empty))
      \<and> annotations (committed (fst (sqlite_main (fault_at 0) ''.tsv'' (notes_only tsv_example) (fresh tsv_empty)))) =
          annotations (committed (fresh tsv_empty))"
    by (rule T [THEN conjunct2, THEN conjunct1, rule_format, OF conjI [OF notes_facts(1) notes_facts(2)]])
  have c: "processGffFolder (fault_at 0) (notes_only gff_example) (fresh gff_old_db) =
      ((fresh gff_old_db)\<lparr>console := console (fresh gff_old_db) @
             [LogMsg ''Scanning folder'', LogCount ''Found GFF file(s)'' 0,
              LogMsg ''All files processed.'', LogMsg ''Script completed.'']\<rparr>, None)"
    by (rule T [THEN conjunct2, THEN conjunct2, THEN conjunct1, rule_format,
          OF conjI [OF notes_facts(1) notes_facts(3)]])
  have d: "processDirectory (fault_at 0) (notes_only json_example) (fresh []) =
      ((fresh [])\<lparr>console := console (fresh ([] :: json_db)) @
             [LogCount ''Found JSON files to process'' 0,
              LogMsg ''Finished processing all files'']\<rparr>, None)"
    by (rule T [THEN conjunct2, THEN conjunct2, THEN conjunct2, rule_format,
          OF conjI [OF notes_facts(1) notes_facts(4)]])
  from a b c d show ?thesis by (simp add: fresh_def tsv_empty_def)
qed

lemma sqlite_creates_schema:
  "has_schema (committed (fst (sqlite_main no_faults ''.tsv'' (notes_only tsv_example) (fresh tsv_noschema))))"
  by (simp add: sqlite_main_def sqlite_open_def initializeDatabase_def act_eval notes_facts
      tsv_noschema_def)

text \<open>
  Over a folder that holds only \<open>notes.txt\<close> the GFF importer sets no exit code, and the
  SQLite importer, started on a database file without tables, creates them before it
  finds that there is no file to import.
\<close>

theorem gff_empty_folder_exits_normally:
  "listing (notes_only gff_example) = Some [''notes.txt'']
   \<and> filter isGffFile [''notes.txt''] = []
   \<and> snd (processGffFolder no_faults (notes_only gff_example) (fresh gff_old_db)) = None
   \<and> console (fst (processGffFolder no_faults (notes_only gff_example) (fresh gff_old_db))) =
       [LogMsg ''Scanning folder'', LogCount ''Found GFF file(s)'' 0,
        LogMsg ''All files processed.'', LogMsg ''Script completed.'']
   \<and> has_schema (committed (fst (sqlite_main no_faults ''.tsv'' (notes_only tsv_example) (fresh tsv_noschema))))
   \<and> \<not> has_schema (committed (fresh tsv_noschema))"
proof -
  have "processGffFolder no_faults (notes_only gff_example) (fresh gff_old_db) =
      ((fresh gff_old_db)\<lparr>console := console (fresh gff_old_db) @
             [LogMsg ''Scanning folder'', LogCount ''Found GFF file(s)'' 0,
              LogMsg ''All files processed.'', LogMsg ''Script completed.'']\<rparr>, None)"
    by (rule gff_folder_empty [OF notes_facts(1) notes_facts(3)])
  then have "snd (processGffFolder no_faults (notes_only gff_example) (fresh gff_old_db)) = None"
    and "console (fst (processGffFolder no_faults (notes_only gff_example) (fresh gff_old_db))) =
       [LogMsg ''Scanning folder'', LogCount ''Found GFF file(s)'' 0,
        LogMsg ''All files processed.'', LogMsg ''Script completed.'']"
    by (simp_all add: fresh_def)
  with notes_facts(1) [of gff_example] notes_facts(3) sqlite_creates_schema show ?thesis
    by (simp add: fresh_def tsv_noschema_def)
qed

section \<open>Which files a run starts on\<close>

lemma names_logged_append [simp]:
  "names_logged lbl (c @ c') = names_logged lbl c @ names_logged lbl c'"
  by (simp add: names_logged_def)

lemma names_logged_Nil [simp]: "names_logged lbl [] = []"
  by (simp add: names_logged_def)

lemma names_logged_Cons [simp]:
  "names_logged lbl (e # c) = entry_name lbl e @ names_logged lbl c"
  by (simp add: names_logged_def)

lemma quietD:
  "quiet m \<Longrightarrow> m s = (s', r) \<Longrightarrow> names_logged lbl (console s') = names_logged lbl (console s)"
  unfolding quiet_def by blast

lemma quiet_ret [intro!, simp]: "quiet (ret a)"
  by (simp add: quiet_def ret_def)

lemma quiet_throw [intro!, simp]: "quiet (throw e)"
  by (simp add: quiet_def throw_def)

lemma quiet_say [intro!, simp]:
  "quiet (say (LogMsg t))" "quiet (say (LogCount t n))" "quiet (say (LogTally a b))"
  "quiet (say (WarnMsg t p))" "quiet (say (ErrMsg t p))"
  by (auto simp: quiet_def say_def)

lemma quiet_db_call [intro!, simp]: "quiet (db_call flt)"
  by (auto simp: quiet_def db_call_def tick_def split: if_splits)

lemma quiet_connect [intro!, simp]: "quiet (connect flt)"
  by (simp add: connect_def)

lemma quiet_prepare [intro!, simp]: "quiet (prepare flt)"
  by (auto simp: quiet_def prepare_def tick_def split: if_splits)

lemma quiet_finalize [intro!, simp]: "quiet (finalize flt)"
  by (auto simp: quiet_def finalize_def tick_def split: if_splits)

lemma quiet_exec [intro!, simp]: "quiet (exec flt q)"
  by (auto simp: quiet_def exec_def tick_def split: if_splits prod.splits option.splits)

lemma quiet_exec_ins [intro!, simp]: "quiet (exec_ins flt q)"
  by (auto simp: quiet_def exec_ins_def exec_def tick_def
      split: if_splits prod.splits option.splits sum.splits)

lemma quiet_begin_tx [intro!, simp]: "quiet (begin_tx flt)"
  by (auto simp: quiet_def begin_tx_def tick_def split: if_splits)

lemma quiet_commit_tx [intro!, simp]: "quiet (commit_tx flt)"
  by (auto simp: quiet_def commit_tx_def tick_def split: if_splits option.splits)

lemma quiet_rollback_tx [intro!, simp]: "quiet (rollback_tx flt)"
  by (auto simp: quiet_def rollback_tx_def tick_def)

lemma quiet_sqlite_rollback [intro!, simp]: "quiet (sqlite_rollback flt)"
  by (auto simp: quiet_def sqlite_rollback_def tick_def)

lemma quiet_bnd [intro!]:
  assumes "quiet m" "\<And>a. quiet (f a)"
  shows "quiet (bnd m f)"
  unfolding quiet_def
proof (intro allI impI)
  fix s s' r lbl
  assume run: "bnd m f s = (s', r)"
  obtain s1 r1 where m: "m s = (s1, r1)" by (cases "m s")
  from quietD [OF assms(1) m] have k1: "names_logged lbl (console s1) = names_logged lbl (console s)" .
  show "names_logged lbl (console s') = names_logged lbl (console s)"
  proof (cases r1)
    case (Inl e)
    with run m have "s' = s1" by (simp add: bnd_def)
    with k1 show ?thesis by simp
  next
    case (Inr a)
    with run m have "f a s1 = (s', r)" by (simp add: bnd_def)
    from quietD [OF assms(2) this] k1 show ?thesis by simp
  qed
qed

lemma quiet_try_catch [intro!]:
  assumes "quiet m" "\<And>e. quiet (h e)"
  shows "quiet (try_catch m h)"
  unfolding quiet_def
proof (intro allI impI)
  fix s s' r lbl
  assume run: "try_catch m h s = (s', r)"
  obtain s1 r1 where m: "m s = (s1, r1)" by (cases "m s")
  from quietD [OF assms(1) m] have k1: "names_logged lbl (console s1) = names_logged lbl (console s)" .
  show "names_logged lbl (console s') = names_logged lbl (console s)"
  proof (cases r1)
    case (Inr a)
    with run m have "s' = s1" by (simp add: try_catch_def)
    with k1 show ?thesis by simp
  next
    case (Inl e)
    with run m have "h e s1 = (s', r)" by (simp add: try_catch_def)
    from quietD [OF assms(2) this] k1 show ?thesis by simp
  qed
qed

lemma quiet_if [intro!]:
  "(c \<Longrightarrow> quiet a) \<Longrightarrow> (\<not> c \<Longrightarrow> quiet b) \<Longrightarrow> quiet (if c then a else b)"
  by simp

lemma quiet_insertFeatureBatch [intro!, simp]: "quiet (insertFeatureBatch flt b)"
  by (simp add: insertFeatureBatch_def)

lemma quiet_gff_header [intro!, simp]: "quiet (gff_header flt fid line l)"
  unfolding gff_header_def Let_def
  by (auto split: option.splits)

lemma quiet_gff_data [intro!, simp]: "quiet (gff_data flt fid line l)"
  unfolding gff_data_def Let_def by auto

lemma quiet_gff_line [intro!, simp]: "quiet (gff_line flt fid line l)"
  unfolding gff_line_def Let_def by auto

lemma quiet_gff_lines [intro!, simp]: "quiet (gff_lines flt fid ls l)"
  by (induction ls arbitrary: l) auto

lemma quiet_gff_file_record [intro!, simp]: "quiet (gff_file_record flt inp sz)"
  unfolding gff_file_record_def by (auto split: list.splits)

lemma quiet_gff_try [intro!, simp]: "quiet (gff_try flt inp sz)"
  unfolding gff_try_def gff_writes_def gff_report_def by auto

lemma quiet_sqlite_batch [intro!, simp]: "quiet (sqlite_batch flt gid b)"
  by (induction b) (auto simp: Let_def)

lemma quiet_sqlite_batches [intro!, simp]: "quiet (sqlite_batches flt gid bs dl i k)"
  by (induction k arbitrary: i) (auto simp: Let_def)

lemma quiet_sqlite_try [intro!, simp]: "quiet (sqlite_try flt inp)"
  unfolding sqlite_try_def sqlite_writes_def Let_def by (auto split: option.splits)



section \<open>A failure in the middle of a folder\<close>





















end
